(* ===== verification/Koshi_Prelude.thy ===== *)
theory Koshi_Prelude
  imports Main "HOL-Library.Sublist" "HOL-Library.Signed_Division"
begin

text \<open>
  Shared vocabulary of the development: Go's 64-bit integers, wall-clock times and
  durations, byte strings, run-time panics, and the generic facts that the component
  theories use. Nothing in this theory is specific to one component.

  Conventions used everywhere:
  \<^item> \<open>int64\<close> and \<open>int\<close> (64 bits wide on the platforms the runtime is built for) are
    \<open>int\<close> values; every addition, subtraction or negation of the source that can leave
    the 64-bit range is written with \<open>wrap64\<close>, two's complement wrap-around.
  \<^item> \<open>time.Time\<close> is the number of nanoseconds since Go's zero time, \<open>time.Duration\<close> a
    number of nanoseconds; \<open>Sub\<close> saturates as in the standard library.
  \<^item> A Go \<open>string\<close> or \<open>[]byte\<close> is a list of bytes (\<open>string\<close>, that is \<open>char list\<close>).
  \<^item> A call that may panic returns an \<open>outcome\<close> next to the state it leaves behind,
    because \<open>recover\<close> lets the program go on with that state.
\<close>

section \<open>Rule collections\<close>

named_theorems go_arith \<open>wrap-around and range facts of 64-bit integers\<close>
named_theorems inv_intro \<open>operations that keep a component invariant\<close>
named_theorems frame_simps \<open>fields and keys an operation leaves alone\<close>

section \<open>64-bit integers\<close>

definition wrap64 :: "int \<Rightarrow> int" where
  "wrap64 x = (x + 9223372036854775808) mod 18446744073709551616 - 9223372036854775808"

definition in64 :: "int \<Rightarrow> bool" where
  "in64 x \<longleftrightarrow> - 9223372036854775808 \<le> x \<and> x \<le> 9223372036854775807"

lemma wrap64_id [simp, go_arith]: "in64 x \<Longrightarrow> wrap64 x = x"
  by (simp add: in64_def wrap64_def)

lemma in64_wrap64 [simp, go_arith]: "in64 (wrap64 x)"
proof -
  have "0 \<le> (x + 9223372036854775808) mod 18446744073709551616"
    and "(x + 9223372036854775808) mod 18446744073709551616 < 18446744073709551616"
    by simp_all
  then show ?thesis unfolding in64_def wrap64_def by linarith
qed

lemma wrap64_wrap64 [simp]: "wrap64 (wrap64 x) = wrap64 x"
  by simp

lemma wrap64_mod: "wrap64 x mod 18446744073709551616 = x mod 18446744073709551616"
  unfolding wrap64_def by (simp add: mod_diff_left_eq)

lemma wrap64_cong:
  assumes "x mod 18446744073709551616 = y mod 18446744073709551616"
  shows "wrap64 x = wrap64 y"
  unfolding wrap64_def using mod_add_cong [OF assms refl] by simp

lemma wrap64_add_wrap64 [go_arith]:
  "wrap64 (wrap64 x + y) = wrap64 (x + y)" "wrap64 (x + wrap64 y) = wrap64 (x + y)"
  by (rule wrap64_cong, rule mod_add_cong, simp_all add: wrap64_mod)+

lemma wrap64_diff_wrap64 [go_arith]:
  "wrap64 (wrap64 x - y) = wrap64 (x - y)" "wrap64 (x - wrap64 y) = wrap64 (x - y)"
  by (rule wrap64_cong, rule mod_diff_cong, simp_all add: wrap64_mod)+

lemma in64_betweenI: "\<lbrakk> in64 a; in64 b; a \<le> x; x \<le> b \<rbrakk> \<Longrightarrow> in64 x"
  by (simp add: in64_def)

lemma in64_0 [simp]: "in64 0"
  by (simp add: in64_def)

lemma in64_max [simp]: "in64 x \<Longrightarrow> in64 (max 0 x)"
  by (simp add: max_def)

section \<open>Times and durations\<close>

type_synonym gotime = int
type_synonym duration = int

definition Second :: duration where
  "Second = 1000000000"

text \<open>\<open>Time.Truncate(time.Second)\<close>: round down to a whole second since the zero time.\<close>

definition truncate_second :: "gotime \<Rightarrow> gotime" where
  "truncate_second t = t - t mod Second"

text \<open>\<open>Time.Sub\<close>: the difference, saturated at the bounds of a duration.\<close>

definition time_Sub :: "gotime \<Rightarrow> gotime \<Rightarrow> duration" where
  "time_Sub t u = max (- 9223372036854775808) (min 9223372036854775807 (t - u))"

definition whole_second :: "gotime \<Rightarrow> bool" where
  "whole_second t \<longleftrightarrow> t mod Second = 0"

text \<open>The whole second a time falls into.\<close>

definition sec :: "gotime \<Rightarrow> int" where
  "sec t = t div Second"

lemma Second_pos [simp]: "0 < Second" "0 \<le> Second" "Second \<noteq> 0"
  by (simp_all add: Second_def)

lemma truncate_second_eq: "truncate_second t = sec t * Second"
  by (simp add: truncate_second_def sec_def minus_mod_eq_div_mult)

lemma whole_second_eq: "whole_second t \<Longrightarrow> t = sec t * Second"
  unfolding whole_second_def sec_def by (metis add.right_neutral div_mult_mod_eq)

lemma sec_mult_Second [simp]: "sec (s * Second) = s"
  by (simp add: sec_def)

lemma whole_second_mult [simp]: "whole_second (s * Second)"
  by (simp add: whole_second_def)

lemma whole_second_truncate [simp]: "whole_second (truncate_second t)"
  by (simp add: truncate_second_eq whole_second_def)

lemma sec_truncate [simp]: "sec (truncate_second t) = sec t"
  by (simp add: truncate_second_eq)

lemma sec_mono: "s \<le> t \<Longrightarrow> sec s \<le> sec t"
  by (simp add: sec_def zdiv_mono1)

lemma sec_less_iff: "whole_second h \<Longrightarrow> h < truncate_second t \<longleftrightarrow> sec h < sec t"
  by (subst whole_second_eq [of h]) (simp_all add: truncate_second_eq)

lemma sec_max: "whole_second h \<Longrightarrow> sec (max h (truncate_second t)) = max (sec h) (sec t)"
  using sec_less_iff [of h t] by (auto simp: max_def)

text \<open>
  \<open>Sub\<close> followed by the division by \<open>time.Second\<close>: the number of seconds between two
  whole-second times, capped at 9223372036 (about 292 years).
\<close>

lemma elapsed_seconds:
  assumes "whole_second h" "h < truncate_second t"
  shows "time_Sub (truncate_second t) h sdiv Second = min 9223372036 (sec t - sec h)"
proof -
  let ?d = "sec t - sec h"
  have "h = sec h * Second" by (rule whole_second_eq [OF assms(1)])
  then have diff: "truncate_second t - h = ?d * Second"
    by (simp add: truncate_second_eq left_diff_distrib)
  have pos: "0 < ?d" using assms by (simp add: sec_less_iff)
  then have sub: "time_Sub (truncate_second t) h = min 9223372036854775807 (?d * Second)"
    unfolding time_Sub_def diff Second_def by (auto simp: min_def)
  then have "time_Sub (truncate_second t) h sdiv Second
      = min 9223372036854775807 (?d * Second) div Second"
    using pos by (simp add: signed_divide_int_def Second_def sgn_if)
  also have "\<dots> = min 9223372036 ?d"
  proof (cases "?d \<le> 9223372036")
    case True
    then have "?d * Second \<le> 9223372036854775807" by (simp add: Second_def)
    with True show ?thesis by (simp add: min_absorb2)
  next
    case False
    then have "9223372037 * Second \<le> ?d * Second" by (intro mult_right_mono) auto
    then have "9223372036854775807 \<le> ?d * Second" by (simp add: Second_def)
    then have "min 9223372036854775807 (?d * Second) div Second = 9223372036854775807 div Second"
      by (simp add: min_absorb1)
    with False show ?thesis by (simp add: Second_def)
  qed
  finally show ?thesis .
qed

section \<open>Panics\<close>

datatype panic =
    IndexOutOfRange
  | MakeSliceLenOutOfRange
  | SendOnClosedChannel
  | CloseOfClosedChannel
  | NilDereference
  | NilMapAssignment
  | CounterDecrease \<comment> \<open>a Prometheus counter given a negative value\<close>
  | InvalidLabelValue \<comment> \<open>a Prometheus label given a value it does not take\<close>
  | AbortHandler \<comment> \<open>\<open>http.ErrAbortHandler\<close>\<close>

datatype 'a outcome = Returns 'a | Panics panic

primrec returned :: "'a outcome \<Rightarrow> bool" where
  "returned (Returns x) = True"
| "returned (Panics p) = False"

section \<open>Byte strings\<close>

text \<open>
  \<open>strings.Contains\<close>, \<open>strings.HasPrefix\<close>, \<open>strings.HasSuffix\<close> and \<open>strings.TrimSuffix\<close>.
\<close>

definition str_contains :: "string \<Rightarrow> string \<Rightarrow> bool" where
  "str_contains s sub \<longleftrightarrow> sublist sub s"

definition has_prefix :: "string \<Rightarrow> string \<Rightarrow> bool" where
  "has_prefix s p \<longleftrightarrow> prefix p s"

definition has_suffix :: "string \<Rightarrow> string \<Rightarrow> bool" where
  "has_suffix s p \<longleftrightarrow> suffix p s"

definition trim_suffix :: "string \<Rightarrow> string \<Rightarrow> string" where
  "trim_suffix s p = (if has_suffix s p then take (length s - length p) s else s)"

lemma trim_suffix_append [simp]: "trim_suffix (s @ p) p = s"
  by (simp add: trim_suffix_def has_suffix_def suffix_def)

lemma trim_suffix_restores: "has_suffix s p \<Longrightarrow> trim_suffix s p @ p = s"
  by (auto simp: trim_suffix_def has_suffix_def suffix_def)

text \<open>
  \<open>strings.ToLower\<close> on ASCII text. The runtime applies it to the request host only, and
  the HTTP server refuses a \<open>Host\<close> header with a byte outside ASCII.
\<close>

definition byte_lower :: "char \<Rightarrow> char" where
  "byte_lower c = (if 65 \<le> (of_char c :: nat) \<and> (of_char c :: nat) \<le> 90
                   then char_of ((of_char c :: nat) + 32) else c)"

definition to_lower :: "string \<Rightarrow> string" where
  "to_lower = map byte_lower"

lemma byte_lower_idem [simp]: "byte_lower (byte_lower c) = byte_lower c"
  by (simp add: byte_lower_def)

lemma to_lower_idem [simp]: "to_lower (to_lower s) = to_lower s"
  by (simp add: to_lower_def comp_def)

lemma length_to_lower [simp]: "length (to_lower s) = length s"
  by (simp add: to_lower_def)

text \<open>
  \<open>strings.TrimSpace\<close> removes the Unicode white space characters at both ends; each of
  them is one of these UTF-8 byte sequences.
\<close>

definition space_seqs :: "string list" where
  "space_seqs =
     [[CHR 0x09], [CHR 0x0A], [CHR 0x0B], [CHR 0x0C], [CHR 0x0D], [CHR 0x20],
      [CHR 0xC2, CHR 0x85], [CHR 0xC2, CHR 0xA0], [CHR 0xE1, CHR 0x9A, CHR 0x80],
      [CHR 0xE2, CHR 0x80, CHR 0x80], [CHR 0xE2, CHR 0x80, CHR 0x81],
      [CHR 0xE2, CHR 0x80, CHR 0x82], [CHR 0xE2, CHR 0x80, CHR 0x83],
      [CHR 0xE2, CHR 0x80, CHR 0x84], [CHR 0xE2, CHR 0x80, CHR 0x85],
      [CHR 0xE2, CHR 0x80, CHR 0x86], [CHR 0xE2, CHR 0x80, CHR 0x87],
      [CHR 0xE2, CHR 0x80, CHR 0x88], [CHR 0xE2, CHR 0x80, CHR 0x89],
      [CHR 0xE2, CHR 0x80, CHR 0x8A], [CHR 0xE2, CHR 0x80, CHR 0xA8],
      [CHR 0xE2, CHR 0x80, CHR 0xA9], [CHR 0xE2, CHR 0x80, CHR 0xAF],
      [CHR 0xE2, CHR 0x81, CHR 0x9F], [CHR 0xE3, CHR 0x80, CHR 0x80]]"

fun leading_len :: "string list \<Rightarrow> string \<Rightarrow> nat" where
  "leading_len [] s = 0"
| "leading_len (q # qs) s = (if prefix q s then length q else leading_len qs s)"

function trim_leading :: "string list \<Rightarrow> string \<Rightarrow> string" where
  "trim_leading qs s =
     (if leading_len qs s = 0 \<or> s = [] then s else trim_leading qs (drop (leading_len qs s) s))"
  by pat_completeness auto
termination
  by (relation "measure (length \<circ> snd)") auto

declare trim_leading.simps [simp del]

definition trim_space :: "string \<Rightarrow> string" where
  "trim_space s = rev (trim_leading (map rev space_seqs) (rev (trim_leading space_seqs s)))"

lemma trim_leading_suffix: "suffix (trim_leading qs s) s"
proof (induction qs s rule: trim_leading.induct)
  case (1 qs s)
  show ?case
  proof (cases "leading_len qs s = 0 \<or> s = []")
    case True
    then show ?thesis by (simp add: trim_leading.simps [of qs s])
  next
    case False
    with "1.IH" have "suffix (trim_leading qs (drop (leading_len qs s) s))
        (drop (leading_len qs s) s)" by simp
    moreover have "suffix (drop (leading_len qs s) s) s" by (rule suffix_drop)
    ultimately have "suffix (trim_leading qs (drop (leading_len qs s) s)) s"
      by (rule suffix_order.trans)
    with False show ?thesis by (simp add: trim_leading.simps [of qs s])
  qed
qed

lemma trim_space_sublist: "sublist (trim_space s) s"
proof -
  have "sublist (trim_leading (map rev space_seqs) (rev (trim_leading space_seqs s)))
      (rev (trim_leading space_seqs s))"
    by (rule suffix_imp_sublist [OF trim_leading_suffix])
  then have "sublist (trim_space s) (trim_leading space_seqs s)"
    unfolding trim_space_def by (subst sublist_rev [symmetric]) simp
  then show ?thesis
    by (rule sublist_order.order_trans [OF _ suffix_imp_sublist [OF trim_leading_suffix]])
qed

text \<open>\<open>strconv.Itoa\<close> and \<open>%d\<close>.\<close>

function digits :: "nat \<Rightarrow> string" where
  "digits n = (if n < 10 then [char_of (48 + n)] else digits (n div 10) @ [char_of (48 + n mod 10)])"
  by pat_completeness auto
termination
  by (relation "measure id") auto

declare digits.simps [simp del]

definition itoa :: "int \<Rightarrow> string" where
  "itoa n = (if n < 0 then CHR ''-'' # digits (nat (- n)) else digits (nat n))"

section \<open>Lists\<close>

lemma sum_list_update_int:
  "i < length xs \<Longrightarrow> sum_list (xs[i := v]) = sum_list xs - xs ! i + (v :: int)"
  by (induction xs arbitrary: i) (auto split: nat.split)

lemma nth_le_sum_list_int:
  "\<lbrakk> i < length xs; \<And>x. x \<in> set xs \<Longrightarrow> 0 \<le> x \<rbrakk> \<Longrightarrow> xs ! i \<le> sum_list (xs :: int list)"
proof (induction xs arbitrary: i)
  case (Cons a xs)
  have "0 \<le> sum_list xs" using Cons.prems(2) by (simp add: sum_list_nonneg)
  with Cons show ?case by (cases i) (auto simp: add_increasing)
qed simp

section \<open>Environment variables\<close>

type_synonym environment = "string \<Rightarrow> string" \<comment> \<open>\<open>os.Getenv\<close>: empty when not set\<close>

end
