(* ===== verification/Rolling_Window.thy ===== *)
theory Rolling_Window
  imports Koshi_Prelude
begin

text \<open>
  \<^verbatim>\<open>internal/budget/window.go\<close>: the rolling window, a circular buffer with one
  bucket of tokens per second and a cached sum, and the burst allowance beside it.

  The clock is read inside every operation (\<open>nowFunc\<close>), so every operation takes the
  reading as an argument. \<open>advance\<close>, \<open>Add\<close> and \<open>Total\<close> run under the window's mutex,
  and the burst counter is one atomic word: each of them is one atomic step of the
  interleaving model of theory \<open>Tracker_Interleaving\<close>. The compare-and-swap loops of
  \<open>ConsumeBurst\<close> and \<open>ReplenishBurst\<close> are given here as they run without interference
  and in that theory with it.

  The abstract specification is a log of timestamped entries (\<open>window_log\<close>). The window refines
  it as long as no addition drives the cached sum below zero; an addition that does leaves a
  drift between the cached sum and the log (\<open>drifts\<close>).
\<close>

section \<open>The window\<close>

type_synonym bucket = int \<comment> \<open>\<open>struct { tokens int64 }\<close>\<close>

record RollingWindow =
  buckets :: "bucket list"
  numBuckets :: int
  headIdx :: int
  headTime :: gotime
  totalTokens :: int
  burstMax :: int
  burstRemaining :: int

text \<open>
  \<open>make\<close> panics when the length is negative, and when the slice cannot fit into the address
  space: the run time of a 64-bit Linux build refuses more than 2^48 bytes, and a bucket has
  eight. (A length below that for which the machine has no memory ends the process with a
  fatal error instead of a panic; this is not modelled.)
\<close>

definition max_buckets :: int where
  "max_buckets = 35184372088832"

definition NewRollingWindow :: "gotime \<Rightarrow> int \<Rightarrow> int \<Rightarrow> RollingWindow outcome" where
  "NewRollingWindow now windowSeconds burstTokens =
     (if windowSeconds < 0 \<or> max_buckets < windowSeconds then Panics MakeSliceLenOutOfRange
      else Returns
        \<lparr> buckets = replicate (nat windowSeconds) 0,
          numBuckets = windowSeconds,
          headIdx = 0,
          headTime = truncate_second now,
          totalTokens = 0,
          burstMax = burstTokens,
          burstRemaining = burstTokens \<rparr>)"

text \<open>
  One turn of the eviction loop of \<open>advance\<close>. The index is in range whenever the loop
  runs: its body is reached only for \<open>1 \<le> elapsed < numBuckets\<close>.
\<close>

definition evict_one :: "RollingWindow \<Rightarrow> RollingWindow" where
  "evict_one w =
     (let i = (headIdx w + 1) mod numBuckets w in
      w\<lparr> headIdx := i,
         totalTokens := wrap64 (totalTokens w - buckets w ! nat i),
         buckets := (buckets w)[nat i := 0] \<rparr>)"

primrec evict :: "nat \<Rightarrow> RollingWindow \<Rightarrow> RollingWindow" where
  "evict 0 w = w"
| "evict (Suc n) w = evict n (evict_one w)"

definition advance :: "gotime \<Rightarrow> RollingWindow \<Rightarrow> RollingWindow" where
  "advance clock w =
     (let now = truncate_second clock in
      if now < headTime w \<or> now = headTime w then w
      else
        let elapsed = time_Sub now (headTime w) sdiv Second in
        if elapsed \<ge> numBuckets w then
          w\<lparr> buckets := map (\<lambda>_. 0) (buckets w), totalTokens := 0, headIdx := 0,
             headTime := now \<rparr>
        else (evict (nat elapsed) w)\<lparr> headTime := now \<rparr>)"

definition Add :: "gotime \<Rightarrow> int \<Rightarrow> RollingWindow \<Rightarrow> unit outcome \<times> RollingWindow" where
  "Add clock tokens w =
     (let w = advance clock w; i = nat (headIdx w) in
      if \<not> i < length (buckets w) then (Panics IndexOutOfRange, w)
      else
        let w = w\<lparr> buckets := (buckets w)[i := wrap64 (buckets w ! i + tokens)] \<rparr>;
            w = w\<lparr> totalTokens := wrap64 (totalTokens w + tokens) \<rparr>
        in (Returns (), if totalTokens w < 0 then w\<lparr> totalTokens := 0 \<rparr> else w))"

definition Total :: "gotime \<Rightarrow> RollingWindow \<Rightarrow> int \<times> RollingWindow" where
  "Total clock w =
     (let w = advance clock w in
      if totalTokens w < 0 then (0, w) else (totalTokens w, w))"

definition BurstRemaining :: "RollingWindow \<Rightarrow> int" where
  "BurstRemaining w = burstRemaining w"

definition ConsumeBurst :: "int \<Rightarrow> RollingWindow \<Rightarrow> bool \<times> RollingWindow" where
  "ConsumeBurst tokens w =
     (let cur = burstRemaining w in
      if cur < tokens then (False, w)
      else (True, w\<lparr> burstRemaining := wrap64 (cur - tokens) \<rparr>))"

definition ReplenishBurst :: "int \<Rightarrow> RollingWindow \<Rightarrow> RollingWindow" where
  "ReplenishBurst tokens w =
     (let cur = burstRemaining w;
          newVal = wrap64 (cur + tokens);
          newVal = (if newVal > burstMax w then burstMax w else newVal)
      in w\<lparr> burstRemaining := newVal \<rparr>)"

section \<open>Well-formed windows\<close>

text \<open>
  What every operation keeps: the ring has its configured, positive size, the head index
  is inside it, the head time is a whole second, and the burst counter lies between zero
  and its maximum.
\<close>

definition window_ok :: "RollingWindow \<Rightarrow> bool" where
  "window_ok w \<longleftrightarrow>
     0 < numBuckets w \<and> int (length (buckets w)) = numBuckets w \<and>
     0 \<le> headIdx w \<and> headIdx w < numBuckets w \<and> whole_second (headTime w) \<and>
     in64 (totalTokens w) \<and> (\<forall>b \<in> set (buckets w). in64 b)"

definition burst_ok :: "RollingWindow \<Rightarrow> bool" where
  "burst_ok w \<longleftrightarrow> 0 \<le> burstRemaining w \<and> burstRemaining w \<le> burstMax w \<and> in64 (burstMax w)"

lemma NewRollingWindow_ok:
  "0 < s \<Longrightarrow> s \<le> max_buckets \<Longrightarrow> \<exists>w. NewRollingWindow t s b = Returns w \<and> window_ok w \<and> totalTokens w = 0 \<and>
     buckets w = replicate (nat s) 0 \<and> burstMax w = b \<and> burstRemaining w = b"
  by (simp add: NewRollingWindow_def window_ok_def)

lemma head_in_range: "window_ok w \<Longrightarrow> nat (headIdx w) < length (buckets w)"
  by (auto simp: window_ok_def)

lemma next_in_range:
  assumes "window_ok w"
  shows "nat ((headIdx w + 1) mod numBuckets w) < length (buckets w)"
    and "0 \<le> (headIdx w + 1) mod numBuckets w"
    and "(headIdx w + 1) mod numBuckets w < numBuckets w"
proof -
  have n: "0 < numBuckets w" "int (length (buckets w)) = numBuckets w"
    using assms by (auto simp: window_ok_def)
  then show "0 \<le> (headIdx w + 1) mod numBuckets w"
    and "(headIdx w + 1) mod numBuckets w < numBuckets w" by simp_all
  with n show "nat ((headIdx w + 1) mod numBuckets w) < length (buckets w)" by linarith
qed

subsection \<open>Frames\<close>

lemma evict_one_frame [simp, frame_simps]:
  "numBuckets (evict_one w) = numBuckets w" "headTime (evict_one w) = headTime w"
  "burstMax (evict_one w) = burstMax w" "burstRemaining (evict_one w) = burstRemaining w"
  "length (buckets (evict_one w)) = length (buckets w)"
  by (simp_all add: evict_one_def Let_def)

lemma evict_frame [simp, frame_simps]:
  "numBuckets (evict n w) = numBuckets w" "headTime (evict n w) = headTime w"
  "burstMax (evict n w) = burstMax w" "burstRemaining (evict n w) = burstRemaining w"
  "length (buckets (evict n w)) = length (buckets w)"
  by (induction n arbitrary: w) simp_all

lemma advance_frame [simp, frame_simps]:
  "numBuckets (advance t w) = numBuckets w"
  "burstMax (advance t w) = burstMax w" "burstRemaining (advance t w) = burstRemaining w"
  "length (buckets (advance t w)) = length (buckets w)"
  by (simp_all add: advance_def Let_def)

lemma headTime_advance: "headTime (advance t w) = max (headTime w) (truncate_second t)"
  by (simp add: advance_def Let_def max_def)

lemma Add_frame [simp, frame_simps]:
  "numBuckets (snd (Add t k w)) = numBuckets w"
  "burstMax (snd (Add t k w)) = burstMax w"
  "burstRemaining (snd (Add t k w)) = burstRemaining w"
  "length (buckets (snd (Add t k w))) = length (buckets w)"
  by (simp_all add: Add_def Let_def)

lemma Total_frame [simp, frame_simps]: "snd (Total t w) = advance t w"
  by (simp add: Total_def Let_def)

lemma ConsumeBurst_frame [simp, frame_simps]:
  "buckets (snd (ConsumeBurst n w)) = buckets w"
  "numBuckets (snd (ConsumeBurst n w)) = numBuckets w"
  "headIdx (snd (ConsumeBurst n w)) = headIdx w"
  "headTime (snd (ConsumeBurst n w)) = headTime w"
  "totalTokens (snd (ConsumeBurst n w)) = totalTokens w"
  "burstMax (snd (ConsumeBurst n w)) = burstMax w"
  by (simp_all add: ConsumeBurst_def Let_def)

lemma ReplenishBurst_frame [simp, frame_simps]:
  "buckets (ReplenishBurst n w) = buckets w"
  "numBuckets (ReplenishBurst n w) = numBuckets w"
  "headIdx (ReplenishBurst n w) = headIdx w"
  "headTime (ReplenishBurst n w) = headTime w"
  "totalTokens (ReplenishBurst n w) = totalTokens w"
  "burstMax (ReplenishBurst n w) = burstMax w"
  by (simp_all add: ReplenishBurst_def Let_def)

subsection \<open>Preservation\<close>

lemma window_ok_evict_one [inv_intro]: "window_ok w \<Longrightarrow> window_ok (evict_one w)"
  using next_in_range [of w]
  by (auto simp: window_ok_def evict_one_def Let_def dest!: set_update_subset_insert [THEN subsetD])

lemma window_ok_evict [inv_intro]: "window_ok w \<Longrightarrow> window_ok (evict n w)"
  by (induction n arbitrary: w) (auto intro: window_ok_evict_one)

lemma window_ok_headTime [inv_intro]:
  "window_ok w \<Longrightarrow> whole_second t \<Longrightarrow> window_ok (w\<lparr>headTime := t\<rparr>)"
  by (simp add: window_ok_def)

lemma window_ok_advance [inv_intro]: "window_ok w \<Longrightarrow> window_ok (advance t w)"
  using window_ok_evict [of w] window_ok_headTime
  by (auto simp: advance_def Let_def) (auto simp: window_ok_def)

text \<open>The shape of \<open>Add\<close> on a well-formed window: it never panics.\<close>

lemma Add_ok:
  assumes "window_ok w"
  shows "Add t k w = (Returns (),
     let w = advance t w; i = nat (headIdx w) in
       w\<lparr> buckets := (buckets w)[i := wrap64 (buckets w ! i + k)],
          totalTokens := max 0 (wrap64 (totalTokens w + k)) \<rparr>)"
  using head_in_range [OF window_ok_advance [OF assms], of t]
  by (simp add: Add_def Let_def max_def)

lemma window_ok_Add [inv_intro]: "window_ok w \<Longrightarrow> window_ok (snd (Add t k w))"
  using window_ok_advance [of w t]
  by (auto simp: Add_ok Let_def window_ok_def dest!: set_update_subset_insert [THEN subsetD])

lemma window_ok_ConsumeBurst [inv_intro]: "window_ok w \<Longrightarrow> window_ok (snd (ConsumeBurst n w))"
  by (simp add: window_ok_def)

lemma window_ok_ReplenishBurst [inv_intro]: "window_ok w \<Longrightarrow> window_ok (ReplenishBurst n w)"
  by (simp add: window_ok_def)

lemma Total_nonneg [simp]: "0 \<le> fst (Total t w)"
  by (simp add: Total_def Let_def)

lemma fst_Total: "fst (Total t w) = max 0 (totalTokens (advance t w))"
  by (simp add: Total_def Let_def max_def)

lemma totalTokens_Add_nonneg: "window_ok w \<Longrightarrow> 0 \<le> totalTokens (snd (Add t k w))"
  by (simp add: Add_ok Let_def)

subsection \<open>The burst counter\<close>

lemma burst_ok_frame:
  "burstRemaining v = burstRemaining w \<Longrightarrow> burstMax v = burstMax w \<Longrightarrow> burst_ok v = burst_ok w"
  by (simp add: burst_ok_def)

lemma ConsumeBurst_spec:
  assumes "burst_ok w" "0 \<le> n"
  shows "ConsumeBurst n w =
     (if n \<le> burstRemaining w then (True, w\<lparr>burstRemaining := burstRemaining w - n\<rparr>) else (False, w))"
proof -
  have "in64 (burstRemaining w - n)" if "n \<le> burstRemaining w"
    using assms that by (auto simp: burst_ok_def in64_def)
  then show ?thesis by (simp add: ConsumeBurst_def Let_def)
qed

lemma burst_ok_ConsumeBurst [inv_intro]:
  "burst_ok w \<Longrightarrow> 0 \<le> n \<Longrightarrow> burst_ok (snd (ConsumeBurst n w))"
  by (auto simp: ConsumeBurst_spec) (auto simp: burst_ok_def)

lemma ReplenishBurst_spec:
  assumes "burst_ok w" "0 \<le> n" "in64 (burstMax w + n)"
  shows "ReplenishBurst n w = w\<lparr>burstRemaining := min (burstMax w) (burstRemaining w + n)\<rparr>"
proof -
  have "in64 (burstRemaining w + n)"
    using assms by (auto simp: burst_ok_def in64_def)
  then show ?thesis by (simp add: ReplenishBurst_def Let_def min_def)
qed

lemma burst_ok_ReplenishBurst [inv_intro]:
  "\<lbrakk> burst_ok w; 0 \<le> n; in64 (burstMax w + n) \<rbrakk> \<Longrightarrow> burst_ok (ReplenishBurst n w)"
  by (simp add: ReplenishBurst_spec) (auto simp: burst_ok_def)

section \<open>Refinement: the window is a log of timestamped entries\<close>

text \<open>
  The specification keeps every addition with its second. The tokens in the window of \<open>n\<close>
  seconds ending at second \<open>s\<close> are those of the entries less than \<open>n\<close> seconds old.
\<close>

type_synonym window_log = "(int \<times> int) list"

definition log_at :: "int \<Rightarrow> window_log \<Rightarrow> int" where
  "log_at s log = (\<Sum>(u, k) \<leftarrow> log. if u = s then k else 0)"

definition log_total :: "int \<Rightarrow> int \<Rightarrow> window_log \<Rightarrow> int" where
  "log_total n s log = (\<Sum>(u, k) \<leftarrow> log. if s - n < u then k else 0)"

text \<open>The bucket that is \<open>j\<close> seconds older than the head.\<close>

definition aged :: "RollingWindow \<Rightarrow> int \<Rightarrow> int" where
  "aged w j = buckets w ! nat ((headIdx w - j) mod numBuckets w)"

text \<open>
  The representation relation: the head stands for second \<open>s\<close>, no entry is younger, each
  bucket holds the entries of its second, and the cached sum is the sum over the window plus
  a drift \<open>d\<close>. The drift is what a clamp leaves behind; it is zero as long as no addition
  drives the cached sum below zero.
\<close>

definition drifts :: "int \<Rightarrow> RollingWindow \<Rightarrow> int \<Rightarrow> window_log \<Rightarrow> bool" where
  "drifts d w s log \<longleftrightarrow>
     (\<forall>(u, k) \<in> set log. u \<le> s) \<and>
     (\<forall>j. 0 \<le> j \<and> j < numBuckets w \<longrightarrow> aged w j = wrap64 (log_at (s - j) log)) \<and>
     totalTokens w = wrap64 (log_total (numBuckets w) s log + d)"

lemma log_at_append: "log_at s (log @ [(u, k)]) = log_at s log + (if u = s then k else 0)"
  by (simp add: log_at_def)

lemma log_total_append:
  "log_total n s (log @ [(u, k)]) = log_total n s log + (if s - n < u then k else 0)"
  by (simp add: log_total_def)

lemma log_at_beyond: "\<forall>(u, k) \<in> set log. u \<le> s \<Longrightarrow> s < s' \<Longrightarrow> log_at s' log = 0"
  unfolding log_at_def by (induction log) auto

lemma log_total_beyond:
  "\<forall>(u, k) \<in> set log. u \<le> s \<Longrightarrow> n \<le> s' - s \<Longrightarrow> log_total n s' log = 0"
  unfolding log_total_def by (induction log) auto

lemma log_total_mono:
  assumes "\<forall>(u, m) \<in> set log. 0 \<le> m"
  shows "0 \<le> log_total n s log" "log_total n s log \<le> (\<Sum>(u, m) \<leftarrow> log. m)"
  using assms unfolding log_total_def by (induction log) auto

lemma log_total_step: "log_total n (s + 1) log = log_total n s log - log_at (s + 1 - n) log"
proof (induction log)
  case (Cons x log)
  then show ?case by (cases x) (auto simp: log_total_def log_at_def)
qed (simp add: log_total_def log_at_def)

lemma mod_minus_inj:
  assumes "(a - j) mod n = a mod n" "0 \<le> j" "j < (n :: int)"
  shows "j = 0"
proof -
  have "n dvd a - (a - j)" using assms(1) by (metis mod_eq_dvd_iff)
  with assms(2,3) show ?thesis using zdvd_not_zless by force
qed

lemma aged_evict_one:
  assumes "window_ok w" "0 \<le> j" "j < numBuckets w"
  shows "aged (evict_one w) j = (if j = 0 then 0 else aged w (j - 1))"
proof -
  define h where "h = (headIdx w + 1) mod numBuckets w"
  have idx: "(h - j) mod numBuckets w = (headIdx w + 1 - j) mod numBuckets w"
    by (simp add: h_def mod_diff_left_eq)
  have bound: "0 \<le> (h - j) mod numBuckets w" "(h - j) mod numBuckets w < numBuckets w"
    using assms by simp_all
  have len: "int (length (buckets w)) = numBuckets w"
    using assms(1) by (simp add: window_ok_def)
  show ?thesis
  proof (cases "j = 0")
    case True
    then show ?thesis
      using next_in_range [OF assms(1)]
      by (simp add: aged_def evict_one_def Let_def)
  next
    case False
    then have "(h - j) mod numBuckets w \<noteq> h"
      using mod_minus_inj [of "headIdx w + 1" j "numBuckets w"] assms idx by (auto simp: h_def)
    then have "nat ((h - j) mod numBuckets w) \<noteq> nat h"
      using bound next_in_range(2) [OF assms(1)] by (simp add: h_def eq_nat_nat_iff)
    then show ?thesis
      using False idx bound len
      by (simp add: aged_def evict_one_def Let_def h_def [symmetric] diff_diff_eq2)
  qed
qed

lemma drifts_evict_one:
  assumes ok: "window_ok w" and rep: "drifts d w s log"
  shows "drifts d (evict_one w) (s + 1) log"
proof -
  let ?n = "numBuckets w"
  have n: "0 < ?n" using ok by (simp add: window_ok_def)
  have old: "\<forall>(u, k) \<in> set log. u \<le> s" using rep by (simp add: drifts_def)
  have oldest: "buckets w ! nat ((headIdx w + 1) mod ?n) = wrap64 (log_at (s + 1 - ?n) log)"
  proof -
    have "(headIdx w + 1) mod ?n = (headIdx w - (?n - 1)) mod ?n"
      using mod_add_self2 [of "headIdx w + 1 - ?n" ?n] by (simp add: algebra_simps)
    then have "buckets w ! nat ((headIdx w + 1) mod ?n) = aged w (?n - 1)"
      by (simp add: aged_def)
    also have "\<dots> = wrap64 (log_at (s - (?n - 1)) log)"
      using rep n by (simp add: drifts_def)
    finally show ?thesis by (simp add: algebra_simps)
  qed
  have "aged (evict_one w) j = wrap64 (log_at (s + 1 - j) log)" if "0 \<le> j" "j < ?n" for j
    using that rep aged_evict_one [OF ok that] log_at_beyond [OF old, of "s + 1"]
    by (cases "j = 0") (auto simp: drifts_def algebra_simps)
  moreover have "totalTokens (evict_one w) = wrap64 (log_total ?n (s + 1) log + d)"
    using rep oldest
    by (simp add: evict_one_def Let_def drifts_def log_total_step wrap64_diff_wrap64 diff_add_eq)
  moreover have "\<forall>(u, k) \<in> set log. u \<le> s + 1" using old by force
  ultimately show ?thesis by (simp add: drifts_def)
qed

lemma drifts_evict:
  "window_ok w \<Longrightarrow> drifts d w s log \<Longrightarrow> drifts d (evict n w) (s + int n) log"
proof (induction n arbitrary: w s)
  case (Suc n)
  then show ?case
    using drifts_evict_one [OF Suc.prems] window_ok_evict_one [OF Suc.prems(1)]
      Suc.IH [of "evict_one w" "s + 1"] by (simp add: algebra_simps)
qed simp

lemma drifts_headTime [simp]: "drifts d (w\<lparr>headTime := t\<rparr>) s log = drifts d w s log"
  by (simp add: drifts_def aged_def)

text \<open>The drift left after the head moved by \<open>gap\<close> seconds: a whole window resets it.\<close>

definition kept_drift :: "int \<Rightarrow> int \<Rightarrow> int \<Rightarrow> int" where
  "kept_drift n gap d = (if n \<le> gap then 0 else d)"

lemma kept_drift_simps [simp]: "kept_drift n gap 0 = 0" "gap < n \<Longrightarrow> kept_drift n gap d = d"
  by (simp_all add: kept_drift_def)

text \<open>
  A window of at most 9223372036 seconds (about 292 years) cannot be confused by the
  saturation of \<open>Time.Sub\<close>.
\<close>

lemma drifts_advance:
  assumes ok: "window_ok w" and small: "numBuckets w \<le> 9223372036"
    and rep: "drifts d w (sec (headTime w)) log" and s: "s = max (sec (headTime w)) (sec t)"
  shows "drifts (kept_drift (numBuckets w) (s - sec (headTime w)) d) (advance t w) s log"
proof (cases "headTime w < truncate_second t")
  case False
  then have "advance t w = w" "\<not> sec (headTime w) < sec t" "0 < numBuckets w"
    using ok sec_less_iff [of "headTime w" t] by (auto simp: advance_def Let_def window_ok_def)
  with rep s show ?thesis by (simp add: max_def)
next
  case True
  let ?e = "sec t - sec (headTime w)"
  have h: "whole_second (headTime w)" using ok by (simp add: window_ok_def)
  have lt: "sec (headTime w) < sec t" using True h by (simp add: sec_less_iff)
  have el: "time_Sub (truncate_second t) (headTime w) sdiv Second = min 9223372036 ?e"
    by (rule elapsed_seconds [OF h True])
  have old: "\<forall>(u, k) \<in> set log. u \<le> sec (headTime w)" using rep by (simp add: drifts_def)
  show ?thesis
  proof (cases "numBuckets w \<le> ?e")
    case expired: True
    have "log_at (sec t - j) log = 0" if "0 \<le> j" "j < numBuckets w" for j
      by (rule log_at_beyond [OF old]) (use that expired in linarith)
    moreover have "log_total (numBuckets w) (sec t) log = 0"
      by (rule log_total_beyond [OF old expired])
    moreover have "aged (advance t w) j = 0" if "0 \<le> j" "j < numBuckets w" for j
      using ok True el expired small that by (auto simp: advance_def Let_def aged_def window_ok_def
          nat_less_iff)
    moreover have "totalTokens (advance t w) = 0"
      using True el expired small by (simp add: advance_def Let_def)
    ultimately show ?thesis
      using old lt expired s by (fastforce simp: drifts_def max_def kept_drift_def)
  next
    case False
    then have "advance t w = (evict (nat ?e) w)\<lparr>headTime := truncate_second t\<rparr>"
      using True el small by (simp add: advance_def Let_def min_def)
    moreover have "drifts d (evict (nat ?e) w) (sec t) log"
      using drifts_evict [OF ok rep, of "nat ?e"] lt by simp
    ultimately show ?thesis using lt False s by (simp add: max_def)
  qed
qed

lemma aged_Add:
  assumes ok: "window_ok w" and j: "0 \<le> j" "j < numBuckets w"
  shows "aged (snd (Add t k w)) j =
     (if j = 0 then wrap64 (aged (advance t w) 0 + k) else aged (advance t w) j)"
proof -
  let ?v = "advance t w"
  have v: "window_ok ?v" by (rule window_ok_advance [OF ok])
  then have h: "0 \<le> headIdx ?v" "headIdx ?v < numBuckets w"
    and len: "int (length (buckets w)) = numBuckets w"
    using ok by (simp_all add: window_ok_def)
  have "nat ((headIdx ?v - j) mod numBuckets w) \<noteq> nat (headIdx ?v)" if "j \<noteq> 0"
    using that mod_minus_inj [of "headIdx ?v" j "numBuckets w"] h j
    by (auto simp: eq_nat_nat_iff)
  then show ?thesis
    using h len j ok by (auto simp: aged_def Add_ok Let_def nth_list_update nat_less_iff)
qed

text \<open>
  An addition keeps the drift when the cached sum stays non-negative. Otherwise it clamps the
  sum to zero, and the drift becomes what the window lacks to reach zero.
\<close>

lemma drifts_Add:
  assumes ok: "window_ok w" and small: "numBuckets w \<le> 9223372036"
    and rep: "drifts d w (sec (headTime w)) log"
    and s: "s = max (sec (headTime w)) (sec t)"
    and d': "d' = kept_drift (numBuckets w) (s - sec (headTime w)) d"
  shows "drifts (if 0 \<le> wrap64 (log_total (numBuckets w) s (log @ [(s, k)]) + d') then d'
       else - log_total (numBuckets w) s (log @ [(s, k)]))
     (snd (Add t k w)) s (log @ [(s, k)])"
proof -
  let ?v = "advance t w" and ?n = "numBuckets w"
  have v: "drifts d' ?v s log" using drifts_advance [OF ok small rep s] d' by simp
  have n: "0 < ?n" using ok by (simp add: window_ok_def)
  have "aged (snd (Add t k w)) j = wrap64 (log_at (s - j) (log @ [(s, k)]))"
    if j: "0 \<le> j" "j < ?n" for j
    using v n j aged_Add [OF ok j, of t k]
    by (auto simp: drifts_def log_at_append wrap64_add_wrap64)
  moreover have "totalTokens (snd (Add t k w)) = max 0 (wrap64 (log_total ?n s (log @ [(s, k)]) + d'))"
    using v n ok by (simp add: Add_ok Let_def drifts_def log_total_append wrap64_add_wrap64 algebra_simps)
  moreover have "\<forall>(u, k) \<in> set (log @ [(s, k)]). u \<le> s"
    using v by (auto simp: drifts_def)
  ultimately show ?thesis by (simp add: drifts_def)
qed

text \<open>Every well-formed window is represented by its own buckets, with some drift.\<close>

lemma sum_upto_none: "n \<le> j \<Longrightarrow> (\<Sum>i \<leftarrow> [0..<n]. if i = j then f i else (0 :: int)) = 0"
  by (induction n) auto

lemma sum_upto_single:
  "j < n \<Longrightarrow> (\<Sum>i \<leftarrow> [0..<n]. if i = j then f i else (0 :: int)) = f j"
  by (induction n) (auto simp: less_Suc_eq sum_upto_none)

lemma drifts_exists:
  assumes "window_ok w"
  shows "\<exists>d log. drifts d w s log"
proof -
  let ?n = "nat (numBuckets w)"
  let ?log = "map (\<lambda>i. (s - int i, aged w (int i))) [0..<?n]"
  have in_b: "in64 (aged w j)" if "0 \<le> j" "j < numBuckets w" for j
  proof -
    have "nat ((headIdx w - j) mod numBuckets w) < length (buckets w)"
      using assms by (simp add: window_ok_def nat_less_iff)
    then show ?thesis using assms by (simp add: aged_def window_ok_def)
  qed
  have "log_at (s - j) ?log = aged w j" if "0 \<le> j" "j < numBuckets w" for j
    using that sum_upto_single [of "nat j" ?n "\<lambda>i. aged w (int i)"]
    by (simp add: log_at_def comp_def nat_less_iff int_eq_iff cong: if_cong)
  then have "drifts (totalTokens w - log_total (numBuckets w) s ?log) w s ?log"
    using assms in_b by (auto simp: drifts_def window_ok_def)
  then show ?thesis by blast
qed

text \<open>
  Reads and additions at given clock readings, the entries they leave in the log, and the
  condition under which a drift survives them unchanged.
\<close>

type_synonym window_op = "gotime \<times> int option"

definition ops_log :: "window_op list \<Rightarrow> window_log" where
  "ops_log ops = concat (map (\<lambda>(t, a). case a of None \<Rightarrow> [] | Some k \<Rightarrow> [(sec t, k)]) ops)"

lemma ops_log_simps [simp]:
  "ops_log [] = []" "ops_log ((t, None) # ops) = ops_log ops"
  "ops_log ((t, Some k) # ops) = (sec t, k) # ops_log ops"
  by (simp_all add: ops_log_def)

fun steady :: "int \<Rightarrow> int \<Rightarrow> int \<Rightarrow> window_log \<Rightarrow> window_op list \<Rightarrow> bool" where
  "steady n d h log [] = True"
| "steady n d h log ((t, None) # ops) =
     (h \<le> sec t \<and> (d = 0 \<or> sec t - h < n) \<and> steady n d (sec t) log ops)"
| "steady n d h log ((t, Some k) # ops) =
     (h \<le> sec t \<and> (d = 0 \<or> sec t - h < n) \<and>
      0 \<le> wrap64 (log_total n (sec t) (log @ [(sec t, k)]) + d) \<and>
      steady n d (sec t) (log @ [(sec t, k)]) ops)"

fun last_second :: "int \<Rightarrow> window_op list \<Rightarrow> int" where
  "last_second h [] = h"
| "last_second h ((t, a) # ops) = last_second (sec t) ops"

text \<open>
  The contract of a ledger of timestamped amounts over a sliding span of seconds, and what
  a client may conclude from it. The rolling window provides it below.
\<close>

locale window_ledger =
  fixes add :: "gotime \<Rightarrow> int \<Rightarrow> 'w \<Rightarrow> 'w"
    and read :: "gotime \<Rightarrow> 'w \<Rightarrow> 'w"
    and total :: "gotime \<Rightarrow> 'w \<Rightarrow> int"
    and head :: "'w \<Rightarrow> int"
    and span :: "'w \<Rightarrow> int"
    and rep :: "int \<Rightarrow> 'w \<Rightarrow> window_log \<Rightarrow> bool"
  assumes rep_add: "\<lbrakk> rep d w log; s = max (head w) (sec t); d' = kept_drift (span w) (s - head w) d;
       0 \<le> wrap64 (log_total (span w) s (log @ [(s, k)]) + d') \<rbrakk> \<Longrightarrow> rep d' (add t k w) (log @ [(s, k)])"
    and rep_clamp: "\<lbrakk> rep d w log; s = max (head w) (sec t); d' = kept_drift (span w) (s - head w) d;
       wrap64 (log_total (span w) s (log @ [(s, k)]) + d') < 0 \<rbrakk> \<Longrightarrow>
       rep (- log_total (span w) s (log @ [(s, k)])) (add t k w) (log @ [(s, k)])"
    and rep_read: "\<lbrakk> rep d w log; s = max (head w) (sec t) \<rbrakk> \<Longrightarrow>
       rep (kept_drift (span w) (s - head w) d) (read t w) log"
    and head_add: "rep d w log \<Longrightarrow> head (add t k w) = max (head w) (sec t)"
    and head_read: "rep d w log \<Longrightarrow> head (read t w) = max (head w) (sec t)"
    and span_add: "rep d w log \<Longrightarrow> span (add t k w) = span w"
    and span_read: "rep d w log \<Longrightarrow> span (read t w) = span w"
    and total_rep: "\<lbrakk> rep d w log; s = max (head w) (sec t) \<rbrakk> \<Longrightarrow>
       total t w = max 0 (wrap64 (log_total (span w) s log + kept_drift (span w) (s - head w) d))"
begin

lemma rep_steady:
  assumes "rep d w log" "steady (span w) d (head w) log ops"
  shows "let v = fold (\<lambda>(t, a). case a of None \<Rightarrow> read t | Some k \<Rightarrow> add t k) ops w in
     rep d v (log @ ops_log ops) \<and> span v = span w \<and> head v = last_second (head w) ops"
  using assms
proof (induction ops arbitrary: w log)
  case (Cons x ops)
  obtain t a where x: "x = (t, a)" by (cases x)
  show ?case
  proof (cases a)
    case None
    then have st: "head w \<le> sec t" "d = 0 \<or> sec t - head w < span w" "steady (span w) d (sec t) log ops"
      using Cons.prems(2) x by simp_all
    have "rep d (read t w) log"
      using rep_read [OF Cons.prems(1) refl, of t] st(1,2) by (auto simp: max_def)
    then show ?thesis
      using Cons.IH [of "read t w" log] st head_read [OF Cons.prems(1)] span_read [OF Cons.prems(1)]
      by (simp add: x None max_absorb2)
  next
    case (Some k)
    let ?log = "log @ [(sec t, k)]"
    have st: "head w \<le> sec t" "d = 0 \<or> sec t - head w < span w"
      "0 \<le> wrap64 (log_total (span w) (sec t) ?log + d)" "steady (span w) d (sec t) ?log ops"
      using Cons.prems(2) x Some by simp_all
    have "max (head w) (sec t) = sec t" "kept_drift (span w) (sec t - head w) d = d"
      using st(1,2) by auto
    then have "rep d (add t k w) ?log"
      using rep_add [OF Cons.prems(1) refl refl, of t k] st(3) by simp
    then show ?thesis
      using Cons.IH [of "add t k w" ?log] st head_add [OF Cons.prems(1)] span_add [OF Cons.prems(1)]
      by (simp add: x Some max_absorb2)
  qed
qed simp

lemma total_steady:
  assumes "rep d w log" "steady (span w) d (head w) log ops"
    and "last_second (head w) ops \<le> sec t" "d = 0 \<or> sec t - last_second (head w) ops < span w"
  shows "total t (fold (\<lambda>(t, a). case a of None \<Rightarrow> read t | Some k \<Rightarrow> add t k) ops w) =
     max 0 (wrap64 (log_total (span w) (sec t) (log @ ops_log ops) + d))"
proof -
  note r = rep_steady [OF assms(1,2), unfolded Let_def]
  then show ?thesis
    using total_rep [OF conjunct1 [OF r] refl, of t] assms(3,4)
    by (auto simp: max_absorb2)
qed

end

text \<open>The rolling window, with \<open>Add\<close> and \<open>Total\<close>, is such a ledger.\<close>

definition drift_rep :: "int \<Rightarrow> RollingWindow \<Rightarrow> window_log \<Rightarrow> bool" where
  "drift_rep d w log \<longleftrightarrow>
     window_ok w \<and> numBuckets w \<le> 9223372036 \<and> drifts d w (sec (headTime w)) log"

lemma sec_headTime_advance:
  "window_ok w \<Longrightarrow> sec (headTime (advance t w)) = max (sec (headTime w)) (sec t)"
  by (simp add: headTime_advance sec_max) (simp add: window_ok_def sec_max)

lemma sec_headTime_Add:
  "window_ok w \<Longrightarrow> sec (headTime (snd (Add t k w))) = max (sec (headTime w)) (sec t)"
  by (simp add: Add_ok Let_def sec_headTime_advance)

interpretation rw: window_ledger
  "\<lambda>t k w. snd (Add t k w)" "\<lambda>t w. snd (Total t w)" "\<lambda>t w. fst (Total t w)"
  "\<lambda>w. sec (headTime w)" numBuckets drift_rep
proof (unfold_locales, goal_cases)
  case (1 d w log s t d' k)
  then show ?case
    using drifts_Add [of w d log s t d' k]
    by (simp add: drift_rep_def window_ok_Add sec_headTime_Add)
next
  case (2 d w log s t d' k)
  then show ?case
    using drifts_Add [of w d log s t d' k]
    by (simp add: drift_rep_def window_ok_Add sec_headTime_Add)
next
  case (3 d w log s t)
  then show ?case
    using drifts_advance [of w d log s t]
    by (simp add: drift_rep_def window_ok_advance sec_headTime_advance)
next
  case (4 d w log t k)
  then show ?case by (simp add: drift_rep_def sec_headTime_Add)
next
  case (5 d w log t)
  then show ?case by (simp add: drift_rep_def sec_headTime_advance)
next
  case (6 d w log t k)
  then show ?case by simp
next
  case (7 d w log t)
  then show ?case by simp
next
  case (8 d w log s t)
  then show ?case
    using drifts_advance [of w d log s t]
    by (simp add: drift_rep_def fst_Total drifts_def)
qed

lemma drift_rep_new:
  assumes "0 < s" "s \<le> 9223372036" "NewRollingWindow t0 s b = Returns w"
  shows "drift_rep 0 w []" "numBuckets w = s" "sec (headTime w) = sec t0"
proof -
  have "w = \<lparr> buckets = replicate (nat s) 0, numBuckets = s, headIdx = 0,
      headTime = truncate_second t0, totalTokens = 0, burstMax = b, burstRemaining = b \<rparr>"
    using assms(1,2,3) by (simp add: NewRollingWindow_def max_buckets_def)
  then show "drift_rep 0 w []" "numBuckets w = s" "sec (headTime w) = sec t0"
    using assms by (auto simp: drift_rep_def window_ok_def drifts_def aged_def log_at_def
        log_total_def nat_less_iff)
qed

lemma drift_rep_exists:
  "window_ok w \<Longrightarrow> numBuckets w \<le> 9223372036 \<Longrightarrow> \<exists>d log. drift_rep d w log"
  using drifts_exists [of w "sec (headTime w)"] by (auto simp: drift_rep_def)

section \<open>Properties\<close>

text \<open>A history of status reads and additions on one window.\<close>

definition window_run :: "window_op list \<Rightarrow> RollingWindow \<Rightarrow> RollingWindow" where
  "window_run ops w = fold (\<lambda>(t, a). case a of None \<Rightarrow> \<lambda>w. snd (Total t w) | Some k \<Rightarrow> \<lambda>w. snd (Add t k w)) ops w"

lemma window_run_eq:
  "window_run ops w = fold (\<lambda>(t, a). case a of None \<Rightarrow> advance t | Some k \<Rightarrow> \<lambda>w. snd (Add t k w)) ops w"
  by (simp only: window_run_def Total_frame)

text \<open>No addition takes the sliding sum, at its own second, below zero.\<close>

definition never_overdrawn :: "int \<Rightarrow> window_op list \<Rightarrow> bool" where
  "never_overdrawn n ops \<longleftrightarrow> (\<forall>i < length ops. snd (ops ! i) \<noteq> None \<longrightarrow>
     0 \<le> log_total n (sec (fst (ops ! i))) (ops_log (take (Suc i) ops)))"

lemma log_total_abs: "\<bar>log_total n s log\<bar> \<le> (\<Sum>(u, k) \<leftarrow> log. \<bar>k\<bar>)"
  unfolding log_total_def by (induction log) auto

lemma sum_list_abs_nonneg: "0 \<le> (\<Sum>(u, k) \<leftarrow> log. \<bar>k :: int\<bar>)"
  by (induction log) auto

lemma log_total_in64: "(\<Sum>(u, k) \<leftarrow> log. \<bar>k\<bar>) \<le> 9223372036854775807 \<Longrightarrow> in64 (log_total n s log)"
  using log_total_abs [of n s log] unfolding in64_def by arith

lemma steady_never_overdrawn:
  assumes "\<forall>i < length ops. snd (ops ! i) \<noteq> None \<longrightarrow>
      0 \<le> log_total n (sec (fst (ops ! i))) (log @ ops_log (take (Suc i) ops))"
    and "(\<Sum>(u, k) \<leftarrow> log @ ops_log ops. \<bar>k\<bar>) \<le> 9223372036854775807"
    and "sorted (map fst ops)" "\<forall>(t, a) \<in> set ops. h \<le> sec t"
  shows "steady n 0 h log ops"
  using assms
proof (induction ops arbitrary: h log)
  case (Cons x ops)
  obtain t a where x: "x = (t, a)" by (cases x)
  have le: "h \<le> sec t" "\<forall>(u, b) \<in> set ops. sec t \<le> sec u" "sorted (map fst ops)"
    using Cons.prems(3,4) x by (fastforce intro: sec_mono)+
  show ?case
  proof (cases a)
    case None
    have "\<forall>i < length ops. snd (ops ! i) \<noteq> None \<longrightarrow>
        0 \<le> log_total n (sec (fst (ops ! i))) (log @ ops_log (take (Suc i) ops))"
      using Cons.prems(1) x None by (metis Suc_less_eq length_Cons nth_Cons_Suc ops_log_simps(2) take_Suc_Cons)
    then show ?thesis using Cons.IH [of log "sec t"] Cons.prems(2) le x None by simp
  next
    case (Some k)
    let ?log = "log @ [(sec t, k)]"
    have all: "0 \<le> log_total n (sec (fst ((x # ops) ! i))) (log @ ops_log (take (Suc i) (x # ops)))"
      if "i < length (x # ops)" "snd ((x # ops) ! i) \<noteq> None" for i using Cons.prems(1) that by blast
    have "0 \<le> log_total n (sec t) ?log" using all [of 0] x Some by simp
    moreover have "in64 (log_total n (sec t) ?log)"
      using Cons.prems(2) x Some sum_list_abs_nonneg [of "ops_log ops"]
      by (intro log_total_in64) simp
    moreover have "\<forall>i < length ops. snd (ops ! i) \<noteq> None \<longrightarrow>
        0 \<le> log_total n (sec (fst (ops ! i))) (?log @ ops_log (take (Suc i) ops))"
      using all [of "Suc i" for i] x Some by simp
    ultimately show ?thesis using Cons.IH [of ?log "sec t"] Cons.prems(2) le x Some by simp
  qed
qed simp

lemma last_second_le: "h \<le> s \<Longrightarrow> \<forall>(t, a) \<in> set ops. sec t \<le> s \<Longrightarrow> last_second h ops \<le> s"
  by (induction h ops rule: last_second.induct) auto

text \<open>
  C3. The rolling window computes the sliding sum it stands for. Take any history of reads and
  additions, charges and refunds alike, made at non-decreasing clock readings on a fresh window,
  in which no addition takes the sliding sum below zero and whose amounts, taken positively, add
  up to an \<open>int64\<close>. Then \<open>Total\<close> at a later reading returns the amounts of the last
  \<open>windowSeconds\<close> seconds added up, or zero when refunds whose charges have expired make that
  sum negative, however many buckets were evicted or whole windows skipped in between.
\<close>

theorem window_total_is_sliding_sum:
  assumes "NewRollingWindow t0 windowSeconds burst = Returns w"
    and "0 < windowSeconds" "windowSeconds \<le> 9223372036"
    and "sorted (map fst ops)" "\<forall>(u, a) \<in> set ops. t0 \<le> u \<and> u \<le> t" "t0 \<le> t"
    and "never_overdrawn windowSeconds ops"
    and "(\<Sum>(u, k) \<leftarrow> ops_log ops. \<bar>k\<bar>) \<le> 9223372036854775807"
  shows "fst (Total t (window_run ops w)) = max 0 (log_total windowSeconds (sec t) (ops_log ops))"
proof -
  note new = drift_rep_new [OF assms(2,3,1)]
  have "\<forall>(u, a) \<in> set ops. sec t0 \<le> sec u" and le: "\<forall>(u, a) \<in> set ops. sec u \<le> sec t" "sec t0 \<le> sec t"
    using assms(5,6) by (auto intro: sec_mono)
  then have st: "steady windowSeconds 0 (sec t0) [] ops"
    using steady_never_overdrawn [of ops windowSeconds "[]" "sec t0"] assms(4,7,8)
    by (simp add: never_overdrawn_def)
  show ?thesis
    using rw.total_steady [OF new(1), of ops t] st last_second_le [OF le(2,1)] log_total_in64 [OF assms(8)]
    by (simp add: new(2,3) window_run_eq)
qed

theorem window_total_is_sliding_sum_witness:
  "\<exists>w. NewRollingWindow 0 3 0 = Returns w \<and>
     fst (Total (4 * Second) (window_run
       [(Second, Some 10), (2 * Second, Some 20), (2 * Second, Some (- 5)), (3 * Second, None), (4 * Second, Some 5)] w)) = 20"
proof -
  let ?ops = "[(Second, Some 10), (2 * Second, Some 20), (2 * Second, Some (- 5)), (3 * Second, None), (4 * Second, Some 5)]"
  obtain w where w: "NewRollingWindow 0 3 0 = Returns w"
    using NewRollingWindow_ok [of 3 0 0] by (auto simp: max_buckets_def)
  have log: "ops_log ?ops = [(1, 10), (2, 20), (2, - 5), (4, 5)]" "sec (4 * Second) = 4"
    by (simp_all add: sec_def Second_def)
  have "never_overdrawn 3 ?ops"
    by (simp add: never_overdrawn_def log_total_def sec_def Second_def All_less_Suc)
  then have "fst (Total (4 * Second) (window_run ?ops w)) = max 0 (log_total 3 (sec (4 * Second)) (ops_log ?ops))"
    by (intro window_total_is_sliding_sum [OF w]) (simp_all add: Second_def sec_def)
  with w show ?thesis unfolding log by (simp add: log_total_def)
qed

text \<open>
  Refunds can break the refinement. When the charge has left the window and its refund has
  not, the cached sum is negative, the next \<open>Add\<close> clamps it to zero, and the clamped amount
  comes back as soon as the refund leaves the window too.
\<close>

text \<open>Reads and additions that never leave the window idle for \<open>n\<close> seconds.\<close>

primrec busy :: "int \<Rightarrow> int \<Rightarrow> window_op list \<Rightarrow> bool" where
  "busy n h [] = True"
| "busy n h (x # ops) = (h \<le> sec (fst x) \<and> sec (fst x) < h + n \<and> busy n (sec (fst x)) ops)"

definition no_refunds :: "window_op list \<Rightarrow> bool" where
  "no_refunds ops \<longleftrightarrow> list_all (\<lambda>(u, k). 0 \<le> k) (ops_log ops)"

lemma busy_last: "busy n h (ops @ [(t, a)]) \<Longrightarrow>
    last_second h ops \<le> sec t \<and> sec t - last_second h ops < n \<and> h \<le> sec t"
proof (induction ops arbitrary: h)
  case (Cons x ops)
  then have "h \<le> sec (fst x)" "busy n (sec (fst x)) (ops @ [(t, a)])" by simp_all
  with Cons.IH [OF this(2)] show ?case by (cases x) auto
qed simp

lemma steady_drift:
  assumes "busy n h ops" "no_refunds ops"
    and "\<forall>s \<ge> h. - d \<le> log_total n s log" "0 \<le> d"
    and "(\<Sum>(u, k) \<leftarrow> log. max 0 k) + (\<Sum>(u, k) \<leftarrow> ops_log ops. k) + d \<le> 9223372036854775807"
  shows "steady n d h log ops"
  using assms
proof (induction ops arbitrary: h log)
  case (Cons x ops)
  obtain t a where x: "x = (t, a)" by (cases x)
  have b: "h \<le> sec t" "sec t - h < n" "busy n (sec t) ops" using Cons.prems(1) x by simp_all
  show ?case
  proof (cases a)
    case None
    have "\<forall>s \<ge> sec t. - d \<le> log_total n s log" using Cons.prems(3) b(1) by auto
    then show ?thesis using Cons.IH [of "sec t" log] Cons.prems b x None by (simp add: no_refunds_def)
  next
    case (Some k)
    let ?log = "log @ [(sec t, k)]"
    have k: "0 \<le> k" "no_refunds ops" using Cons.prems(2) x Some by (simp_all add: no_refunds_def)
    have low: "- d \<le> log_total n s ?log" if "sec t \<le> s" for s
      using Cons.prems(3) b(1) that k(1) by (simp add: log_total_append) (smt (verit))
    have up: "log_total n s log' \<le> (\<Sum>(u, k) \<leftarrow> log'. max 0 k)" for s log'
      unfolding log_total_def by (induction log') auto
    have rest: "0 \<le> (\<Sum>(u, k) \<leftarrow> ops_log ops. k)"
      using k(2) by (auto simp: no_refunds_def list_all_iff intro!: sum_list_nonneg)
    have sum: "(\<Sum>(u, k) \<leftarrow> ?log. max 0 k) + (\<Sum>(u, k) \<leftarrow> ops_log ops. k) + d \<le> 9223372036854775807"
      using Cons.prems(5) x Some k(1) by simp
    have "0 \<le> wrap64 (log_total n (sec t) ?log + d)"
      using low [of "sec t"] up [of "sec t" ?log] sum rest
      by (subst wrap64_id) (simp_all add: in64_def)
    moreover have "steady n d (sec t) ?log ops"
      by (rule Cons.IH [OF b(3) k(2) _ Cons.prems(4) sum]) (use low in blast)
    ultimately show ?thesis using b x Some by simp
  qed
qed simp

text \<open>
  C39. A refund can leave phantom tokens in the window for as long as the workload stays
  active. On a fresh window of \<open>n\<close> seconds, charge \<open>a\<close> tokens at second \<open>u0\<close>, refund \<open>r\<close> of
  them at second \<open>u1\<close>, and charge \<open>c < r\<close> tokens at a second \<open>u2\<close> at which the first charge
  has left the window and the refund has not. Then after any further reads and charges that
  never leave the window idle for \<open>n\<close> seconds, \<open>Total\<close> reports \<open>r - c\<close> tokens more than the
  window holds: once everything has expired, \<open>r - c\<close> tokens instead of none.
\<close>

theorem refund_leaves_phantom_tokens:
  assumes "NewRollingWindow t0 n burst = Returns w" "0 < n" "n \<le> 9223372036"
    and "sec t0 \<le> sec u0" "sec u0 \<le> sec u1" "sec u1 < sec u0 + n" "sec u0 + n \<le> sec u2" "sec u2 < sec u1 + n"
    and "0 \<le> c" "c < r" "r \<le> a"
    and "busy n (sec u2) (ops @ [(t, None)])" "no_refunds ops"
    and "a + c + r + (\<Sum>(u, k) \<leftarrow> ops_log ops. k) \<le> 9223372036854775807"
  shows "fst (Total t (window_run ([(u0, Some a), (u1, Some (- r)), (u2, Some c)] @ ops) w)) =
     log_total n (sec t) (ops_log ([(u0, Some a), (u1, Some (- r)), (u2, Some c)] @ ops)) + (r - c)"
proof -
  let ?w1 = "snd (Add u1 (- r) (snd (Add u0 a w)))" and ?w2 = "window_run [(u0, Some a), (u1, Some (- r)), (u2, Some c)] w"
  let ?log = "[(sec u0, a), (sec u1, - r), (sec u2, c)]"
  note new = drift_rep_new [OF assms(2,3,1)]
  have rest: "0 \<le> (\<Sum>(u, k) \<leftarrow> ops_log ops. k)"
    using assms(13) by (auto simp: no_refunds_def list_all_iff intro!: sum_list_nonneg)
  have in_a: "in64 a" "in64 (a - r)" "in64 (c - r)" using assms(9-11,14) rest by (simp_all add: in64_def)
  have "steady n 0 (sec t0) [] [(u0, Some a), (u1, Some (- r))]"
    using assms(2,4-11) in_a by (simp add: log_total_def)
  then have w1: "drift_rep 0 ?w1 [(sec u0, a), (sec u1, - r)]" "numBuckets ?w1 = n" "sec (headTime ?w1) = sec u1"
    using rw.rep_steady [OF new(1), of "[(u0, Some a), (u1, Some (- r))]"] new(2,3) by (simp_all add: Let_def)
  have lt: "log_total n (sec u2) ?log = c - r" using assms(2,7,8) by (simp add: log_total_def)
  have "?w2 = snd (Add u2 c ?w1)" by (simp add: window_run_def)
  then have w2: "drift_rep (r - c) ?w2 ?log" "numBuckets ?w2 = n" "sec (headTime ?w2) = sec u2"
    using rw.rep_clamp [OF w1(1) refl refl, of u2 c] rw.head_add [OF w1(1), of u2 c] w1(2,3) lt in_a(3) assms(2,5-10)
    by simp_all
  have low: "- (r - c) \<le> log_total n s ?log" if "sec u2 \<le> s" for s
    using that assms(5-11) by (simp add: log_total_def)
  have st: "steady n (r - c) (sec u2) ?log ops"
  proof (rule steady_drift [OF _ assms(13)])
    show "busy n (sec u2) ops" using assms(12) by (induction ops arbitrary: u2) auto
    show "(\<Sum>(u, k) \<leftarrow> ?log. max 0 k) + (\<Sum>(u, k) \<leftarrow> ops_log ops. k) + (r - c) \<le> 9223372036854775807"
      using assms(9-11,14) by simp
  qed (use low assms(10) in auto)
  note last = busy_last [OF assms(12)]
  have nn: "0 \<le> log_total n s (ops_log ops)" "log_total n s (ops_log ops) \<le> (\<Sum>(u, k) \<leftarrow> ops_log ops. k)" for s
    using log_total_mono [of "ops_log ops"] assms(13) by (simp_all add: no_refunds_def list_all_iff)
  have split: "log_total n (sec t) (?log @ ops_log ops) = log_total n (sec t) ?log + log_total n (sec t) (ops_log ops)"
    by (simp add: log_total_def)
  have "log_total n (sec t) ?log \<le> c" using last assms(5-11) by (simp add: log_total_def)
  then have "0 \<le> log_total n (sec t) (?log @ ops_log ops) + (r - c)"
    "in64 (log_total n (sec t) (?log @ ops_log ops) + (r - c))"
    using low [of "sec t"] last nn [of "sec t"] assms(9-11,14) unfolding split by (simp_all add: in64_def)
  then show ?thesis
    using rw.total_steady [OF w2(1), of ops t] st last w2(2,3) by (simp add: window_run_eq max_absorb2)
qed

theorem refund_leaves_phantom_tokens_witness:
  "\<exists>w. NewRollingWindow 0 3 0 = Returns w \<and>
     fst (Total (9 * Second) (window_run [(0, Some 4096), (Second, Some (- 3996)), (3 * Second, Some 1000),
       (5 * Second, None), (7 * Second, None)] w)) = 2996"
proof -
  let ?ops = "[(5 * Second, None), (7 * Second, None)]"
  obtain w where w: "NewRollingWindow 0 3 0 = Returns w"
    using NewRollingWindow_ok [of 3 0 0] by (auto simp: max_buckets_def)
  have secs: "sec 0 = 0" "sec Second = 1" by (simp_all add: sec_def Second_def)
  show ?thesis
    using refund_leaves_phantom_tokens [OF w, of 0 Second "3 * Second" 1000 3996 4096 ?ops "9 * Second"] w
    by (simp add: secs no_refunds_def log_total_def)
qed

text \<open>
  The way back: a gap of at least a whole window between two readings empties the
  window, whatever it held, drift included: \<open>Total\<close> is zero and every bucket is zero.
\<close>

lemma idle_window_resets:
  assumes "window_ok w" "numBuckets w \<le> 9223372036" "numBuckets w \<le> sec t - sec (headTime w)"
  shows "fst (Total t w) = 0 \<and> set (buckets (snd (Total t w))) = {0} \<and>
     totalTokens (snd (Total t w)) = 0"
proof -
  have h: "whole_second (headTime w)" and n: "0 < numBuckets w" "buckets w \<noteq> []"
    using assms(1) by (auto simp: window_ok_def)
  then have lt: "headTime w < truncate_second t" using assms(3) by (simp add: sec_less_iff)
  then have "numBuckets w \<le> time_Sub (truncate_second t) (headTime w) sdiv Second"
    using elapsed_seconds [OF h lt] assms(2,3) by simp
  then show ?thesis using lt n by (auto simp: fst_Total advance_def Let_def image_constant_conv)
qed

end
