(* ===== verification/Budget_Tracker.thy ===== *)
theory Budget_Tracker
  imports Rolling_Window
begin

text \<open>
  \<^verbatim>\<open>internal/budget/tracker.go\<close>: the in-memory budget tracker, one rolling window
  per registered workload, with reservation, reconciliation and status operations.

  Each operation reads the clock once per window call. Those readings are an argument
  \<open>clk\<close>: \<open>clk i\<close> is the \<open>i\<close>-th reading made during the call. The operations are given
  here as they run without interference; theory \<open>Tracker_Interleaving\<close> splits \<open>Reserve\<close>
  and \<open>Record\<close> into their atomic steps.
\<close>

section \<open>Data\<close>

record UsageReport =
  ur_WorkloadID :: string
  ur_Tokens :: int
  ur_Timestamp :: gotime
  ur_IsEstimate :: bool

record BudgetStatus =
  WindowTokensUsed :: int
  WindowTokensLimit :: int
  bs_BurstRemaining :: int

record BudgetParams =
  bp_WindowSeconds :: int
  bp_LimitTokens :: int
  bp_BurstTokens :: int

record WorkloadStatus =
  ws_LimitTokens :: int
  ws_WindowTokensUsed :: int
  ws_BurstRemaining :: int
  ws_WindowSeconds :: int

datatype tracker_error = ErrUnknownWorkload

record workloadState =
  window :: RollingWindow
  windowSeconds :: int
  limitTokens :: int

record TrackerImpl =
  windows :: "string \<rightharpoonup> workloadState"

type_synonym clock = "nat \<Rightarrow> gotime"

section \<open>Operations\<close>

definition NewTracker :: TrackerImpl where
  "NewTracker = \<lparr> windows = Map.empty \<rparr>"

text \<open>\<open>LoadOrStore\<close>: the first registration of a workload wins.\<close>

definition Register :: "gotime \<Rightarrow> string \<Rightarrow> BudgetParams \<Rightarrow> TrackerImpl \<Rightarrow> unit outcome \<times> TrackerImpl" where
  "Register now workloadID params t =
     (case NewRollingWindow now (bp_WindowSeconds params) (bp_BurstTokens params) of
        Panics p \<Rightarrow> (Panics p, t)
      | Returns w \<Rightarrow>
          let ws = \<lparr> window = w, windowSeconds = bp_WindowSeconds params,
                     limitTokens = bp_LimitTokens params \<rparr> in
          (case windows t workloadID of
             Some _ \<Rightarrow> (Returns (), t)
           | None \<Rightarrow> (Returns (), t\<lparr> windows := (windows t)(workloadID \<mapsto> ws) \<rparr>)))"

definition tracker_get :: "string \<Rightarrow> TrackerImpl \<Rightarrow> tracker_error + workloadState" where
  "tracker_get workloadID t =
     (case windows t workloadID of None \<Rightarrow> Inl ErrUnknownWorkload | Some ws \<Rightarrow> Inr ws)"

text \<open>The pointer stored in the map is updated in place.\<close>

definition put_window :: "string \<Rightarrow> workloadState \<Rightarrow> RollingWindow \<Rightarrow> TrackerImpl \<Rightarrow> TrackerImpl" where
  "put_window workloadID ws w t = t\<lparr> windows := (windows t)(workloadID \<mapsto> ws\<lparr> window := w \<rparr>) \<rparr>"

definition zero_status :: BudgetStatus where
  "zero_status = \<lparr> WindowTokensUsed = 0, WindowTokensLimit = 0, bs_BurstRemaining = 0 \<rparr>"

text \<open>The body of \<open>Reserve\<close> once the workload is found: everything it does to the window.\<close>

definition reserve_window ::
  "clock \<Rightarrow> int \<Rightarrow> int \<Rightarrow> RollingWindow \<Rightarrow> (BudgetStatus \<times> bool) outcome \<times> RollingWindow" where
  "reserve_window clk estimatedTokens limit w =
     (case Add (clk 0) estimatedTokens w of
        (Panics p, w) \<Rightarrow> (Panics p, w)
      | (Returns _, w) \<Rightarrow>
          let (total, w) = Total (clk 1) w;
              burst = BurstRemaining w;
              status = \<lparr> WindowTokensUsed = total, WindowTokensLimit = limit,
                         bs_BurstRemaining = burst \<rparr> in
          if total \<le> limit then (Returns (status, True), w)
          else
            let overage = wrap64 (total - limit);
                (consumed, w) = ConsumeBurst overage w in
            if consumed
            then (Returns (status\<lparr> bs_BurstRemaining := BurstRemaining w \<rparr>, True), w)
            else
              (case Add (clk 2) (wrap64 (- estimatedTokens)) w of
                 (Panics p, w) \<Rightarrow> (Panics p, w)
               | (Returns _, w) \<Rightarrow>
                   let (total, w) = Total (clk 3) w in
                   (Returns (status\<lparr> WindowTokensUsed := total,
                                     bs_BurstRemaining := BurstRemaining w \<rparr>, False), w)))"

definition Reserve ::
  "clock \<Rightarrow> string \<Rightarrow> int \<Rightarrow> TrackerImpl \<Rightarrow>
     (BudgetStatus \<times> bool \<times> tracker_error option) outcome \<times> TrackerImpl" where
  "Reserve clk workloadID estimatedTokens t =
     (case tracker_get workloadID t of
        Inl err \<Rightarrow> (Returns (zero_status, False, Some err), t)
      | Inr ws \<Rightarrow>
          (case reserve_window clk estimatedTokens (limitTokens ws) (window ws) of
             (Panics p, w) \<Rightarrow> (Panics p, put_window workloadID ws w t)
           | (Returns (status, allowed), w) \<Rightarrow>
               (Returns (status, allowed, None), put_window workloadID ws w t)))"

definition record_window :: "clock \<Rightarrow> int \<Rightarrow> int \<Rightarrow> RollingWindow \<Rightarrow> unit outcome \<times> RollingWindow" where
  "record_window clk tokens limit w =
     (case Add (clk 0) tokens w of
        (Panics p, w) \<Rightarrow> (Panics p, w)
      | (Returns _, w) \<Rightarrow>
          let (total, w) = Total (clk 1) w in
          if total < limit
          then let freed = wrap64 (limit - total) in (Returns (), ReplenishBurst freed w)
          else (Returns (), w))"

definition Record :: "clock \<Rightarrow> UsageReport \<Rightarrow> TrackerImpl \<Rightarrow> unit outcome \<times> TrackerImpl" where
  "Record clk report t =
     (case windows t (ur_WorkloadID report) of
        None \<Rightarrow> (Returns (), t)
      | Some ws \<Rightarrow>
          (case record_window clk (ur_Tokens report) (limitTokens ws) (window ws) of
             (r, w) \<Rightarrow> (r, put_window (ur_WorkloadID report) ws w t)))"

text \<open>
  \<open>StatusAll\<close> visits the workloads in no particular order and reads the clock once for
  each: \<open>clk k\<close> is the reading made for key \<open>k\<close>. Reading a total advances its window.
\<close>

definition StatusAll :: "(string \<Rightarrow> gotime) \<Rightarrow> TrackerImpl \<Rightarrow> (string \<rightharpoonup> WorkloadStatus) \<times> TrackerImpl" where
  "StatusAll clk t =
     ((\<lambda>k. case windows t k of
              None \<Rightarrow> None
            | Some ws \<Rightarrow> Some \<lparr> ws_LimitTokens = limitTokens ws,
                ws_WindowTokensUsed = fst (Total (clk k) (window ws)),
                ws_BurstRemaining = BurstRemaining (window ws),
                ws_WindowSeconds = windowSeconds ws \<rparr>),
      t\<lparr> windows := (\<lambda>k. case windows t k of
              None \<Rightarrow> None
            | Some ws \<Rightarrow> Some (ws\<lparr> window := snd (Total (clk k) (window ws)) \<rparr>)) \<rparr>)"

definition Status :: "gotime \<Rightarrow> string \<Rightarrow> TrackerImpl \<Rightarrow> (tracker_error + BudgetStatus) \<times> TrackerImpl" where
  "Status now workloadID t =
     (case windows t workloadID of
        None \<Rightarrow> (Inl ErrUnknownWorkload, t)
      | Some ws \<Rightarrow>
          let (total, w) = Total now (window ws) in
          (Inr \<lparr> WindowTokensUsed = total, WindowTokensLimit = limitTokens ws,
                 bs_BurstRemaining = BurstRemaining w \<rparr>,
           put_window workloadID ws w t))"

section \<open>The reservation on one window\<close>

lemma advance_same [simp]: "truncate_second t \<le> headTime w \<Longrightarrow> advance t w = w"
  by (auto simp: advance_def Let_def)

lemma advance_idem [simp]: "advance t (advance t w) = advance t w"
  by (simp add: headTime_advance)

lemma advance_cong_sec: "sec t = sec u \<Longrightarrow> advance t = advance u"
  by (simp add: fun_eq_iff advance_def truncate_second_eq)

lemma headTime_Add: "headTime (snd (Add t k w)) = headTime (advance t w)"
  by (simp add: Add_def Let_def)

text \<open>A window after \<open>est\<close> tokens have been added to its head bucket.\<close>

definition charge :: "int \<Rightarrow> RollingWindow \<Rightarrow> RollingWindow" where
  "charge est w = w\<lparr> buckets := (buckets w)[nat (headIdx w) := wrap64 (buckets w ! nat (headIdx w) + est)],
     totalTokens := max 0 (wrap64 (totalTokens w + est)) \<rparr>"

lemma Add_charge: "window_ok w \<Longrightarrow> Add t k w = (Returns (), charge k (advance t w))"
  by (simp add: Add_ok charge_def Let_def)

lemma charge_frame [simp, frame_simps]:
  "numBuckets (charge k w) = numBuckets w" "headIdx (charge k w) = headIdx w"
  "headTime (charge k w) = headTime w" "burstMax (charge k w) = burstMax w"
  "burstRemaining (charge k w) = burstRemaining w"
  "length (buckets (charge k w)) = length (buckets w)"
  "totalTokens (charge k w) = max 0 (wrap64 (totalTokens w + k))"
  by (simp_all add: charge_def)

lemma window_ok_charge [inv_intro]: "window_ok w \<Longrightarrow> window_ok (charge k w)"
  using window_ok_Add [of w "headTime w" k] Add_charge [of w "headTime w" k]
  by (simp add: truncate_second_eq window_ok_def whole_second_eq [symmetric])

text \<open>Undoing a charge restores the window exactly when the sum does not go below zero.\<close>

lemma charge_undo:
  assumes "window_ok w" "0 \<le> totalTokens w" "0 \<le> est" "in64 (totalTokens w + est)"
  shows "charge (wrap64 (- est)) (charge est w) = w"
proof -
  let ?i = "nat (headIdx w)"
  have i: "?i < length (buckets w)" by (rule head_in_range [OF assms(1)])
  then have "in64 (buckets w ! ?i)" using assms(1) by (auto simp: window_ok_def)
  then have "wrap64 (wrap64 (buckets w ! ?i + est) + wrap64 (- est)) = buckets w ! ?i"
    by (simp add: go_arith)
  moreover have "in64 est" "in64 (- est)" "in64 (totalTokens w)"
    using assms(2-4) by (auto simp: in64_def)
  then have "max 0 (wrap64 (max 0 (wrap64 (totalTokens w + est)) + wrap64 (- est))) = totalTokens w"
    using assms by simp
  ultimately show ?thesis using i by (simp add: charge_def)
qed

lemma Total_eq: "Total t w = (max 0 (totalTokens (advance t w)), advance t w)"
  by (simp add: Total_def Let_def max_def)

lemma burst_ok_advance [simp]: "burst_ok (advance t w) = burst_ok w"
  by (simp add: burst_ok_def)

lemma burst_ok_charge [simp]: "burst_ok (charge k w) = burst_ok w"
  by (simp add: burst_ok_def)

text \<open>
  What \<open>reserve_window\<close> does for arbitrary amounts and arbitrary clock readings on a
  well-formed window: it returns, and it takes one of three branches.
\<close>

definition charged :: "clock \<Rightarrow> int \<Rightarrow> RollingWindow \<Rightarrow> RollingWindow" where
  "charged clk est w = advance (clk 1) (charge est (advance (clk 0) w))"

lemma charged_frame [simp, frame_simps]:
  "numBuckets (charged clk k w) = numBuckets w" "burstMax (charged clk k w) = burstMax w"
  "burstRemaining (charged clk k w) = burstRemaining w"
  "burst_ok (charged clk k w) = burst_ok w"
  by (simp_all add: charged_def)

lemma window_ok_charged [inv_intro]: "window_ok w \<Longrightarrow> window_ok (charged clk k w)"
  by (simp add: charged_def inv_intro)

lemma reserve_window_eq:
  fixes clk :: clock and est :: int
  assumes ok: "window_ok w" and bok: "burst_ok w" and lim: "0 \<le> limit" "in64 limit"
  defines "c \<equiv> charged clk est w"
  defines "T \<equiv> max 0 (totalTokens c)"
  shows "reserve_window clk est limit w =
     (if T \<le> limit then
        (Returns (\<lparr> WindowTokensUsed = T, WindowTokensLimit = limit,
           bs_BurstRemaining = burstRemaining w \<rparr>, True), c)
      else if T - limit \<le> burstRemaining w then
        (Returns (\<lparr> WindowTokensUsed = T, WindowTokensLimit = limit,
           bs_BurstRemaining = burstRemaining w - (T - limit) \<rparr>, True),
         c\<lparr> burstRemaining := burstRemaining w - (T - limit) \<rparr>)
      else
        let e = advance (clk 3) (charge (wrap64 (- est)) (advance (clk 2) c)) in
        (Returns (\<lparr> WindowTokensUsed = max 0 (totalTokens e), WindowTokensLimit = limit,
           bs_BurstRemaining = burstRemaining w \<rparr>, False), e))"
proof -
  have c: "window_ok c" "burst_ok c" using ok bok by (simp_all add: c_def inv_intro)
  have add: "Add (clk 0) est w = (Returns (), charge est (advance (clk 0) w))"
    by (rule Add_charge [OF ok])
  have tot: "Total (clk 1) (charge est (advance (clk 0) w)) = (T, c)"
    by (simp add: Total_eq T_def c_def charged_def)
  show ?thesis
  proof (cases "T \<le> limit")
    case True
    then show ?thesis
      unfolding reserve_window_def add by (simp del: One_nat_def add: tot Let_def BurstRemaining_def c_def)
  next
    case False
    then have "in64 (T - limit)" "0 \<le> T - limit"
      using lim c(1) by (auto simp: T_def window_ok_def in64_def max_def split: if_splits)
    then have burst: "ConsumeBurst (wrap64 (T - limit)) c =
        (if T - limit \<le> burstRemaining w
         then (True, c\<lparr>burstRemaining := burstRemaining w - (T - limit)\<rparr>) else (False, c))"
      using ConsumeBurst_spec [OF c(2), of "T - limit"] by (simp add: c_def)
    have br: "burstRemaining c = burstRemaining w" by (simp add: c_def)
    show ?thesis
      unfolding reserve_window_def add
      by (simp del: One_nat_def add: False tot burst br Let_def BurstRemaining_def
          Add_charge [OF c(1)] Total_eq [of "clk 3"])
  qed
qed

text \<open>
  The functional specification of \<open>reserve_window\<close> when the whole call falls into one
  second and nothing overflows: the sum after expiry decides, and a denied reservation
  leaves no trace.
\<close>

definition same_second :: "clock \<Rightarrow> gotime \<Rightarrow> bool" where
  "same_second clk t \<longleftrightarrow> (\<forall>i. sec (clk i) = sec t)"

lemma reserve_window_spec:
  assumes ok: "window_ok w" and bok: "burst_ok w" and clk: "same_second clk t"
    and T: "0 \<le> totalTokens (advance t w)" and est: "0 \<le> est"
    and fits: "in64 (totalTokens (advance t w) + est)" and lim: "0 \<le> limit" "in64 limit"
  shows "reserve_window clk est limit w =
    (let v = advance t w; T = totalTokens v; B = burstRemaining w in
     if T + est \<le> limit then
       (Returns (\<lparr> WindowTokensUsed = T + est, WindowTokensLimit = limit,
                   bs_BurstRemaining = B \<rparr>, True), charge est v)
     else if T + est - limit \<le> B then
       (Returns (\<lparr> WindowTokensUsed = T + est, WindowTokensLimit = limit,
                   bs_BurstRemaining = B - (T + est - limit) \<rparr>, True),
        (charge est v)\<lparr> burstRemaining := B - (T + est - limit) \<rparr>)
     else
       (Returns (\<lparr> WindowTokensUsed = T, WindowTokensLimit = limit,
                   bs_BurstRemaining = B \<rparr>, False), v))"
proof -
  let ?v = "advance t w"
  have adv: "advance (clk i) = advance t" for i
    using clk by (auto simp: same_second_def intro: advance_cong_sec)
  have still: "advance t (charge k ?v) = charge k ?v" for k
    by (rule advance_same) (simp add: headTime_advance)
  have c: "charged clk est w = charge est ?v" by (simp add: charged_def adv still)
  have "totalTokens (charge est ?v) = totalTokens ?v + est" using T est fits by simp
  moreover have "charge (wrap64 (- est)) (charge est ?v) = ?v"
    by (rule charge_undo [OF window_ok_advance [OF ok] T est fits])
  ultimately show ?thesis
    using reserve_window_eq [OF ok bok lim, of clk est] T est by (simp add: c adv still Let_def)
qed

section \<open>Invariants of the tracker\<close>

text \<open>
  A workload state is sound when its window is well formed and as long as configured, its
  burst counter lies between zero and its maximum, and its limit and burst allowance are
  non-negative and fit together into 64 bits. None of this depends on the token amounts
  passed to the operations or on the clock.
\<close>

definition workload_ok :: "workloadState \<Rightarrow> bool" where
  "workload_ok ws \<longleftrightarrow> window_ok (window ws) \<and> burst_ok (window ws) \<and>
     numBuckets (window ws) = windowSeconds ws \<and> 0 \<le> limitTokens ws \<and>
     in64 (limitTokens ws + burstMax (window ws))"

definition tracker_ok :: "TrackerImpl \<Rightarrow> bool" where
  "tracker_ok t \<longleftrightarrow> (\<forall>k ws. windows t k = Some ws \<longrightarrow> workload_ok ws)"

definition params_ok :: "BudgetParams \<Rightarrow> bool" where
  "params_ok p \<longleftrightarrow> 0 < bp_WindowSeconds p \<and> bp_WindowSeconds p \<le> max_buckets \<and>
     0 < bp_LimitTokens p \<and> 0 \<le> bp_BurstTokens p \<and>
     in64 (bp_LimitTokens p + bp_BurstTokens p)"

lemma tracker_ok_new [simp]: "tracker_ok NewTracker"
  by (simp add: tracker_ok_def NewTracker_def)

lemma tracker_okD: "tracker_ok t \<Longrightarrow> windows t k = Some ws \<Longrightarrow> workload_ok ws"
  by (simp add: tracker_ok_def)

lemma tracker_ok_put [inv_intro]:
  "tracker_ok t \<Longrightarrow> workload_ok (ws\<lparr>window := w\<rparr>) \<Longrightarrow> tracker_ok (put_window k ws w t)"
  by (simp add: tracker_ok_def put_window_def)

lemma workload_ok_window:
  "\<lbrakk> workload_ok ws; window_ok w; burst_ok w; numBuckets w = numBuckets (window ws);
     burstMax w = burstMax (window ws) \<rbrakk> \<Longrightarrow> workload_ok (ws\<lparr>window := w\<rparr>)"
  by (simp add: workload_ok_def)

lemma reserve_window_inv:
  assumes ok: "window_ok w" and bok: "burst_ok w" and lim: "0 \<le> limit" "in64 limit"
  shows "returned (fst (reserve_window clk est limit w))"
    and "window_ok (snd (reserve_window clk est limit w))"
    and "burst_ok (snd (reserve_window clk est limit w))"
    and "numBuckets (snd (reserve_window clk est limit w)) = numBuckets w"
    and "burstMax (snd (reserve_window clk est limit w)) = burstMax w"
proof -
  have c: "window_ok (charged clk est w)" "burst_ok (charged clk est w)"
    using ok bok by (simp_all add: inv_intro)
  have ok_burst: "window_ok ((charged clk est w)\<lparr>burstRemaining := b\<rparr>)" for b
    using c(1) by (simp add: window_ok_def)
  have burst: "burst_ok ((charged clk est w)\<lparr>burstRemaining := burstRemaining w - n\<rparr>)"
    if "n \<le> burstRemaining w" "0 \<le> n" for n
    using that bok by (simp add: burst_ok_def)
  note eq = reserve_window_eq [OF ok bok lim, of clk est]
  show "returned (fst (reserve_window clk est limit w))"
    and "window_ok (snd (reserve_window clk est limit w))"
    and "numBuckets (snd (reserve_window clk est limit w)) = numBuckets w"
    and "burstMax (snd (reserve_window clk est limit w)) = burstMax w"
    using c ok_burst by (simp_all add: eq Let_def inv_intro)
  show "burst_ok (snd (reserve_window clk est limit w))"
    using c burst bok by (auto simp: eq Let_def)
qed

lemma record_window_eq:
  assumes "window_ok w"
  shows "record_window clk k limit w = (Returns (),
     let c = charged clk k w; T = max 0 (totalTokens c) in
     if T < limit then ReplenishBurst (wrap64 (limit - T)) c else c)"
  using assms
  by (simp del: One_nat_def add: record_window_def Add_charge Total_eq Let_def charged_def)

lemma record_window_inv:
  assumes ok: "window_ok w" and bok: "burst_ok w" and lim: "0 \<le> limit" "in64 (limit + burstMax w)"
  shows "returned (fst (record_window clk k limit w))"
    and "window_ok (snd (record_window clk k limit w))"
    and "burst_ok (snd (record_window clk k limit w))"
    and "numBuckets (snd (record_window clk k limit w)) = numBuckets w"
    and "burstMax (snd (record_window clk k limit w)) = burstMax w"
proof -
  let ?c = "charged clk k w" and ?T = "max 0 (totalTokens (charged clk k w))"
  have c: "window_ok ?c" "burst_ok ?c" using ok bok by (simp_all add: inv_intro)
  have burst: "burst_ok (ReplenishBurst (wrap64 (limit - ?T)) ?c)" if "?T < limit"
  proof -
    have "0 \<le> limit - ?T" "0 \<le> burstMax w" using that bok by (simp_all add: burst_ok_def)
    moreover from this have "in64 (limit - ?T)" "in64 (burstMax w + (limit - ?T))"
      using lim by (auto simp: in64_def max_def)
    ultimately show ?thesis using burst_ok_ReplenishBurst [OF c(2), of "limit - ?T"] by simp
  qed
  note eq = record_window_eq [OF ok, of clk k limit]
  show "returned (fst (record_window clk k limit w))"
    and "window_ok (snd (record_window clk k limit w))"
    and "numBuckets (snd (record_window clk k limit w)) = numBuckets w"
    and "burstMax (snd (record_window clk k limit w)) = burstMax w"
    using c by (simp_all add: eq Let_def inv_intro)
  show "burst_ok (snd (record_window clk k limit w))"
    using c burst by (simp add: eq Let_def)
qed

lemma put_window_apply [simp]:
  "windows (put_window k ws w t) j = (if j = k then Some (ws\<lparr>window := w\<rparr>) else windows t j)"
  by (simp add: put_window_def)

lemma workload_okD:
  assumes "workload_ok ws"
  shows "window_ok (window ws)" "burst_ok (window ws)" "0 \<le> limitTokens ws" "in64 (limitTokens ws)"
    "in64 (limitTokens ws + burstMax (window ws))"
  using assms by (auto simp: workload_ok_def burst_ok_def in64_def)

text \<open>The state a first registration stores.\<close>

definition fresh_state :: "gotime \<Rightarrow> BudgetParams \<Rightarrow> workloadState" where
  "fresh_state now p =
     \<lparr> window = \<lparr> buckets = replicate (nat (bp_WindowSeconds p)) 0,
          numBuckets = bp_WindowSeconds p, headIdx = 0, headTime = truncate_second now,
          totalTokens = 0, burstMax = bp_BurstTokens p, burstRemaining = bp_BurstTokens p \<rparr>,
       windowSeconds = bp_WindowSeconds p, limitTokens = bp_LimitTokens p \<rparr>"

lemma Register_ok:
  "params_ok p \<Longrightarrow> Register now k p t = (Returns (),
     if windows t k = None then t\<lparr> windows := (windows t)(k \<mapsto> fresh_state now p) \<rparr> else t)"
  by (auto simp: Register_def NewRollingWindow_def params_ok_def fresh_state_def split: option.split)

lemma Register_returns [simp]: "params_ok p \<Longrightarrow> fst (Register now k p t) = Returns ()"
  by (simp add: Register_ok)

lemma workload_ok_fresh: "params_ok p \<Longrightarrow> workload_ok (fresh_state now p)"
  by (auto simp: params_ok_def workload_ok_def fresh_state_def window_ok_def burst_ok_def in64_def)

lemma Register_tracker_ok [inv_intro]:
  "tracker_ok t \<Longrightarrow> params_ok p \<Longrightarrow> tracker_ok (snd (Register now k p t))"
  by (simp add: Register_ok tracker_ok_def workload_ok_fresh)

lemma Reserve_found:
  assumes "tracker_ok t" "windows t k = Some ws"
  shows "\<exists>st a. reserve_window clk n (limitTokens ws) (window ws) =
       (Returns (st, a), snd (reserve_window clk n (limitTokens ws) (window ws))) \<and>
     Reserve clk k n t = (Returns (st, a, None),
       put_window k ws (snd (reserve_window clk n (limitTokens ws) (window ws))) t)"
proof -
  note ws = workload_okD [OF tracker_okD [OF assms]]
  obtain st a where "fst (reserve_window clk n (limitTokens ws) (window ws)) = Returns (st, a)"
    using reserve_window_inv(1) [OF ws(1-4), of clk n]
    by (cases "fst (reserve_window clk n (limitTokens ws) (window ws))") auto
  then show ?thesis
    using assms(2) by (cases "reserve_window clk n (limitTokens ws) (window ws)")
      (simp add: Reserve_def tracker_get_def)
qed

lemma Reserve_unknown:
  "windows t k = None \<Longrightarrow> Reserve clk k n t = (Returns (zero_status, False, Some ErrUnknownWorkload), t)"
  by (simp add: Reserve_def tracker_get_def)

lemma Reserve_tracker_ok [inv_intro]: "tracker_ok t \<Longrightarrow> tracker_ok (snd (Reserve clk k n t))"
proof (cases "windows t k")
  case (Some ws)
  assume t: "tracker_ok t"
  note ws = tracker_okD [OF t Some]
  have "tracker_ok (put_window k ws (snd (reserve_window clk n (limitTokens ws) (window ws))) t)"
    using reserve_window_inv [OF workload_okD(1-4) [OF ws]]
    by (intro tracker_ok_put workload_ok_window t ws)
  then show ?thesis using Reserve_found [OF t Some, of clk n] by auto
qed (simp add: Reserve_unknown)

lemma Record_tracker_ok [inv_intro]: "tracker_ok t \<Longrightarrow> tracker_ok (snd (Record clk r t))"
proof (cases "windows t (ur_WorkloadID r)")
  case (Some ws)
  assume t: "tracker_ok t"
  note ws = tracker_okD [OF t Some]
  show ?thesis
    using Some record_window_inv [OF workload_okD(1,2,3,5) [OF ws], of clk "ur_Tokens r"]
    by (auto simp: Record_def split_beta intro!: tracker_ok_put workload_ok_window t ws)
qed (simp add: Record_def)

lemma Status_tracker_ok [inv_intro]: "tracker_ok t \<Longrightarrow> tracker_ok (snd (Status now k t))"
  by (auto simp: Status_def Total_eq Let_def workload_okD inv_intro
      intro!: tracker_ok_put workload_ok_window dest: tracker_okD split: option.split)

lemma StatusAll_tracker_ok [inv_intro]: "tracker_ok t \<Longrightarrow> tracker_ok (snd (StatusAll clk t))"
  by (auto simp: StatusAll_def tracker_ok_def workload_okD inv_intro
      intro!: workload_ok_window split: option.splits)

lemma tracker_frame [simp, frame_simps]:
  "j \<noteq> k \<Longrightarrow> windows (snd (Reserve clk k n t)) j = windows t j"
  "j \<noteq> ur_WorkloadID r \<Longrightarrow> windows (snd (Record clk r t)) j = windows t j"
  "j \<noteq> k \<Longrightarrow> windows (snd (Register now k p t)) j = windows t j"
  "j \<noteq> k \<Longrightarrow> windows (snd (Status now k t)) j = windows t j"
  by (simp_all add: Reserve_def Record_def Register_def Status_def Total_eq tracker_get_def split_beta
      Let_def split: option.split sum.split outcome.split prod.split)

lemma dom_Reserve [simp, frame_simps]: "dom (windows (snd (Reserve clk k n t))) = dom (windows t)"
  by (auto simp: Reserve_def tracker_get_def put_window_def
      split: option.splits sum.splits outcome.splits prod.splits)

lemma dom_Record [simp, frame_simps]: "dom (windows (snd (Record clk r t))) = dom (windows t)"
  by (auto simp: Record_def put_window_def split: option.splits prod.splits)

section \<open>The tracker interface\<close>

text \<open>
  The contract of the \<open>Tracker\<close> interface as the request handler uses it: a call on a
  sound tracker returns, keeps the tracker sound and never changes which workloads are
  registered; a reservation for a workload that is not registered is refused with
  \<open>ErrUnknownWorkload\<close> and has no effect; one for a registered workload reports a
  non-negative usage.
\<close>

datatype tracker_call = CallReserve clock string int | CallRecord clock UsageReport

locale budget_tracker =
  fixes reserve :: "clock \<Rightarrow> string \<Rightarrow> int \<Rightarrow> 't \<Rightarrow>
      (BudgetStatus \<times> bool \<times> tracker_error option) outcome \<times> 't"
    and record_usage :: "clock \<Rightarrow> UsageReport \<Rightarrow> 't \<Rightarrow> unit outcome \<times> 't"
    and registered :: "'t \<Rightarrow> string set"
    and sound :: "'t \<Rightarrow> bool"
  assumes reserve_sound: "sound t \<Longrightarrow> sound (snd (reserve clk k n t))"
    and record_sound: "sound t \<Longrightarrow> sound (snd (record_usage clk r t))"
    and record_returns: "sound t \<Longrightarrow> fst (record_usage clk r t) = Returns ()"
    and reserve_registered: "registered (snd (reserve clk k n t)) = registered t"
    and record_registered: "registered (snd (record_usage clk r t)) = registered t"
    and reserve_unknown: "k \<notin> registered t \<Longrightarrow>
      reserve clk k n t = (Returns (zero_status, False, Some ErrUnknownWorkload), t)"
    and reserve_known: "\<lbrakk> sound t; k \<in> registered t \<rbrakk> \<Longrightarrow>
      \<exists>st a. fst (reserve clk k n t) = Returns (st, a, None) \<and> 0 \<le> WindowTokensUsed st"
begin

lemma reserve_returns: "sound t \<Longrightarrow> returned (fst (reserve clk k n t))"
  using reserve_known [of t k clk n] reserve_unknown [of k t clk n]
  by (cases "k \<in> registered t") auto

lemma calls_sound:
  "sound t \<Longrightarrow> sound (fold (\<lambda>c t. case c of
       CallReserve clk k n \<Rightarrow> snd (reserve clk k n t)
     | CallRecord clk r \<Rightarrow> snd (record_usage clk r t)) calls t)"
  by (induction calls arbitrary: t) (auto simp: reserve_sound record_sound split: tracker_call.split)

lemma calls_registered:
  "registered (fold (\<lambda>c t. case c of
       CallReserve clk k n \<Rightarrow> snd (reserve clk k n t)
     | CallRecord clk r \<Rightarrow> snd (record_usage clk r t)) calls t) = registered t"
  by (induction calls arbitrary: t)
    (auto simp: reserve_registered record_registered split: tracker_call.split)

end

interpretation impl: budget_tracker Reserve Record "\<lambda>t. dom (windows t)" tracker_ok
proof (unfold_locales, goal_cases)
  case (1 t clk k n)
  then show ?case by (rule Reserve_tracker_ok)
next
  case (2 t clk r)
  then show ?case by (rule Record_tracker_ok)
next
  case (3 t clk r)
  then show ?case
    by (auto simp: Record_def record_window_eq workload_okD dest: tracker_okD split: option.split)
next
  case (6 k t clk n)
  then show ?case by (simp add: Reserve_unknown domIff)
next
  case (7 t k clk n)
  then obtain ws where ws: "windows t k = Some ws" by auto
  note w = workload_okD [OF tracker_okD [OF 7(1) ws]]
  show ?case
    using Reserve_found [OF 7(1) ws, of clk n] reserve_window_eq [OF w(1-4), of clk n]
    by (auto simp: Let_def split: if_splits)
qed simp_all

section \<open>Reservations alone: the sum is exact and bounded\<close>

definition ledger_ok :: "int \<Rightarrow> RollingWindow \<Rightarrow> bool" where
  "ledger_ok limit w \<longleftrightarrow> window_ok w \<and> burst_ok w \<and> (\<forall>b \<in> set (buckets w). 0 \<le> b) \<and>
     totalTokens w = sum_list (buckets w) \<and> totalTokens w \<le> limit + burstMax w"

lemma ledger_ok_total: "ledger_ok limit w \<Longrightarrow> 0 \<le> totalTokens w"
  by (simp add: ledger_ok_def sum_list_nonneg)

lemma ledger_ok_evict_one:
  assumes "ledger_ok limit w"
  shows "ledger_ok limit (evict_one w)"
proof -
  let ?i = "nat ((headIdx w + 1) mod numBuckets w)"
  have w: "window_ok w" "\<forall>b \<in> set (buckets w). 0 \<le> b" "totalTokens w = sum_list (buckets w)"
    using assms by (simp_all add: ledger_ok_def)
  have i: "?i < length (buckets w)" by (rule next_in_range(1) [OF w(1)])
  have b: "0 \<le> buckets w ! ?i" "buckets w ! ?i \<le> totalTokens w"
    using w(2,3) i nth_le_sum_list_int [OF i] by simp_all
  then have "in64 (totalTokens w - buckets w ! ?i)" "totalTokens w - buckets w ! ?i \<le> limit + burstMax w"
    using assms w(1) by (auto simp: ledger_ok_def window_ok_def in64_def)
  then show ?thesis
    using assms i window_ok_evict_one [OF w(1)] sum_list_update_int [OF i, of 0]
    by (auto simp: ledger_ok_def evict_one_def Let_def burst_ok_def
        dest!: set_update_subset_insert [THEN subsetD])
qed

lemma ledger_ok_evict: "ledger_ok limit w \<Longrightarrow> ledger_ok limit (evict n w)"
  by (induction n arbitrary: w) (simp_all add: ledger_ok_evict_one)

lemma ledger_ok_headTime: "ledger_ok limit w \<Longrightarrow> whole_second t \<Longrightarrow> ledger_ok limit (w\<lparr>headTime := t\<rparr>)"
  by (simp add: ledger_ok_def window_ok_headTime burst_ok_def)

lemma ledger_ok_advance [inv_intro]:
  assumes "ledger_ok limit w" "0 \<le> limit"
  shows "ledger_ok limit (advance t w)"
proof -
  have z: "sum_list (map (\<lambda>_. 0) (buckets w)) = (0 :: int)" by (induction "buckets w") simp_all
  have "window_ok (advance t w)" "0 \<le> burstMax w"
    using assms by (auto simp: ledger_ok_def burst_ok_def inv_intro)
  then show ?thesis
    using assms ledger_ok_headTime [OF ledger_ok_evict [OF assms(1)]] z
    by (auto simp: advance_def Let_def) (auto simp: ledger_ok_def burst_ok_def)
qed

lemma ledger_ok_charge:
  assumes "ledger_ok limit w" "0 \<le> est" "in64 (totalTokens w + est)"
    and "totalTokens w + est \<le> limit + burstMax w"
  shows "ledger_ok limit (charge est w)"
proof -
  let ?i = "nat (headIdx w)"
  have w: "window_ok w" "\<forall>b \<in> set (buckets w). 0 \<le> b" "totalTokens w = sum_list (buckets w)"
    using assms(1) by (simp_all add: ledger_ok_def)
  have i: "?i < length (buckets w)" by (rule head_in_range [OF w(1)])
  have b: "0 \<le> buckets w ! ?i" "buckets w ! ?i \<le> totalTokens w"
    using w(2,3) i nth_le_sum_list_int [OF i] by simp_all
  then have wr: "wrap64 (buckets w ! ?i + est) = buckets w ! ?i + est"
    using assms(2,3) by (intro wrap64_id) (auto simp: in64_def)
  show ?thesis
    using assms b i wr window_ok_charge [OF w(1), of est]
      sum_list_update_int [OF i, of "buckets w ! ?i + est"] ledger_ok_total [OF assms(1)]
    by (auto simp: ledger_ok_def charge_def burst_ok_def
        dest!: set_update_subset_insert [THEN subsetD])
qed

lemma ledger_ok_burst:
  "\<lbrakk> ledger_ok limit w; 0 \<le> b; b \<le> burstMax w \<rbrakk> \<Longrightarrow> ledger_ok limit (w\<lparr>burstRemaining := b\<rparr>)"
  by (auto simp: ledger_ok_def window_ok_def burst_ok_def)

text \<open>A reservation keeps the ledger exact and within the limit plus the burst allowance.\<close>

lemma ledger_ok_reserve:
  assumes l: "ledger_ok limit w" and clk: "same_second clk t" and est: "0 \<le> est"
    and lim: "0 \<le> limit" "in64 (limit + burstMax w + est)"
  shows "ledger_ok limit (snd (reserve_window clk est limit w))"
proof -
  let ?v = "advance t w" and ?B = "burstRemaining w"
  have v: "ledger_ok limit ?v" by (rule ledger_ok_advance [OF l lim(1)])
  have w: "window_ok w" "burst_ok w" and bm: "0 \<le> ?B" "?B \<le> burstMax w"
    using l by (auto simp: ledger_ok_def burst_ok_def)
  have T: "0 \<le> totalTokens ?v" "totalTokens ?v \<le> limit + burstMax w"
    using v ledger_ok_total [OF v] by (simp_all add: ledger_ok_def)
  then have fits: "in64 (totalTokens ?v + est)" "in64 limit"
    using est lim bm by (auto simp: in64_def)
  have ch: "ledger_ok limit (charge est ?v)" if "totalTokens ?v + est \<le> limit + ?B"
    by (rule ledger_ok_charge [OF v est fits(1)]) (use that bm in simp)
  have burst: "ledger_ok limit ((charge est ?v)\<lparr>burstRemaining := ?B - n\<rparr>)"
    if "totalTokens ?v + est \<le> limit + ?B" "0 \<le> n" "n \<le> ?B" for n
    using ledger_ok_burst [OF ch [OF that(1)], of "?B - n"] that bm by simp
  show ?thesis
    using reserve_window_spec [OF w clk T(1) est fits(1) lim(1) fits(2)] v ch burst bm
    by (simp add: Let_def)
qed

lemma ledger_ok_fresh:
  "params_ok p \<Longrightarrow> ledger_ok (bp_LimitTokens p) (window (fresh_state now p))"
  using workload_ok_fresh [of p now]
  by (auto simp: ledger_ok_def workload_ok_def fresh_state_def params_ok_def sum_list_replicate)

section \<open>A request beside the status reads it could have been\<close>

text \<open>
  What a reservation and its reconciliation change is stated against a run in which the same
  clock readings were status reads only. The comparison holds for every well-formed window,
  whatever its history left in it: both runs carry the same drift.
\<close>

lemma drift_rep_burst [simp]: "drift_rep d (w\<lparr>burstRemaining := b\<rparr>) log = drift_rep d w log"
  by (auto simp: drift_rep_def window_ok_def drifts_def aged_def)

text \<open>\<open>v\<close> holds \<open>x\<close> tokens of second \<open>u\<close> or later more than \<open>w\<close>, and is otherwise the same.\<close>

definition ahead :: "int \<Rightarrow> int \<Rightarrow> RollingWindow \<Rightarrow> RollingWindow \<Rightarrow> bool" where
  "ahead u x v w \<longleftrightarrow> (\<exists>d log e. drift_rep d w log \<and> drift_rep d v (log @ e) \<and>
     sec (headTime v) \<le> sec (headTime w) \<and> numBuckets v = numBuckets w \<and> u \<le> sec (headTime v) \<and>
     (\<forall>s. sec (headTime v) \<le> s \<and> s < u + numBuckets w \<longrightarrow> log_total (numBuckets w) s e = x))"

lemma ahead_burst [simp]: "ahead u x (v\<lparr>burstRemaining := b\<rparr>) w = ahead u x v w"
  by (simp add: ahead_def)

lemma log_total_split: "log_total n s (log @ e) = log_total n s log + log_total n s e"
  by (simp add: log_total_def)

lemma ahead_start:
  assumes "window_ok w" "numBuckets w \<le> 9223372036" "sec (headTime w) \<le> sec t"
  shows "ahead (sec t) 0 (advance t w) (advance t w)"
proof -
  obtain d log where "drift_rep d (advance t w) log"
    using drift_rep_exists [of "advance t w"] window_ok_advance [OF assms(1)] assms(2) by auto
  then show ?thesis
    using assms(1,3) unfolding ahead_def
    by (intro exI [of _ d] exI [of _ log] exI [of _ "[]"]) (simp add: sec_headTime_advance log_total_def)
qed

lemma charged_same_second:
  assumes "window_ok w" "same_second clk t"
  shows "charged clk k w = snd (Add t k (advance t w))"
proof -
  have "advance (clk i) = advance t" for i
    using assms(2) by (auto simp: same_second_def intro: advance_cong_sec)
  then show ?thesis using assms(1)
    by (simp add: charged_def Add_charge headTime_advance window_ok_advance)
qed

lemma ahead_charge:
  assumes "ahead u x v w" "same_second clk t" "sec (headTime w) \<le> sec t" "sec t < u + numBuckets w"
    and "0 \<le> totalTokens (advance t w) + (x + k)" "totalTokens (advance t w) + (x + k) \<le> 9223372036854775807"
  shows "ahead u (x + k) (charged clk k v) (advance t w)"
proof -
  let ?n = "numBuckets w"
  obtain d log e where r: "drift_rep d w log" "drift_rep d v (log @ e)" "sec (headTime v) \<le> sec (headTime w)"
    "numBuckets v = ?n" "u \<le> sec (headTime v)"
    "\<forall>s. sec (headTime v) \<le> s \<and> s < u + ?n \<longrightarrow> log_total ?n s e = x"
    using assms(1) by (auto simp: ahead_def)
  have ok: "window_ok w" "window_ok v" using r(1,2) by (simp_all add: drift_rep_def)
  have gap: "max (sec (headTime w)) (sec t) = sec t" "sec t - sec (headTime w) < ?n"
    "max (sec (headTime v)) (sec t) = sec t" "sec t - sec (headTime v) < ?n"
    using assms(3,4) r(3,5) by simp_all
  have w: "drift_rep d (advance t w) log" "sec (headTime (advance t w)) = sec t"
    and v: "drift_rep d (advance t v) (log @ e)" "sec (headTime (advance t v)) = sec t"
    using rw.rep_read [OF r(1) refl, of t] rw.rep_read [OF r(2) refl, of t] gap r(3,4)
    by (simp_all add: sec_headTime_advance ok)
  have n: "0 < ?n" using ok(1) by (simp add: window_ok_def)
  have T: "totalTokens (advance t w) = wrap64 (log_total ?n (sec t) log + d)"
    using w by (simp add: drift_rep_def drifts_def)
  have e: "log_total ?n (sec t) e = x" using r(3,6) assms(3,4) by simp
  have "log_total ?n (sec t) [(sec t, k)] = k" using n by (simp add: log_total_def)
  then have "log_total ?n (sec t) (log @ e @ [(sec t, k)]) + d = (log_total ?n (sec t) log + d) + (x + k)"
    by (simp only: log_total_split e)
  then have "wrap64 (log_total ?n (sec t) (log @ e @ [(sec t, k)]) + d) = wrap64 (totalTokens (advance t w) + (x + k))"
    by (simp only: T wrap64_add_wrap64)
  also have "\<dots> = totalTokens (advance t w) + (x + k)"
    using assms(5,6) by (intro wrap64_id) (simp add: in64_def)
  finally have "0 \<le> wrap64 (log_total ?n (sec t) ((log @ e) @ [(sec t, k)]) + d)" using assms(5) by simp
  then have "drift_rep d (charged clk k v) (log @ e @ [(sec t, k)])" "sec (headTime (charged clk k v)) = sec t"
    using rw.rep_add [OF v(1) refl refl, of t k] rw.head_add [OF v(1), of t k] v(2) r(4) n
    by (simp_all add: charged_same_second [OF ok(2) assms(2)])
  moreover have "log_total ?n s (e @ [(sec t, k)]) = x + k" if "sec t \<le> s" "s < u + ?n" for s
    using r(6) that assms(3) r(3,5) by (simp add: log_total_split) (simp add: log_total_def)
  ultimately show ?thesis
    unfolding ahead_def using w r(3,4,5) assms(3)
    by (intro exI [of _ d] exI [of _ log] exI [of _ "e @ [(sec t, k)]"]) simp
qed

lemma ahead_read:
  assumes "ahead u x v w" "sec (headTime w) \<le> sec t" "sec t < u + numBuckets w"
  shows "ahead u x v (advance t w)"
proof -
  obtain d log e where r: "drift_rep d w log" "drift_rep d v (log @ e)" "sec (headTime v) \<le> sec (headTime w)"
    "numBuckets v = numBuckets w" "u \<le> sec (headTime v)"
    "\<forall>s. sec (headTime v) \<le> s \<and> s < u + numBuckets w \<longrightarrow> log_total (numBuckets w) s e = x"
    using assms(1) by (auto simp: ahead_def)
  have "drift_rep d (advance t w) log" "sec (headTime (advance t w)) = sec t"
    using rw.rep_read [OF r(1) refl, of t] r(1,3,5) assms(2,3)
    by (simp_all add: max_absorb2 drift_rep_def sec_headTime_advance)
  then show ?thesis unfolding ahead_def using r(2-6) assms(2)
    by (intro exI [of _ d] exI [of _ log] exI [of _ e]) simp
qed

lemma ahead_total:
  assumes "ahead u x v w" "sec (headTime w) \<le> sec t" "sec t < u + numBuckets w"
    and "0 \<le> totalTokens (advance t w) + x" "totalTokens (advance t w) + x \<le> 9223372036854775807"
  shows "fst (Total t v) = totalTokens (advance t w) + x"
proof -
  let ?n = "numBuckets w"
  obtain d log e where r: "drift_rep d w log" "drift_rep d v (log @ e)" "sec (headTime v) \<le> sec (headTime w)"
    "numBuckets v = ?n" "u \<le> sec (headTime v)"
    "\<forall>s. sec (headTime v) \<le> s \<and> s < u + ?n \<longrightarrow> log_total ?n s e = x"
    using assms(1) by (auto simp: ahead_def)
  have ok: "window_ok w" using r(1) by (simp add: drift_rep_def)
  have gap: "max (sec (headTime w)) (sec t) = sec t" "sec t - sec (headTime w) < ?n"
    "max (sec (headTime v)) (sec t) = sec t" "sec t - sec (headTime v) < ?n"
    using assms(2,3) r(3,5) by simp_all
  have T: "totalTokens (advance t w) = wrap64 (log_total ?n (sec t) log + d)"
    using rw.rep_read [OF r(1) refl, of t] gap ok by (simp add: drift_rep_def drifts_def sec_headTime_advance)
  have "fst (Total t v) = max 0 (wrap64 (totalTokens (advance t w) + x))"
    using rw.total_rep [OF r(2) refl, of t] r(3,4,6) gap assms(2,3)
    by (simp add: T log_total_split wrap64_add_wrap64 algebra_simps)
  then show ?thesis using assms(4,5) by (simp add: in64_def)
qed

lemma burst_same: "\<exists>b. (w :: RollingWindow) = w\<lparr>burstRemaining := b\<rparr>"
  by (rule exI [of _ "burstRemaining w"]) simp

lemma reserve_granted_charges:
  assumes "workload_ok ws" "fst (reserve_window clk est (limitTokens ws) (window ws)) = Returns (st, True)"
  shows "\<exists>b. snd (reserve_window clk est (limitTokens ws) (window ws)) =
     (charged clk est (window ws))\<lparr>burstRemaining := b\<rparr>"
  using assms(2) reserve_window_eq [OF workload_okD(1-4) [OF assms(1)], of clk est]
  by (auto simp: Let_def burst_same split: if_splits)

lemma ReplenishBurst_only_burst: "\<exists>b. ReplenishBurst n w = w\<lparr>burstRemaining := b\<rparr>"
  by (auto simp: ReplenishBurst_def Let_def)

lemma record_charges:
  assumes "window_ok w"
  shows "\<exists>b. snd (record_window clk k limit w) = (charged clk k w)\<lparr>burstRemaining := b\<rparr>"
  by (simp add: record_window_eq [OF assms] Let_def burst_same ReplenishBurst_only_burst)

text \<open>What a status read, a granted reservation and a usage report do to the comparison.\<close>

lemma status_reads:
  "windows t k = Some ws \<Longrightarrow>
     windows (snd (Status now k t)) k = Some (ws\<lparr>window := advance now (window ws)\<rparr>) \<and>
     fst (Status now k t) = Inr \<lparr> WindowTokensUsed = max 0 (totalTokens (advance now (window ws))),
       WindowTokensLimit = limitTokens ws, bs_BurstRemaining = burstRemaining (window ws) \<rparr>"
  by (simp add: Status_def Total_eq Let_def BurstRemaining_def)

lemma reserve_ahead:
  assumes "tracker_ok t" "windows t k = Some ws" "numBuckets (window ws) \<le> 9223372036"
    and "same_second clk now" "sec (headTime (window ws)) \<le> sec now"
    and "fst (Reserve clk k est t) = Returns (st, True, None)"
    and "0 \<le> totalTokens (advance now (window ws)) + est"
    and "totalTokens (advance now (window ws)) + est \<le> 9223372036854775807"
  shows "\<exists>w. windows (snd (Reserve clk k est t)) k = Some (ws\<lparr>window := w\<rparr>) \<and>
     ahead (sec now) est w (advance now (window ws))"
proof -
  note ok = tracker_okD [OF assms(1,2)]
  have wok: "window_ok (window ws)" using workload_okD(1) [OF ok] .
  let ?v = "advance now (window ws)"
  obtain st' a where "fst (reserve_window clk est (limitTokens ws) (window ws)) = Returns (st', a)"
    and R: "Reserve clk k est t = (Returns (st', a, None),
      put_window k ws (snd (reserve_window clk est (limitTokens ws) (window ws))) t)"
    using Reserve_found [OF assms(1,2), of clk est] by (metis fst_conv)
  then have g: "fst (reserve_window clk est (limitTokens ws) (window ws)) = Returns (st, True)"
    using assms(6) by simp
  obtain b where b: "snd (reserve_window clk est (limitTokens ws) (window ws)) =
      (charged clk est (window ws))\<lparr>burstRemaining := b\<rparr>"
    using reserve_granted_charges [OF ok g] by blast
  have v: "sec (headTime ?v) = sec now" "0 < numBuckets (window ws)"
    using assms(5) wok by (simp_all add: sec_headTime_advance) (simp add: window_ok_def)
  have "ahead (sec now) (0 + est) (charged clk est ?v) (advance now ?v)"
    by (rule ahead_charge [OF ahead_start [OF wok assms(3,5)] assms(4)]) (use v assms(7,8) in simp_all)
  moreover have "charged clk est ?v = charged clk est (window ws)"
    using charged_same_second [OF _ assms(4)] wok by (simp add: window_ok_advance)
  ultimately show ?thesis using R b
    by (intro exI [of _ "(charged clk est (window ws))\<lparr>burstRemaining := b\<rparr>"]) simp
qed

lemma record_ahead:
  assumes "windows t (ur_WorkloadID r) = Some ws" "ahead u x (window ws) v"
    and "same_second clk now" "sec (headTime v) \<le> sec now" "sec now < u + numBuckets v"
    and "0 \<le> totalTokens (advance now v) + (x + ur_Tokens r)"
    and "totalTokens (advance now v) + (x + ur_Tokens r) \<le> 9223372036854775807"
  shows "\<exists>w. windows (snd (Record clk r t)) (ur_WorkloadID r) = Some (ws\<lparr>window := w\<rparr>) \<and>
     ahead u (x + ur_Tokens r) w (advance now v)"
proof -
  have "window_ok (window ws)" using assms(2) by (auto simp: ahead_def drift_rep_def)
  then obtain b where "snd (record_window clk (ur_Tokens r) (limitTokens ws) (window ws)) =
      (charged clk (ur_Tokens r) (window ws))\<lparr>burstRemaining := b\<rparr>"
    using record_charges [of "window ws" clk "ur_Tokens r" "limitTokens ws"] by blast
  then show ?thesis
    using ahead_charge [OF assms(2-7)] assms(1)
    by (intro exI [of _ "(charged clk (ur_Tokens r) (window ws))\<lparr>burstRemaining := b\<rparr>"])
      (simp add: Record_def split_beta)
qed

text \<open>
  The status of a workload after reads at given times, and room for \<open>n\<close> more tokens: the
  cached sum is not negative and does not overflow.
\<close>

definition read_at :: "gotime list \<Rightarrow> string \<Rightarrow> TrackerImpl \<Rightarrow> TrackerImpl" where
  "read_at ts k t = fold (\<lambda>now t. snd (Status now k t)) ts t"

definition room_for :: "int \<Rightarrow> string \<Rightarrow> TrackerImpl \<Rightarrow> bool" where
  "room_for n k t \<longleftrightarrow> (case windows t k of None \<Rightarrow> False | Some ws \<Rightarrow>
     0 \<le> totalTokens (window ws) \<and> totalTokens (window ws) + n \<le> 9223372036854775807)"

text \<open>The tokens the status reports.\<close>

definition used :: "gotime \<Rightarrow> string \<Rightarrow> TrackerImpl \<Rightarrow> int" where
  "used now k t = (case fst (Status now k t) of Inl _ \<Rightarrow> 0 | Inr st \<Rightarrow> WindowTokensUsed st)"

lemma used_ahead:
  assumes "windows t k = Some ws" "ahead u x (window ws) w" "windows t' k = Some ws'" "window ws' = w"
    and "sec (headTime w) \<le> sec now" "sec now < u + numBuckets w" "0 \<le> x"
    and "room_for x k (snd (Status now k t'))"
  shows "used now k t = used now k t' + x"
proof -
  have r: "0 \<le> totalTokens (advance now w)" "totalTokens (advance now w) + x \<le> 9223372036854775807"
    using assms(8) status_reads [OF assms(3), of now] by (simp_all add: room_for_def assms(4))
  have "used now k t = fst (Total now (window ws))"
    using status_reads [OF assms(1), of now] by (simp add: used_def fst_Total)
  then show ?thesis
    using ahead_total [OF assms(2,5,6)] r assms(7) status_reads [OF assms(3), of now]
    by (simp add: used_def assms(4))
qed

text \<open>
  What is left of a granted reservation: all of it until a report arrives, the actual usage
  afterwards, as long as the second of the reservation is in the window.
\<close>

lemma reservation_stands:
  assumes "tracker_ok t" "windows t k = Some ws" "numBuckets (window ws) \<le> 9223372036"
    and "same_second clk0 t0" "sec (headTime (window ws)) \<le> sec t0" "sec t0 \<le> sec t1" "sec t1 \<le> sec t2"
    and "sec t2 - numBuckets (window ws) < sec t0" "0 \<le> est"
    and "room_for est k (read_at [t0] k t)" "room_for est k (read_at [t0, t1] k t)"
    and "room_for est k (read_at [t0, t1, t2] k t)"
    and "fst (Reserve clk0 k est t) = Returns (st, True, None)"
  shows "used t2 k (snd (Reserve clk0 k est t)) = used t2 k (read_at [t0, t1] k t) + est"
proof -
  obtain w where w: "windows (snd (Reserve clk0 k est t)) k = Some (ws\<lparr>window := w\<rparr>)"
    "ahead (sec t0) est w (advance t0 (window ws))"
    using reserve_ahead [OF assms(1-5,13)] assms(2,9,10) by (auto simp: read_at_def room_for_def status_reads)
  have v: "sec (headTime (advance t0 (window ws))) = sec t0"
    "sec (headTime (advance t1 (advance t0 (window ws)))) = sec t1"
    using workload_okD(1) [OF tracker_okD [OF assms(1,2)]] assms(5,6)
    by (simp_all add: sec_headTime_advance window_ok_advance)
  have "ahead (sec t0) est w (advance t1 (advance t0 (window ws)))"
    by (rule ahead_read [OF w(2)]) (use v assms(6-8) in simp_all)
  moreover have rd: "windows (read_at [t0, t1] k t) k = Some (ws\<lparr>window := advance t1 (advance t0 (window ws))\<rparr>)"
    using assms(2) by (simp add: read_at_def status_reads)
  ultimately show ?thesis
    using used_ahead [OF w(1) _ rd, of "sec t0" est "advance t1 (advance t0 (window ws))" t2] assms(7-9,12) v
    by (simp add: read_at_def)
qed

lemma reservation_then_report:
  assumes "tracker_ok t" "windows t k = Some ws" "numBuckets (window ws) \<le> 9223372036"
    and "same_second clk0 t0" "same_second clk1 t1"
    and "sec (headTime (window ws)) \<le> sec t0" "sec t0 \<le> sec t1" "sec t1 \<le> sec t2"
    and "sec t2 - numBuckets (window ws) < sec t0" "0 \<le> est" "0 \<le> actual"
    and "room_for (est + actual) k (read_at [t0] k t)" "room_for (est + actual) k (read_at [t0, t1] k t)"
    and "room_for (est + actual) k (read_at [t0, t1, t2] k t)"
    and "fst (Reserve clk0 k est t) = Returns (st, True, None)"
    and "ur_WorkloadID r = k" "ur_Tokens r = actual - est"
  shows "used t2 k (snd (Record clk1 r (snd (Reserve clk0 k est t)))) = used t2 k (read_at [t0, t1] k t) + actual"
proof -
  obtain w where w: "windows (snd (Reserve clk0 k est t)) k = Some (ws\<lparr>window := w\<rparr>)"
    "ahead (sec t0) est w (advance t0 (window ws))"
    using reserve_ahead [OF assms(1-4,6,15)] assms(2,10-12) by (auto simp: read_at_def room_for_def status_reads)
  have v: "sec (headTime (advance t0 (window ws))) = sec t0"
    "sec (headTime (advance t1 (advance t0 (window ws)))) = sec t1"
    using workload_okD(1) [OF tracker_okD [OF assms(1,2)]] assms(6,7)
    by (simp_all add: sec_headTime_advance window_ok_advance)
  obtain w' where w': "windows (snd (Record clk1 r (snd (Reserve clk0 k est t)))) k = Some (ws\<lparr>window := w'\<rparr>)"
    "ahead (sec t0) actual w' (advance t1 (advance t0 (window ws)))"
    using record_ahead [of "snd (Reserve clk0 k est t)" r "ws\<lparr>window := w\<rparr>" "sec t0" est
        "advance t0 (window ws)" clk1 t1] w v assms(2,5,7-11,13,16,17)
    by (auto simp: read_at_def room_for_def status_reads)
  have rd: "windows (read_at [t0, t1] k t) k = Some (ws\<lparr>window := advance t1 (advance t0 (window ws))\<rparr>)"
    using assms(2) by (simp add: read_at_def status_reads)
  have "room_for actual k (snd (Status t2 k (read_at [t0, t1] k t)))"
    using assms(10,14) status_reads [OF rd, of t2] by (simp add: read_at_def room_for_def)
  then show ?thesis
    using used_ahead [OF w'(1) _ rd, of "sec t0" actual "advance t1 (advance t0 (window ws))" t2] w'(2) assms(8,9,11) v
    by simp
qed

section \<open>Properties\<close>

text \<open>A history of tracker calls, with the clock readings each of them made.\<close>

datatype tracker_op =
    OpRegister gotime string BudgetParams
  | OpReserve clock string int
  | OpRecord clock UsageReport
  | OpStatus gotime string
  | OpStatusAll "string \<Rightarrow> gotime"

fun tracker_step :: "tracker_op \<Rightarrow> TrackerImpl \<Rightarrow> bool \<times> TrackerImpl" where
  "tracker_step (OpRegister now k p) t = map_prod returned id (Register now k p t)"
| "tracker_step (OpReserve clk k n) t = map_prod returned id (Reserve clk k n t)"
| "tracker_step (OpRecord clk r) t = map_prod returned id (Record clk r t)"
| "tracker_step (OpStatus now k) t = (True, snd (Status now k t))"
| "tracker_step (OpStatusAll clk) t = (True, snd (StatusAll clk t))"

primrec tracker_run :: "tracker_op list \<Rightarrow> TrackerImpl \<Rightarrow> bool \<times> TrackerImpl" where
  "tracker_run [] t = (True, t)"
| "tracker_run (x # xs) t =
     (case tracker_step x t of (ok, t) \<Rightarrow> if ok then tracker_run xs t else (False, t))"

definition registers_ok :: "tracker_op list \<Rightarrow> bool" where
  "registers_ok ops = list_all (\<lambda>x. case x of OpRegister now k p \<Rightarrow> params_ok p | _ \<Rightarrow> True) ops"

lemma tracker_step_sound:
  "tracker_ok t \<Longrightarrow> registers_ok [x] \<Longrightarrow> fst (tracker_step x t) \<and> tracker_ok (snd (tracker_step x t))"
  using impl.reserve_returns [of t] impl.record_returns [of t]
  by (cases x) (auto simp: registers_ok_def inv_intro)

lemma tracker_run_sound:
  "tracker_ok t \<Longrightarrow> registers_ok xs \<Longrightarrow> fst (tracker_run xs t) \<and> tracker_ok (snd (tracker_run xs t))"
proof (induction xs arbitrary: t)
  case (Cons x xs)
  then have "fst (tracker_step x t)" "tracker_ok (snd (tracker_step x t))" "registers_ok xs"
    using tracker_step_sound [of t x] by (simp_all add: registers_ok_def)
  with Cons.IH show ?case by (simp add: split_beta)
qed simp

text \<open>
  C2. The enforcement state never becomes negative. Take any sequence of registrations,
  reservations, usage reports and status reads in which every registration has a window between
  1 and 2^45 seconds, a positive limit, a burst allowance that is not negative, and limit plus
  burst within 64 bits; the token amounts (negative ones and ones that overflow included) and
  the clock readings (backward jumps included) may be any. Then no call panics, and every status
  reports a usage of at least zero and a burst allowance between zero and the workload's burst
  maximum.
\<close>

theorem tracker_state_never_negative:
  assumes "registers_ok ops"
  shows "fst (tracker_run ops NewTracker) \<and>
    (\<forall>now k st. fst (Status now k (snd (tracker_run ops NewTracker))) = Inr st \<longrightarrow>
      0 \<le> WindowTokensUsed st \<and> 0 \<le> bs_BurstRemaining st \<and>
      (\<exists>ws. windows (snd (tracker_run ops NewTracker)) k = Some ws \<and>
            bs_BurstRemaining st \<le> burstMax (window ws)))"
proof -
  have "fst (tracker_run ops NewTracker)" "tracker_ok (snd (tracker_run ops NewTracker))"
    using tracker_run_sound [OF tracker_ok_new assms] by simp_all
  then show ?thesis
    by (auto simp: Status_def Total_eq Let_def BurstRemaining_def tracker_ok_def
        workload_ok_def burst_ok_def split: option.splits)
qed

theorem tracker_state_never_negative_witness:
  "fst (tracker_run [OpRegister 0 ''svc'' \<lparr>bp_WindowSeconds = 60, bp_LimitTokens = 5000, bp_BurstTokens = 10\<rparr>,
     OpReserve (\<lambda>_. 0) ''svc'' (- 7000),
     OpRecord (\<lambda>_. - Second) \<lparr>ur_WorkloadID = ''svc'', ur_Tokens = - 1, ur_Timestamp = 0, ur_IsEstimate = False\<rparr>]
    NewTracker)"
  by (rule tracker_state_never_negative [THEN conjunct1])
    (simp add: registers_ok_def params_ok_def in64_def max_buckets_def)


definition demo_params :: BudgetParams where
  "demo_params = \<lparr>bp_WindowSeconds = 60, bp_LimitTokens = 5000, bp_BurstTokens = 0\<rparr>"

definition demo_tracker :: TrackerImpl where
  "demo_tracker = \<lparr> windows = [''svc'' \<mapsto> fresh_state 0 demo_params] \<rparr>"

lemma demo_params_ok: "params_ok demo_params"
  by (simp add: params_ok_def demo_params_def in64_def max_buckets_def)

lemma demo_tracker_ok: "tracker_ok demo_tracker"
  using workload_ok_fresh [OF demo_params_ok] by (simp add: tracker_ok_def demo_tracker_def)

lemma demo_tracker_window: "windows demo_tracker ''svc'' = Some (fresh_state 0 demo_params)"
  by (simp add: demo_tracker_def)


text \<open>A fresh account that only took reservations holds no more than its limit and burst.\<close>

definition account_within :: "string \<Rightarrow> gotime \<Rightarrow> BudgetParams \<Rightarrow> TrackerImpl \<Rightarrow> bool" where
  "account_within k t0 p t \<longleftrightarrow> (\<exists>w. windows t k = Some ((fresh_state t0 p)\<lparr>window := w\<rparr>) \<and>
     ledger_ok (bp_LimitTokens p) w \<and> burstMax w = bp_BurstTokens p)"

lemma account_within_reserve:
  assumes "params_ok p" "account_within k t0 p t" "same_second clk now" "0 \<le> n"
    "in64 (bp_LimitTokens p + bp_BurstTokens p + n)"
  shows "account_within k t0 p (snd (Reserve clk k n t))"
proof -
  have lim: "limitTokens (fresh_state t0 p) = bp_LimitTokens p" "0 \<le> bp_LimitTokens p" "0 \<le> bp_BurstTokens p"
    using assms(1) by (simp_all add: fresh_state_def params_ok_def)
  from assms(2) obtain w where w: "windows t k = Some ((fresh_state t0 p)\<lparr>window := w\<rparr>)"
    "ledger_ok (bp_LimitTokens p) w" "burstMax w = bp_BurstTokens p"
    by (auto simp: account_within_def)
  let ?w = "snd (reserve_window clk n (bp_LimitTokens p) w)"
  have wk: "window_ok w" "burst_ok w" "in64 (bp_LimitTokens p)"
    using w(2) lim assms(4,5) by (auto simp: ledger_ok_def in64_def)
  have "ledger_ok (bp_LimitTokens p) ?w" "burstMax ?w = bp_BurstTokens p"
    using ledger_ok_reserve [OF w(2) assms(3,4) lim(2)] assms(5) w(3)
      reserve_window_inv(5) [OF wk(1,2) lim(2) wk(3)] by simp_all
  moreover have "windows (snd (Reserve clk k n t)) k = Some ((fresh_state t0 p)\<lparr>window := ?w\<rparr>)"
    using w(1) by (simp add: Reserve_def tracker_get_def lim split: prod.split outcome.split)
  ultimately show ?thesis by (auto simp: account_within_def)
qed



text \<open>
  The one-second condition is needed. With a limit of 100, no burst and a window of three
  seconds, a refused reservation whose undo reads the clock one second later leaves a negative
  bucket behind, and the window admits 120 tokens.
\<close>

definition tight_params :: BudgetParams where
  "tight_params = \<lparr> bp_WindowSeconds = 3, bp_LimitTokens = 100, bp_BurstTokens = 0 \<rparr>"

definition late_undo_run :: TrackerImpl where
  "late_undo_run = fold (\<lambda>(clk, n) t. snd (Reserve clk ''svc'' n t))
     [(\<lambda>_. 0, 60), (\<lambda>i. if i < 2 then 0 else Second, 60), (\<lambda>_. Second, 40), (\<lambda>_. 3 * Second, 10),
      (\<lambda>_. 3 * Second, 100)] (snd (Register 0 ''svc'' tight_params NewTracker))"

lemma late_undo_exceeds_capacity:
  "used (4 * Second) ''svc'' late_undo_run = 120"
  by code_simp

text \<open>Whether a call is made for workload \<open>k\<close>; a poll of all workloads is.\<close>

primrec made_for :: "string \<Rightarrow> tracker_op \<Rightarrow> bool" where
  "made_for k (OpRegister now j p) = (j = k)"
| "made_for k (OpReserve clk j n) = (j = k)"
| "made_for k (OpRecord clk r) = (ur_WorkloadID r = k)"
| "made_for k (OpStatus now j) = (j = k)"
| "made_for k (OpStatusAll clk) = True"

lemma tracker_step_frame:
  "\<not> made_for k x \<Longrightarrow> windows (snd (tracker_step x t)) k = windows t k"
  by (cases x) auto

text \<open>
  C21. Workloads are isolated. A history of tracker calls none of which is made for workload
  \<open>k\<close> (a poll of all workloads counts as made for every one) leaves the state of \<open>k\<close>
  exactly as it was, so the next decision and the next status of \<open>k\<close> do not depend on it.
\<close>

theorem workloads_isolated:
  assumes "list_all (\<lambda>x. \<not> made_for k x) ops"
  shows "windows (snd (tracker_run ops t)) k = windows t k \<and>
    fst (Reserve clk k n (snd (tracker_run ops t))) = fst (Reserve clk k n t) \<and>
    fst (Status now k (snd (tracker_run ops t))) = fst (Status now k t)"
proof -
  have w: "windows (snd (tracker_run ops t)) k = windows t k"
    using assms
  proof (induction ops arbitrary: t)
    case (Cons x ops)
    then show ?case using tracker_step_frame [of k x t] by (simp add: split_beta)
  qed simp
  then show ?thesis
    by (simp add: Reserve_def Status_def tracker_get_def split_beta Let_def
        split: option.split sum.split outcome.split prod.split)
qed

theorem workloads_isolated_witness:
  "fst (Reserve (\<lambda>_. 0) ''svc'' 10 (snd (tracker_run
      [OpRegister 0 ''other'' demo_params, OpReserve (\<lambda>_. 0) ''other'' 5000] demo_tracker))) =
   fst (Reserve (\<lambda>_. 0) ''svc'' 10 demo_tracker)"
  using workloads_isolated [of "''svc''"
      "[OpRegister 0 ''other'' demo_params, OpReserve (\<lambda>_. 0) ''other'' 5000]"]
  by simp

end
