(* ===== verification/Tracker_Interleaving.thy ===== *)
theory Tracker_Interleaving
  imports Budget_Tracker
begin

text \<open>
  Concurrent calls of \<open>Reserve\<close> and \<open>Record\<close> on one workload. The window's \<open>Add\<close> and
  \<open>Total\<close> hold its mutex and each load or compare-and-swap of the burst counter is atomic,
  but the calls as a whole are not: this theory gives the program points between the atomic
  steps (\<open>pc\<close>), the atomic step of each (\<open>pc_step\<close>), and the interleaving of any number of
  calls as a step relation (\<open>sched\<close>). Windows of different workloads share nothing
  (\<open>tracker_frame\<close>), so one window is enough.
\<close>

section \<open>Atomic steps\<close>

text \<open>
  A program point carries the local variables that are still needed; the points of a
  reservation keep its argument. The two loops of the burst counter are pairs of points:
  a failed compare-and-swap goes back to the load.
\<close>

datatype pc =
    ReserveAdd int
  | ReserveTotal int
  | ReserveBurst int int
  | ConsumeLoad int BudgetStatus
  | ConsumeCAS int BudgetStatus int
  | GrantedBurst int BudgetStatus
  | UndoAdd int BudgetStatus
  | UndoTotal int BudgetStatus
  | UndoBurst int BudgetStatus
  | Reserved int BudgetStatus bool
  | RecordAdd int
  | RecordTotal
  | ReplenishLoad int
  | ReplenishCAS int int
  | Recorded
  | Crashed panic

definition overage :: "BudgetStatus \<Rightarrow> int" where
  "overage st = wrap64 (WindowTokensUsed st - WindowTokensLimit st)"

text \<open>\<open>now\<close> is the clock reading of the step, if it makes one.\<close>

fun pc_step :: "int \<Rightarrow> gotime \<Rightarrow> RollingWindow \<Rightarrow> pc \<Rightarrow> RollingWindow \<times> pc" where
  "pc_step limit now w (ReserveAdd est) =
     (case Add now est w of
        (Panics p, w) \<Rightarrow> (w, Crashed p) | (Returns _, w) \<Rightarrow> (w, ReserveTotal est))"
| "pc_step limit now w (ReserveTotal est) =
     (case Total now w of (tot, w) \<Rightarrow> (w, ReserveBurst est tot))"
| "pc_step limit now w (ReserveBurst est tot) =
     (let status = \<lparr> WindowTokensUsed = tot, WindowTokensLimit = limit,
                     bs_BurstRemaining = BurstRemaining w \<rparr> in
      (w, if tot \<le> limit then Reserved est status True else ConsumeLoad est status))"
| "pc_step limit now w (ConsumeLoad est status) =
     (let cur = burstRemaining w in
      (w, if cur < overage status then UndoAdd est status else ConsumeCAS est status cur))"
| "pc_step limit now w (ConsumeCAS est status cur) =
     (if burstRemaining w = cur
      then (w\<lparr> burstRemaining := wrap64 (cur - overage status) \<rparr>, GrantedBurst est status)
      else (w, ConsumeLoad est status))"
| "pc_step limit now w (GrantedBurst est status) =
     (w, Reserved est (status\<lparr> bs_BurstRemaining := BurstRemaining w \<rparr>) True)"
| "pc_step limit now w (UndoAdd est status) =
     (case Add now (wrap64 (- est)) w of
        (Panics p, w) \<Rightarrow> (w, Crashed p) | (Returns _, w) \<Rightarrow> (w, UndoTotal est status))"
| "pc_step limit now w (UndoTotal est status) =
     (case Total now w of (tot, w) \<Rightarrow> (w, UndoBurst est (status\<lparr> WindowTokensUsed := tot \<rparr>)))"
| "pc_step limit now w (UndoBurst est status) =
     (w, Reserved est (status\<lparr> bs_BurstRemaining := BurstRemaining w \<rparr>) False)"
| "pc_step limit now w (RecordAdd tokens) =
     (case Add now tokens w of
        (Panics p, w) \<Rightarrow> (w, Crashed p) | (Returns _, w) \<Rightarrow> (w, RecordTotal))"
| "pc_step limit now w RecordTotal =
     (case Total now w of (tot, w) \<Rightarrow>
        (w, if tot < limit then ReplenishLoad (wrap64 (limit - tot)) else Recorded))"
| "pc_step limit now w (ReplenishLoad freed) = (w, ReplenishCAS freed (burstRemaining w))"
| "pc_step limit now w (ReplenishCAS freed cur) =
     (if burstRemaining w = cur
      then (let newVal = wrap64 (cur + freed);
                newVal = (if newVal > burstMax w then burstMax w else newVal)
            in (w\<lparr> burstRemaining := newVal \<rparr>, Recorded))
      else (w, ReplenishLoad freed))"
| "pc_step limit now w p = (w, p)"

fun finished :: "pc \<Rightarrow> bool" where
  "finished (Reserved est status allowed) = True"
| "finished Recorded = True"
| "finished (Crashed p) = True"
| "finished _ = False"

section \<open>A call on its own\<close>

text \<open>Which of the clock readings of a call the step at a program point makes.\<close>

fun reading :: "pc \<Rightarrow> nat" where
  "reading (ReserveTotal est) = 1"
| "reading (UndoAdd est status) = 2"
| "reading (UndoTotal est status) = 3"
| "reading RecordTotal = 1"
| "reading _ = 0"

primrec alone :: "nat \<Rightarrow> int \<Rightarrow> clock \<Rightarrow> RollingWindow \<times> pc \<Rightarrow> RollingWindow \<times> pc" where
  "alone 0 limit clk s = s"
| "alone (Suc n) limit clk s = alone n limit clk (pc_step limit (clk (reading (snd s))) (fst s) (snd s))"

definition reserve_result :: "int \<Rightarrow> (BudgetStatus \<times> bool) outcome \<times> RollingWindow \<Rightarrow> RollingWindow \<times> pc" where
  "reserve_result est r =
     (snd r, case fst r of Panics p \<Rightarrow> Crashed p | Returns (st, allowed) \<Rightarrow> Reserved est st allowed)"

definition record_result :: "unit outcome \<times> RollingWindow \<Rightarrow> RollingWindow \<times> pc" where
  "record_result r = (snd r, case fst r of Panics p \<Rightarrow> Crashed p | Returns _ \<Rightarrow> Recorded)"

lemma alone_finished [simp]: "finished (snd s) \<Longrightarrow> alone n limit clk s = s"
  by (induction n arbitrary: s) (auto elim: finished.elims)

text \<open>
  Eight steps complete any call that runs alone, and the result is that of the sequential
  operation.
\<close>

lemma alone_step: "alone (Suc n) limit clk (w, p) = alone n limit clk (pc_step limit (clk (reading p)) w p)"
  by simp

lemma alone_reserve: "alone 8 limit clk (w, ReserveAdd est) = reserve_result est (reserve_window clk est limit w)"
proof -
  have 8: "(8 :: nat) = Suc (Suc (Suc (Suc (Suc (Suc (Suc (Suc 0)))))))" by simp
  show ?thesis
    unfolding 8 alone_step reserve_window_def reserve_result_def
    by (simp add: Let_def overage_def ConsumeBurst_def BurstRemaining_def split_beta
        split: prod.split outcome.split)
qed

lemma alone_record: "alone 8 limit clk (w, RecordAdd k) = record_result (record_window clk k limit w)"
proof -
  have 8: "(8 :: nat) = Suc (Suc (Suc (Suc (Suc (Suc (Suc (Suc 0)))))))" by simp
  show ?thesis
    unfolding 8 alone_step record_window_def record_result_def
    by (simp add: Let_def ReplenishBurst_def split_beta split: prod.split outcome.split)
qed

section \<open>Interleaving\<close>

record conf =
  win :: RollingWindow
  calls :: "pc list"

text \<open>
  One step of the system: a call that has been made takes its next atomic step, or a new
  call is made. \<open>clocks\<close> restricts the clock readings and \<open>starts\<close> the new calls; the
  unrestricted system is \<open>sched limit (\<lambda>_. True) is_call\<close>.
\<close>

fun is_call :: "pc \<Rightarrow> bool" where
  "is_call (ReserveAdd est) = True"
| "is_call (RecordAdd tokens) = True"
| "is_call _ = False"

inductive sched :: "int \<Rightarrow> (gotime \<Rightarrow> bool) \<Rightarrow> (pc \<Rightarrow> bool) \<Rightarrow> conf \<Rightarrow> conf \<Rightarrow> bool"
  for limit :: int and clocks :: "gotime \<Rightarrow> bool" and starts :: "pc \<Rightarrow> bool" where
  take_step: "\<lbrakk> i < length (calls s); clocks now;
     pc_step limit now (win s) (calls s ! i) = (w, p) \<rbrakk> \<Longrightarrow>
     sched limit clocks starts s (s\<lparr> win := w, calls := (calls s)[i := p] \<rparr>)"
| new_call: "starts p \<Longrightarrow> sched limit clocks starts s (s\<lparr> calls := calls s @ [p] \<rparr>)"

inductive_cases schedE: "sched limit clocks starts s s'"

text \<open>The step taken by the call at position \<open>i\<close>, as a function, to write executions down.\<close>

definition fire :: "int \<Rightarrow> gotime \<Rightarrow> nat \<Rightarrow> conf \<Rightarrow> conf" where
  "fire limit now i s = (case pc_step limit now (win s) (calls s ! i) of
     (w, p) \<Rightarrow> s\<lparr> win := w, calls := (calls s)[i := p] \<rparr>)"

lemma sched_fire: "i < length (calls s) \<Longrightarrow> clocks now \<Longrightarrow> sched limit clocks starts s (fire limit now i s)"
  using take_step [of i s clocks now limit] by (simp add: fire_def split_beta)

section \<open>Safety of every interleaving\<close>

fun pc_ok :: "int \<Rightarrow> int \<Rightarrow> pc \<Rightarrow> bool" where
  "pc_ok limit bmax (ReserveBurst est tot) = (0 \<le> tot \<and> in64 tot)"
| "pc_ok limit bmax (ConsumeLoad est st) =
     (WindowTokensLimit st = limit \<and> limit < WindowTokensUsed st \<and> in64 (WindowTokensUsed st))"
| "pc_ok limit bmax (ConsumeCAS est st cur) =
     (WindowTokensLimit st = limit \<and> limit < WindowTokensUsed st \<and> in64 (WindowTokensUsed st) \<and>
      overage st \<le> cur)"
| "pc_ok limit bmax (GrantedBurst est st) =
     (WindowTokensLimit st = limit \<and> limit < WindowTokensUsed st \<and> WindowTokensUsed st \<le> limit + bmax)"
| "pc_ok limit bmax (UndoAdd est st) = (WindowTokensLimit st = limit)"
| "pc_ok limit bmax (UndoTotal est st) = (WindowTokensLimit st = limit)"
| "pc_ok limit bmax (UndoBurst est st) = (WindowTokensLimit st = limit \<and> 0 \<le> WindowTokensUsed st)"
| "pc_ok limit bmax (Reserved est st allowed) =
     (WindowTokensLimit st = limit \<and> 0 \<le> WindowTokensUsed st \<and>
      0 \<le> bs_BurstRemaining st \<and> bs_BurstRemaining st \<le> bmax \<and>
      (allowed \<longrightarrow> WindowTokensUsed st \<le> limit + bmax))"
| "pc_ok limit bmax (ReplenishLoad freed) = (0 \<le> freed \<and> freed \<le> limit)"
| "pc_ok limit bmax (ReplenishCAS freed cur) = (0 \<le> freed \<and> freed \<le> limit)"
| "pc_ok limit bmax (Crashed p) = False"
| "pc_ok limit bmax _ = True"

definition shared_ok :: "int \<Rightarrow> int \<Rightarrow> RollingWindow \<Rightarrow> bool" where
  "shared_ok limit bmax w \<longleftrightarrow> window_ok w \<and> burst_ok w \<and> burstMax w = bmax \<and> 0 \<le> limit \<and>
     in64 (limit + bmax)"

lemma shared_ok_burst:
  "shared_ok limit bmax w \<Longrightarrow> 0 \<le> b \<Longrightarrow> b \<le> bmax \<Longrightarrow> shared_ok limit bmax (w\<lparr>burstRemaining := b\<rparr>)"
  by (auto simp: shared_ok_def window_ok_def burst_ok_def)

lemma shared_ok_advance [simp]: "shared_ok limit bmax w \<Longrightarrow> shared_ok limit bmax (advance t w)"
  by (simp add: shared_ok_def inv_intro)

lemma shared_ok_charge [simp]: "shared_ok limit bmax w \<Longrightarrow> shared_ok limit bmax (charge k w)"
  by (simp add: shared_ok_def inv_intro)

lemma shared_okD:
  assumes "shared_ok limit bmax w"
  shows "window_ok w" "0 \<le> burstRemaining w" "burstRemaining w \<le> bmax" "0 \<le> limit" "0 \<le> bmax"
    "in64 (limit + bmax)" "in64 limit" "burstMax w = bmax" "in64 (burstRemaining w)"
  using assms by (auto simp: shared_ok_def burst_ok_def in64_def)

lemma in64_total: "window_ok w \<Longrightarrow> in64 (max 0 (totalTokens w))"
  by (simp add: window_ok_def)

text \<open>The overage is what it says: no wrap-around between two non-negative numbers.\<close>

lemma overage_eq:
  assumes "WindowTokensLimit st = limit" "limit < WindowTokensUsed st" "in64 (WindowTokensUsed st)" "0 \<le> limit"
  shows "overage st = WindowTokensUsed st - limit"
  using assms unfolding overage_def by (subst wrap64_id) (auto simp: in64_def)

lemma pc_step_ok:
  assumes w: "shared_ok limit bmax w" and p: "pc_ok limit bmax p"
    and s: "pc_step limit now w p = (w', p')"
  shows "shared_ok limit bmax w' \<and> pc_ok limit bmax p'"
proof (cases p)
  case (ConsumeCAS est st cur)
  have ov: "overage st = WindowTokensUsed st - limit"
    using overage_eq p ConsumeCAS shared_okD(4) [OF w] by simp
  show ?thesis
  proof (cases "burstRemaining w = cur")
    case True
    then have c: "overage st \<le> cur" "0 \<le> overage st" "cur \<le> bmax" "in64 cur"
      using p ConsumeCAS ov shared_okD [OF w] by auto
    then have "wrap64 (cur - overage st) = cur - overage st"
      by (intro wrap64_id) (auto simp: in64_def)
    then show ?thesis
      using s ConsumeCAS True p ov c shared_ok_burst [OF w, of "cur - overage st"] by auto
  qed (use s ConsumeCAS p w in auto)
next
  case (ReplenishCAS freed cur)
  show ?thesis
  proof (cases "burstRemaining w = cur")
    case True
    have "wrap64 (cur + freed) = cur + freed"
      using p ReplenishCAS True shared_okD [OF w] by (intro wrap64_id) (auto simp: in64_def)
    then show ?thesis
      using s ReplenishCAS True p shared_okD [OF w]
        shared_ok_burst [OF w, of "if bmax < cur + freed then bmax else cur + freed"]
      by (auto simp: Let_def)
  qed (use s ReplenishCAS p w in auto)
next
  case RecordTotal
  have "0 \<le> limit - max 0 (totalTokens (advance now w)) \<Longrightarrow>
      wrap64 (limit - max 0 (totalTokens (advance now w))) = limit - max 0 (totalTokens (advance now w))"
    using shared_okD(7) [OF w] by (intro wrap64_id) (auto simp: in64_def)
  then show ?thesis using s RecordTotal w by (auto simp: Total_eq)
qed (use s p w shared_okD [OF w] in64_total in
    \<open>auto simp: Add_charge Total_eq BurstRemaining_def Let_def not_less
      intro!: in64_total window_ok_advance split: if_splits\<close>)

definition conf_ok :: "int \<Rightarrow> int \<Rightarrow> conf \<Rightarrow> bool" where
  "conf_ok limit bmax s \<longleftrightarrow> shared_ok limit bmax (win s) \<and> list_all (pc_ok limit bmax) (calls s)"

lemma is_call_ok: "is_call p \<Longrightarrow> pc_ok limit bmax p"
  by (cases p) simp_all

lemma list_all_update: "list_all P xs \<Longrightarrow> P x \<Longrightarrow> list_all P (xs[i := x])"
  by (auto simp: list_all_iff dest: set_update_subset_insert [THEN subsetD])

lemma sched_ok:
  assumes "sched limit clocks starts s s'" "conf_ok limit bmax s" "\<And>p. starts p \<Longrightarrow> is_call p"
  shows "conf_ok limit bmax s'"
  using assms(1)
proof cases
  case (take_step i now w p)
  then have "pc_ok limit bmax (calls s ! i)" using assms(2) by (simp add: conf_ok_def list_all_length)
  with take_step assms(2) show ?thesis
    using pc_step_ok [of limit bmax "win s" "calls s ! i" now w p]
    by (simp add: conf_ok_def list_all_update)
next
  case (new_call p)
  with assms show ?thesis by (simp add: conf_ok_def is_call_ok)
qed

lemma reachable_ok:
  assumes "(sched limit clocks starts)\<^sup>*\<^sup>* s s'" "conf_ok limit bmax s" "\<And>p. starts p \<Longrightarrow> is_call p"
  shows "conf_ok limit bmax s'"
  using assms(1)
proof induction
  case base
  show ?case by (rule assms(2))
next
  case (step y z)
  from step.hyps(2) step.IH assms(3) show ?case by (rule sched_ok)
qed

section \<open>Concurrent reservations do not oversubscribe\<close>

text \<open>
  The argument of a reservation, what of it is in the window at a program point, and the
  total it has read and not yet given up.
\<close>

fun arg :: "pc \<Rightarrow> int" where
  "arg (ReserveAdd est) = est"
| "arg (ReserveTotal est) = est"
| "arg (ReserveBurst est tot) = est"
| "arg (ConsumeLoad est st) = est"
| "arg (ConsumeCAS est st cur) = est"
| "arg (GrantedBurst est st) = est"
| "arg (UndoAdd est st) = est"
| "arg (UndoTotal est st) = est"
| "arg (UndoBurst est st) = est"
| "arg (Reserved est st allowed) = est"
| "arg _ = 0"

fun held :: "pc \<Rightarrow> int" where
  "held (ReserveAdd est) = 0"
| "held (UndoTotal est st) = 0"
| "held (UndoBurst est st) = 0"
| "held (Reserved est st False) = 0"
| "held p = arg p"

fun seen :: "pc \<Rightarrow> int option" where
  "seen (ReserveBurst est tot) = Some tot"
| "seen (ConsumeLoad est st) = Some (WindowTokensUsed st)"
| "seen (ConsumeCAS est st cur) = Some (WindowTokensUsed st)"
| "seen (GrantedBurst est st) = Some (WindowTokensUsed st)"
| "seen (Reserved est st True) = Some (WindowTokensUsed st)"
| "seen _ = None"

fun granted :: "pc \<Rightarrow> bool" where
  "granted (GrantedBurst est st) = True"
| "granted (Reserved est st True) = True"
| "granted _ = False"

fun reserving :: "pc \<Rightarrow> bool" where
  "reserving (RecordAdd k) = False"
| "reserving RecordTotal = False"
| "reserving (ReplenishLoad f) = False"
| "reserving (ReplenishCAS f cur) = False"
| "reserving Recorded = False"
| "reserving (Crashed e) = False"
| "reserving p = (0 \<le> arg p)"

fun new_reservation :: "pc \<Rightarrow> bool" where
  "new_reservation (ReserveAdd est) = (0 \<le> est)"
| "new_reservation _ = False"

text \<open>What a call contributes to the sum of those whose total reading is at most \<open>x\<close>.\<close>

definition weight :: "int \<Rightarrow> pc \<Rightarrow> int" where
  "weight x p = (case seen p of None \<Rightarrow> 0 | Some y \<Rightarrow> if y \<le> x then arg p else 0)"

lemma held_bounds: "reserving p \<Longrightarrow> 0 \<le> held p \<and> held p \<le> arg p"
  by (cases p rule: held.cases) auto

lemma weight_le_held: "reserving p \<Longrightarrow> weight x p \<le> held p"
  by (cases p rule: seen.cases) (auto simp: weight_def)

lemma weight_nonneg: "reserving p \<Longrightarrow> 0 \<le> weight x p"
  by (cases p rule: seen.cases) (auto simp: weight_def)

lemma granted_seen: "granted p \<Longrightarrow> \<exists>x. seen p = Some x"
  by (cases p rule: granted.cases) auto

lemma granted_within: "\<lbrakk> granted p; seen p = Some x; pc_ok limit bmax p \<rbrakk> \<Longrightarrow> x \<le> limit + bmax"
  by (cases p rule: granted.cases) auto

text \<open>
  One atomic step of a reservation, within the second of the window's head: the window's
  sum follows what the call holds, and the total the call relies on is kept, given up, or
  read from the window.
\<close>

lemma charge_total:
  assumes "0 \<le> totalTokens w + k" "totalTokens w + k \<le> 9223372036854775807"
  shows "totalTokens (charge k w) = totalTokens w + k"
  using assms by (simp add: in64_def)

lemma pc_step_reserving:
  assumes s: "pc_step limit now w p = (w', p')" and p: "reserving p"
    and ok: "shared_ok limit bmax w" "pc_ok limit bmax p"
    and now: "sec now = sec (headTime w)"
    and T: "held p \<le> totalTokens w" "totalTokens w + arg p - held p \<le> 9223372036854775807"
  shows "reserving p'" "arg p' = arg p" "totalTokens w' = totalTokens w + held p' - held p"
    "sec (headTime w') = sec (headTime w)"
    "seen p' = None \<or> seen p' = seen p \<or> seen p = None \<and> seen p' = Some (totalTokens w) \<and> w' = w"
proof -
  have still: "advance now w = w"
    using now shared_okD(1) [OF ok(1)]
    by (intro advance_same) (metis order_refl truncate_second_eq whole_second_eq window_ok_def)
  have T0: "0 \<le> totalTokens w" using T(1) held_bounds [OF p] by linarith
  have ch: "Add now k w = (Returns (), charge k w)" for k
    using Add_charge [OF shared_okD(1) [OF ok(1)]] still by simp
  have tot: "Total now w = (totalTokens w, w)" using T0 by (simp add: Total_eq still)
  have add: "totalTokens (charge est w) = totalTokens w + est" if "p = ReserveAdd est" for est
    using that T T0 p by (intro charge_total) simp_all
  have undo: "totalTokens (charge (wrap64 (- est)) w) = totalTokens w - est" if "p = UndoAdd est st" for est st
  proof -
    have "in64 (- est)" using that T p shared_okD(1) [OF ok(1)] by (auto simp: in64_def window_ok_def)
    then show ?thesis using that T p charge_total [of w "- est"] shared_okD(1) [OF ok(1)]
      by (auto simp: window_ok_def in64_def)
  qed
  note facts = s p ch tot add undo
  show "reserving p'" "arg p' = arg p" "totalTokens w' = totalTokens w + held p' - held p"
    "sec (headTime w') = sec (headTime w)"
    "seen p' = None \<or> seen p' = seen p \<or> seen p = None \<and> seen p' = Some (totalTokens w) \<and> w' = w"
    using facts by (cases p; force simp: Let_def split: if_splits)+
qed

lemma sum_map_update:
  "i < length xs \<Longrightarrow>
     (\<Sum>p \<leftarrow> xs[i := v]. f p) = (\<Sum>p \<leftarrow> xs. f p) - f (xs ! i) + (f v :: int)"
  using sum_list_update_int [of i "map f xs" "f v"] by (simp add: map_update)

lemma member_le_sum:
  assumes "i < length xs" "\<forall>x \<in> set xs. 0 \<le> f x"
  shows "f (xs ! i) \<le> (\<Sum>x \<leftarrow> xs. f x :: int)"
  using nth_le_sum_list_int [of i "map f xs"] assms by auto

definition ledger_inv :: "int \<Rightarrow> int \<Rightarrow> int \<Rightarrow> conf \<Rightarrow> bool" where
  "ledger_inv limit bmax T s \<longleftrightarrow> conf_ok limit bmax s \<and> list_all reserving (calls s) \<and>
     sec (headTime (win s)) = T \<and> totalTokens (win s) = (\<Sum>p \<leftarrow> calls s. held p) \<and>
     (\<forall>p \<in> set (calls s). \<forall>x. seen p = Some x \<longrightarrow> (\<Sum>q \<leftarrow> calls s. weight x q) \<le> x)"

lemma ledger_inv_new_call:
  "ledger_inv limit bmax T s \<Longrightarrow> new_reservation p \<Longrightarrow> ledger_inv limit bmax T (s\<lparr> calls := calls s @ [p] \<rparr>)"
  by (cases p) (auto simp: ledger_inv_def conf_ok_def weight_def)

lemma weight_sum_le_held:
  "list_all reserving cs \<Longrightarrow> (\<Sum>q \<leftarrow> cs. weight x q) \<le> (\<Sum>q \<leftarrow> cs. held q)"
  by (induction cs) (auto simp: weight_le_held add_mono)

text \<open>
  What the calls have seen still bounds the calls that may be granted, when one call moves on: it
  forgets, keeps what it saw, or reads the total.
\<close>

lemma seen_bound_step:
  assumes i: "i < length cs" and res: "reserving (cs ! i)" "list_all reserving (cs[i := p'])"
    and tot: "held_now = (\<Sum>p \<leftarrow> cs[i := p']. held p)" and arg: "arg p' = arg (cs ! i)"
    and sees: "seen p' = None \<or> seen p' = seen (cs ! i) \<or> seen (cs ! i) = None \<and> seen p' = Some held_now"
    and reads: "\<And>p x. p \<in> set cs \<Longrightarrow> seen p = Some x \<Longrightarrow> (\<Sum>q \<leftarrow> cs. weight x q) \<le> x"
    and q: "q \<in> set (cs[i := p'])" "seen q = Some x"
  shows "(\<Sum>q \<leftarrow> cs[i := p']. weight x q) \<le> x"
proof -
  have sum: "(\<Sum>q \<leftarrow> cs[i := p']. weight x q) = (\<Sum>q \<leftarrow> cs. weight x q) - weight x (cs ! i) + weight x p'"
    using i by (rule sum_map_update)
  have p: "cs ! i \<in> set cs" using i by simp
  show ?thesis
  proof (cases "seen p' = None \<or> seen p' = seen (cs ! i)")
    case True
    then have "weight x p' \<le> weight x (cs ! i)"
      using arg weight_nonneg [OF res(1), of x] by (auto simp: weight_def split: option.splits)
    then have "(\<Sum>q \<leftarrow> cs[i := p']. weight x q) \<le> (\<Sum>q \<leftarrow> cs. weight x q)" using sum by simp
    moreover have "\<exists>r \<in> set cs. seen r = Some x"
      using q True p set_update_subset_insert [of cs i p'] by force
    ultimately show ?thesis using reads by fastforce
  next
    case False
    then have seen: "seen (cs ! i) = None" "seen p' = Some held_now" using sees by auto
    show ?thesis
    proof (cases "held_now \<le> x")
      case True
      then show ?thesis using weight_sum_le_held [OF res(2), of x] tot by simp
    next
      case small: False
      then have "weight x p' = weight x (cs ! i)" using seen by (simp add: weight_def)
      moreover have "q \<in> set cs" using q seen small set_update_subset_insert [of cs i p'] by auto
      ultimately show ?thesis using sum reads [OF _ q(2)] by simp
    qed
  qed
qed

lemma ledger_inv_step:
  assumes inv: "ledger_inv limit bmax T s" and i: "i < length (calls s)" and now: "sec now = T"
    and st: "pc_step limit now (win s) (calls s ! i) = (w, p')"
    and args: "(\<Sum>p \<leftarrow> calls s. arg p) \<le> 9223372036854775807"
  shows "ledger_inv limit bmax T (s\<lparr> win := w, calls := (calls s)[i := p'] \<rparr>)"
    and "(\<Sum>p \<leftarrow> (calls s)[i := p']. arg p) = (\<Sum>p \<leftarrow> calls s. arg p)"
proof -
  let ?p = "calls s ! i" and ?cs = "(calls s)[i := p']"
  have res: "list_all reserving (calls s)" and tot: "totalTokens (win s) = (\<Sum>p \<leftarrow> calls s. held p)"
    and ok: "shared_ok limit bmax (win s)" "list_all (pc_ok limit bmax) (calls s)"
    and hd: "sec (headTime (win s)) = T"
    and reads: "\<And>p x. p \<in> set (calls s) \<Longrightarrow> seen p = Some x \<Longrightarrow> (\<Sum>q \<leftarrow> calls s. weight x q) \<le> x"
    using inv by (simp_all add: ledger_inv_def conf_ok_def)
  have p: "reserving ?p" "pc_ok limit bmax ?p" "?p \<in> set (calls s)"
    using res ok(2) i by (simp_all add: list_all_length)
  have "\<forall>p \<in> set (calls s). 0 \<le> held p" "\<forall>p \<in> set (calls s). 0 \<le> arg p - held p"
    using res held_bounds by (auto simp: list_all_iff)
  then have T: "held ?p \<le> totalTokens (win s)"
    "totalTokens (win s) + arg ?p - held ?p \<le> 9223372036854775807"
    using member_le_sum [OF i, of held] member_le_sum [OF i, of "\<lambda>p. arg p - held p"] args tot
    by (simp_all add: sum_list_subtractf)
  note step = pc_step_reserving [OF st p(1) ok(1) p(2) _ T] and ok' = pc_step_ok [OF ok(1) p(2) st]
  have now': "sec now = sec (headTime (win s))" using now hd by simp
  show "(\<Sum>p \<leftarrow> ?cs. arg p) = (\<Sum>p \<leftarrow> calls s. arg p)"
    using i step(2) [OF now'] by (simp add: sum_map_update)
  have res': "list_all reserving ?cs" using res step(1) [OF now'] by (rule list_all_update)
  have tot': "totalTokens w = (\<Sum>p \<leftarrow> ?cs. held p)"
    using i tot step(3) [OF now'] by (simp add: sum_map_update)
  have sees: "seen p' = None \<or> seen p' = seen ?p \<or> seen ?p = None \<and> seen p' = Some (totalTokens w)"
    using step(5) [OF now'] by auto
  have "(\<Sum>q \<leftarrow> ?cs. weight x q) \<le> x" if "q \<in> set ?cs" "seen q = Some x" for q x
    by (rule seen_bound_step [OF i p(1) res' tot' step(2) [OF now'] sees reads that])
  then show "ledger_inv limit bmax T (s\<lparr> win := w, calls := ?cs \<rparr>)"
    using ok' ok(2) res' tot' step(4) [OF now'] hd
    by (simp add: ledger_inv_def conf_ok_def list_all_update)
qed

lemma reachable_ledger:
  assumes "(sched limit (\<lambda>now. sec now = T) new_reservation)\<^sup>*\<^sup>* s s'" "ledger_inv limit bmax T s"
    and "(\<Sum>p \<leftarrow> calls s'. arg p) \<le> 9223372036854775807"
  shows "ledger_inv limit bmax T s'"
  using assms(1,3)
proof induction
  case base
  show ?case by (rule assms(2))
next
  case (step y z)
  from step.hyps(2) show ?case
  proof cases
    case (take_step i now w p)
    show ?thesis
    proof (cases "(\<Sum>p \<leftarrow> calls y. arg p) \<le> 9223372036854775807")
      case True
      show ?thesis
        using ledger_inv_step(1) [OF step.IH [OF True] take_step(2-4) True] take_step(1) by simp
    next
      case False
      have "is_call p" if "new_reservation p" for p using that by (cases p) simp_all
      then have "conf_ok limit bmax y"
        using reachable_ok [OF step.hyps(1)] assms(2) by (simp add: ledger_inv_def)
      then have "window_ok (win y)" by (simp add: conf_ok_def shared_ok_def)
      then have "arg p = arg (calls y ! i)"
        using take_step(4) by (cases "calls y ! i")
          (auto simp: Let_def Add_charge split: if_splits prod.splits)
      then show ?thesis using False step.prems take_step(1,2) by (simp add: sum_map_update)
    qed
  next
    case (new_call p)
    have "0 \<le> arg p" using new_call by (cases p) auto
    then show ?thesis using step.IH step.prems new_call ledger_inv_new_call by simp
  qed
qed

lemma granted_sum_le:
  assumes inv: "ledger_inv limit bmax T s"
  shows "(\<Sum>p \<leftarrow> calls s. if granted p then arg p else 0) \<le> limit + bmax"
proof (cases "\<exists>p \<in> set (calls s). granted p")
  case False
  then have "map (\<lambda>p. if granted p then arg p else 0) (calls s) = map (\<lambda>_. 0) (calls s)" by simp
  then have "(\<Sum>p \<leftarrow> calls s. if granted p then arg p else 0) = 0" by (simp only: sum_list_0)
  then show ?thesis using inv shared_okD(4,5) [of limit bmax "win s"]
    by (simp add: ledger_inv_def conf_ok_def)
next
  case True
  let ?X = "{x. \<exists>p \<in> set (calls s). granted p \<and> seen p = Some x}"
  have "?X = (\<lambda>p. the (seen p)) ` {p \<in> set (calls s). granted p}"
    using granted_seen by (force simp: image_iff)
  then have fin: "finite ?X" "?X \<noteq> {}" using True by auto
  from Max_in [OF fin] obtain p where p: "p \<in> set (calls s)" "granted p" "seen p = Some (Max ?X)" by auto
  have res: "list_all reserving (calls s)" using inv by (simp add: ledger_inv_def)
  have "(if granted q then arg q else 0) \<le> weight (Max ?X) q" if q: "q \<in> set (calls s)" for q
  proof (cases "granted q")
    case True
    then obtain y where y: "seen q = Some y" using granted_seen by blast
    then have "y \<le> Max ?X" using fin(1) True q by (intro Max_ge) auto
    then show ?thesis using y True by (simp add: weight_def)
  next
    case False
    then show ?thesis using weight_nonneg res q by (simp add: list_all_iff)
  qed
  then have "(\<Sum>p \<leftarrow> calls s. if granted p then arg p else 0) \<le> (\<Sum>q \<leftarrow> calls s. weight (Max ?X) q)"
    by (intro sum_list_mono)
  also have "\<dots> \<le> Max ?X" using inv p by (simp add: ledger_inv_def)
  also have "\<dots> \<le> limit + bmax"
    using granted_within [OF p(2,3)] inv p(1) by (simp add: ledger_inv_def conf_ok_def list_all_iff)
  finally show ?thesis .
qed

section \<open>Properties\<close>

definition opened :: "gotime \<Rightarrow> BudgetParams \<Rightarrow> conf" where
  "opened t0 p = \<lparr> win = window (fresh_state t0 p), calls = [] \<rparr>"

lemma opened_ok: "params_ok p \<Longrightarrow> conf_ok (bp_LimitTokens p) (bp_BurstTokens p) (opened t0 p)"
  using workload_ok_fresh [of p t0]
  by (auto simp: conf_ok_def opened_def shared_ok_def workload_ok_def fresh_state_def params_ok_def)

text \<open>
  A call that runs without interference takes at most eight atomic steps, and those
  steps do exactly what the sequential operation does: \<open>Reserve\<close> and \<open>Record\<close> on a window
  are the compositions of their atomic steps, for every window, amount and clock.
\<close>

lemma calls_alone_are_sequential:
  "alone 8 limit clk (w, ReserveAdd est) = reserve_result est (reserve_window clk est limit w) \<and>
   alone 8 limit clk (w, RecordAdd k) = record_result (record_window clk k limit w)"
  by (simp add: alone_reserve alone_record)


text \<open>
  The run of two concurrent reservations of 3000 tokens against a limit of 5000 in which
  both add before either reads the total.
\<close>

definition clash_start :: conf where
  "clash_start = (opened 0 demo_params)\<lparr> calls := [ReserveAdd 3000, ReserveAdd 3000] \<rparr>"

definition clash_steps :: "nat list" where
  "clash_steps = [0, 1, 0, 1, 0, 1, 0, 1, 0, 0, 0, 1, 1, 1]"

definition clash_end :: conf where
  "clash_end = fold (\<lambda>i s. fire 5000 0 i s) clash_steps clash_start"

lemma clash_calls: "calls clash_end =
   [Reserved 3000 \<lparr> WindowTokensUsed = 3000, WindowTokensLimit = 5000, bs_BurstRemaining = 0 \<rparr> False,
    Reserved 3000 \<lparr> WindowTokensUsed = 0, WindowTokensLimit = 5000, bs_BurstRemaining = 0 \<rparr> False]"
  by code_simp

lemma fold_fire_reaches:
  assumes "clocks now" "list_all (\<lambda>i. i < length (calls s)) ixs"
  shows "(sched limit clocks starts)\<^sup>*\<^sup>* s (fold (\<lambda>i s. fire limit now i s) ixs s)"
  using assms(2)
proof (induction ixs arbitrary: s)
  case (Cons i ixs)
  then have "sched limit clocks starts s (fire limit now i s)"
    using sched_fire [of i s clocks now] assms(1) by simp
  moreover have "list_all (\<lambda>j. j < length (calls (fire limit now i s))) ixs"
    using Cons.prems by (simp add: fire_def split_beta)
  ultimately show ?case using Cons.IH by (simp add: converse_rtranclp_into_rtranclp)
qed simp

lemma clash_reached:
  assumes "clocks 0" "starts (ReserveAdd 3000)"
  shows "(sched 5000 clocks starts)\<^sup>*\<^sup>* (opened 0 demo_params) clash_end"
proof -
  let ?s1 = "(opened 0 demo_params)\<lparr> calls := [ReserveAdd 3000] \<rparr>"
  have "sched 5000 clocks starts (opened 0 demo_params) ?s1"
    using new_call [where starts = starts and p = "ReserveAdd 3000"
        and s = "opened 0 demo_params" and limit = 5000 and clocks = clocks] assms(2) by (simp add: opened_def)
  moreover have "sched 5000 clocks starts ?s1 clash_start"
    using new_call [where starts = starts and p = "ReserveAdd 3000" and s = ?s1
        and limit = 5000 and clocks = clocks] assms(2) by (simp add: clash_start_def)
  moreover have "(sched 5000 clocks starts)\<^sup>*\<^sup>* clash_start clash_end"
    using fold_fire_reaches [where clocks = clocks and now = 0 and s = clash_start
        and ixs = clash_steps and limit = 5000 and starts = starts] assms(1)
    by (simp add: clash_end_def clash_steps_def clash_start_def)
  ultimately show ?thesis by (meson converse_rtranclp_into_rtranclp)
qed


lemma reserved_le_granted:
  "reserving c \<Longrightarrow> (case c of Reserved est st True \<Rightarrow> est | _ \<Rightarrow> 0) \<le> (if granted c then arg c else 0)"
  by (cases c rule: granted.cases) auto

text \<open>
  C17. Concurrent reservations never oversubscribe the budget. However the atomic steps of
  any number of reservations of non-negative amounts made within one second interleave,
  the sum of the granted reservations is at most the limit plus the burst allowance, as
  long as the sum of all requested amounts fits into an \<open>int64\<close>.
\<close>

theorem concurrent_reservations_within_capacity:
  assumes "params_ok p" "sec t0 = T"
    and "(sched (bp_LimitTokens p) (\<lambda>now. sec now = T) new_reservation)\<^sup>*\<^sup>* (opened t0 p) s"
    and "(\<Sum>c \<leftarrow> calls s. arg c) \<le> 9223372036854775807"
  shows "(\<Sum>c \<leftarrow> calls s. case c of Reserved est st True \<Rightarrow> est | _ \<Rightarrow> 0)
     \<le> bp_LimitTokens p + bp_BurstTokens p"
proof -
  have "ledger_inv (bp_LimitTokens p) (bp_BurstTokens p) T (opened t0 p)"
    using opened_ok [OF assms(1), of t0] assms(2) by (simp add: ledger_inv_def opened_def fresh_state_def)
  then have inv: "ledger_inv (bp_LimitTokens p) (bp_BurstTokens p) T s"
    by (rule reachable_ledger [OF assms(3) _ assms(4)])
  have "(case c of Reserved est st True \<Rightarrow> est | _ \<Rightarrow> 0) \<le> (if granted c then arg c else 0)"
    if "c \<in> set (calls s)" for c
    using reserved_le_granted that inv by (simp add: ledger_inv_def list_all_iff)
  then have "(\<Sum>c \<leftarrow> calls s. case c of Reserved est st True \<Rightarrow> est | _ \<Rightarrow> 0)
      \<le> (\<Sum>c \<leftarrow> calls s. if granted c then arg c else 0)"
    by (intro sum_list_mono)
  with granted_sum_le [OF inv] show ?thesis by linarith
qed

theorem concurrent_reservations_within_capacity_witness:
  "(\<Sum>c \<leftarrow> calls clash_end. case c of Reserved est st True \<Rightarrow> est | _ \<Rightarrow> 0) \<le> 5000"
  using concurrent_reservations_within_capacity [OF demo_params_ok, of 0 0 clash_end]
    clash_reached [of "\<lambda>now. sec now = 0" new_reservation]
  by (simp add: demo_params_def clash_calls sec_def)

text \<open>
  C38. A reservation as a whole is not atomic. There is an interleaving of two reservations
  of 3000 tokens against an empty window with a limit of 5000 in which both are refused,
  although one after the other, in either order, the first is granted. The refusal also
  reports a usage below the limit.
\<close>

theorem concurrent_reservations_not_atomic:
  "\<exists>s st1 st2.
     (sched 5000 (\<lambda>now. now = 0) new_reservation)\<^sup>*\<^sup>* (opened 0 demo_params) s \<and>
     calls s = [Reserved 3000 st1 False, Reserved 3000 st2 False] \<and>
     WindowTokensUsed st1 \<le> 5000 \<and> WindowTokensUsed st2 \<le> 5000 \<and>
     (\<exists>st w. reserve_window (\<lambda>_. 0) 3000 5000 (win (opened 0 demo_params)) = (Returns (st, True), w))"
proof -
  have "\<exists>st w. reserve_window (\<lambda>_. 0) 3000 5000 (win (opened 0 demo_params)) = (Returns (st, True), w)"
  proof -
    have "fst (reserve_window (\<lambda>_. 0) 3000 5000 (win (opened 0 demo_params))) =
        Returns (\<lparr> WindowTokensUsed = 3000, WindowTokensLimit = 5000, bs_BurstRemaining = 0 \<rparr>, True)"
      by code_simp
    then show ?thesis by (metis prod.collapse)
  qed
  moreover have "(sched 5000 (\<lambda>now. now = 0) new_reservation)\<^sup>*\<^sup>* (opened 0 demo_params) clash_end"
    by (rule clash_reached) simp_all
  ultimately show ?thesis using clash_calls by fastforce
qed

end
