(* ===== verification/Config.thy ===== *)
theory Config
  imports Koshi_Prelude
begin

text \<open>
  \<^verbatim>\<open>internal/config/config.go\<close>: the configuration records, their validation for
  standalone use and for sidecars, the built-in sidecar policies and default configurations.

  Reading the file and the YAML decoder are arguments of \<open>Parse\<close> and \<open>Load\<close>. A Go map is
  visited in no particular order, so \<open>Upstreams\<close> is an association list (with distinct
  keys): its order stands for one possible order of the iteration. Which of several errors is
  reported may depend on it; whether one is reported does not
  (\<open>validation_ignores_map_order\<close>).
\<close>

section \<open>Records\<close>

record Mode =
  md_Type :: string

record Identity =
  idn_Mode :: string
  idn_Key :: string

record ModelTarget =
  mt_Provider :: string
  mt_Model :: string

record Workload =
  wl_ID :: string
  wl_Type :: string
  wl_OwnerTeam :: string
  wl_Environment :: string
  wl_Identity :: Identity
  wl_ModelTargets :: "ModelTarget list"
  wl_PolicyRefs :: "string list"

record RollingTokenBudget =
  rb_WindowSeconds :: int
  rb_LimitTokens :: int
  rb_BurstTokens :: int

record Budgets =
  RollingTokens :: RollingTokenBudget

record Guards =
  MaxTokensPerRequest :: int

record TierAction =
  ta_Action :: string

record DecisionTiers =
  Tier1Auto :: TierAction
  Tier3Platform :: TierAction

record Policy =
  pol_ID :: string
  pol_Budgets :: Budgets
  pol_Guards :: Guards
  pol_DecisionTiers :: DecisionTiers

record Config =
  cfg_Mode :: Mode
  cfg_Upstreams :: "(string \<times> string) list"
  cfg_Workloads :: "Workload list"
  cfg_Policies :: "Policy list"
  cfg_DefaultPolicy :: "Policy option"
  cfg_StrictMode :: bool
  cfg_SSEExtraction :: "bool option"
  cfg_ResponseHeaderTimeout :: int
  cfg_ListenAddr :: string

section \<open>Errors\<close>

datatype policy_error =
    WindowSecondsNotPositive int
  | LimitTokensNotPositive int
  | BurstTokensNegative int
  | MaxTokensPerRequestNegative int

datatype config_error =
    ReadFileError string
  | ParseYamlError string
  | ValidateError config_error
  | ModeTypeInvalid string
  | NoUpstreams
  | UpstreamURLEmpty string
  | GoogleUpstream
  | PolicyIDEmpty
  | DuplicatePolicyID string
  | InPolicy string policy_error
  | InDefaultPolicy policy_error
  | ListenerNeedsDefaultPolicy
  | WorkloadIDEmpty
  | DuplicateWorkloadID string
  | IdentityModeInvalid string string
  | IdentityKeyEmpty string
  | UnknownPolicyRef string string
  | NoPolicyRefs string
  | IdentityKeysDiffer string string string string
  | NoPolicies
  | WorkloadsInSidecarConfig

section \<open>Validation\<close>

definition validatePolicy :: "Policy \<Rightarrow> policy_error option" where
  "validatePolicy p =
     (let b = RollingTokens (pol_Budgets p) in
      if rb_WindowSeconds b \<le> 0 then Some (WindowSecondsNotPositive (rb_WindowSeconds b))
      else if rb_LimitTokens b \<le> 0 then Some (LimitTokensNotPositive (rb_LimitTokens b))
      else if rb_BurstTokens b < 0 then Some (BurstTokensNegative (rb_BurstTokens b))
      else if MaxTokensPerRequest (pol_Guards p) < 0
        then Some (MaxTokensPerRequestNegative (MaxTokensPerRequest (pol_Guards p)))
      else None)"

primrec check_upstreams :: "(string \<times> string) list \<Rightarrow> config_error option" where
  "check_upstreams [] = None"
| "check_upstreams (e # es) = (case e of (name, url) \<Rightarrow>
     if url = '''' then Some (UpstreamURLEmpty name)
     else if name = ''google'' then Some GoogleUpstream
     else check_upstreams es)"

text \<open>The loop over the policies; \<open>policyIDs\<close> are the identifiers met so far.\<close>

primrec check_policies :: "string set \<Rightarrow> Policy list \<Rightarrow> config_error + string set" where
  "check_policies policyIDs [] = Inr policyIDs"
| "check_policies policyIDs (p # ps) =
     (if pol_ID p = '''' then Inl PolicyIDEmpty
      else if pol_ID p \<in> policyIDs then Inl (DuplicatePolicyID (pol_ID p))
      else case validatePolicy p of
             Some e \<Rightarrow> Inl (InPolicy (pol_ID p) e)
           | None \<Rightarrow> check_policies (insert (pol_ID p) policyIDs) ps)"

primrec check_refs :: "string \<Rightarrow> string set \<Rightarrow> string list \<Rightarrow> config_error option" where
  "check_refs wid policyIDs [] = None"
| "check_refs wid policyIDs (ref # refs) =
     (if ref \<notin> policyIDs then Some (UnknownPolicyRef wid ref) else check_refs wid policyIDs refs)"

text \<open>The loop over the workloads; it returns the ones identified by a header.\<close>

primrec check_workloads ::
  "string set \<Rightarrow> string set \<Rightarrow> Workload list \<Rightarrow> Workload list \<Rightarrow> config_error + Workload list" where
  "check_workloads policyIDs workloadIDs headerWorkloads [] = Inr headerWorkloads"
| "check_workloads policyIDs workloadIDs headerWorkloads (w # ws) =
     (let i = wl_Identity w in
      if wl_ID w = '''' then Inl WorkloadIDEmpty
      else if wl_ID w \<in> workloadIDs then Inl (DuplicateWorkloadID (wl_ID w))
      else if idn_Mode i \<noteq> ''header'' \<and> idn_Mode i \<noteq> ''pod''
        then Inl (IdentityModeInvalid (wl_ID w) (idn_Mode i))
      else if idn_Mode i = ''header'' \<and> idn_Key i = '''' then Inl (IdentityKeyEmpty (wl_ID w))
      else case check_refs (wl_ID w) policyIDs (wl_PolicyRefs w) of
             Some e \<Rightarrow> Inl e
           | None \<Rightarrow>
               if wl_PolicyRefs w = [] then Inl (NoPolicyRefs (wl_ID w))
               else check_workloads policyIDs (insert (wl_ID w) workloadIDs)
                 (if idn_Mode i = ''header'' then headerWorkloads @ [w] else headerWorkloads) ws)"

primrec check_keys :: "Workload \<Rightarrow> Workload list \<Rightarrow> config_error option" where
  "check_keys first [] = None"
| "check_keys first (w # ws) =
     (if idn_Key (wl_Identity w) \<noteq> idn_Key (wl_Identity first)
      then Some (IdentityKeysDiffer (wl_ID first) (idn_Key (wl_Identity first))
                   (wl_ID w) (idn_Key (wl_Identity w)))
      else check_keys first ws)"

definition check_header_keys :: "Workload list \<Rightarrow> config_error option" where
  "check_header_keys headerWorkloads =
     (case headerWorkloads of [] \<Rightarrow> None | first # rest \<Rightarrow> check_keys first rest)"

text \<open>The default listen address of listener mode.\<close>

definition default_listen :: "Config \<Rightarrow> Config" where
  "default_listen c = (if cfg_ListenAddr c = '''' then c\<lparr> cfg_ListenAddr := '':15080'' \<rparr> else c)"

definition normalize_mode :: "Config \<Rightarrow> Config" where
  "normalize_mode c =
     (if md_Type (cfg_Mode c) = '''' then c\<lparr> cfg_Mode := \<lparr> md_Type = ''enforcement'' \<rparr> \<rparr> else c)"

text \<open>\<open>Validate\<close> returns the first error found, and the configuration it has normalised.\<close>

definition Validate :: "Config \<Rightarrow> config_error option \<times> Config" where
  "Validate c0 =
     (let c = normalize_mode c0; mode = md_Type (cfg_Mode c) in
      if mode \<noteq> ''listener'' \<and> mode \<noteq> ''enforcement'' then (Some (ModeTypeInvalid mode), c)
      else if cfg_Upstreams c = [] then (Some NoUpstreams, c)
      else case check_upstreams (cfg_Upstreams c) of Some e \<Rightarrow> (Some e, c) | None \<Rightarrow>
      (case check_policies {} (cfg_Policies c) of Inl e \<Rightarrow> (Some e, c) | Inr policyIDs \<Rightarrow>
      (case Option.bind (cfg_DefaultPolicy c) validatePolicy of
         Some e \<Rightarrow> (Some (InDefaultPolicy e), c)
       | None \<Rightarrow>
      if mode = ''listener'' \<and> cfg_Workloads c = [] then
        (if cfg_DefaultPolicy c = None then (Some ListenerNeedsDefaultPolicy, c)
         else (None, default_listen c))
      else case check_workloads policyIDs {} [] (cfg_Workloads c) of Inl e \<Rightarrow> (Some e, c)
       | Inr headerWorkloads \<Rightarrow>
      (case check_header_keys headerWorkloads of Some e \<Rightarrow> (Some e, c)
       | None \<Rightarrow> (None, if mode = ''listener'' then default_listen c else c)))))"

definition ValidateSidecarConfig :: "Config \<Rightarrow> config_error option" where
  "ValidateSidecarConfig c =
     (let mode = md_Type (cfg_Mode c) in
      if mode \<noteq> '''' \<and> mode \<noteq> ''listener'' \<and> mode \<noteq> ''enforcement'' then Some (ModeTypeInvalid mode)
      else if cfg_Upstreams c = [] then Some NoUpstreams
      else case check_upstreams (cfg_Upstreams c) of Some e \<Rightarrow> Some e | None \<Rightarrow>
      if cfg_Policies c = [] then Some NoPolicies
      else case check_policies {} (cfg_Policies c) of Inl e \<Rightarrow> Some e | Inr _ \<Rightarrow>
      if cfg_Workloads c \<noteq> [] then Some WorkloadsInSidecarConfig else None)"

definition Parse ::
  "(string \<Rightarrow> string + string) \<Rightarrow> (string \<Rightarrow> string + Config) \<Rightarrow> string \<Rightarrow> config_error + Config" where
  "Parse read_file unmarshal path =
     (case read_file path of Inl e \<Rightarrow> Inl (ReadFileError e) | Inr data \<Rightarrow>
      (case unmarshal data of Inl e \<Rightarrow> Inl (ParseYamlError e) | Inr cfg \<Rightarrow> Inr cfg))"

definition Load ::
  "(string \<Rightarrow> string + string) \<Rightarrow> (string \<Rightarrow> string + Config) \<Rightarrow> string \<Rightarrow> config_error + Config" where
  "Load read_file unmarshal path =
     (case Parse read_file unmarshal path of Inl e \<Rightarrow> Inl e | Inr cfg \<Rightarrow>
      (case Validate cfg of (Some e, _) \<Rightarrow> Inl (ValidateError e) | (None, cfg) \<Rightarrow> Inr cfg))"

section \<open>Built-in configurations\<close>

definition mk_policy :: "string \<Rightarrow> int \<Rightarrow> int \<Rightarrow> int \<Rightarrow> int \<Rightarrow> string \<Rightarrow> string \<Rightarrow> Policy" where
  "mk_policy i window_seconds limit_tokens burst_tokens max_tokens tier1 tier3 =
     \<lparr> pol_ID = i,
       pol_Budgets = \<lparr> RollingTokens = \<lparr> rb_WindowSeconds = window_seconds,
          rb_LimitTokens = limit_tokens, rb_BurstTokens = burst_tokens \<rparr> \<rparr>,
       pol_Guards = \<lparr> MaxTokensPerRequest = max_tokens \<rparr>,
       pol_DecisionTiers = \<lparr> Tier1Auto = \<lparr> ta_Action = tier1 \<rparr>,
          Tier3Platform = \<lparr> ta_Action = tier3 \<rparr> \<rparr> \<rparr>"

definition SidecarPolicyCatalog :: "Policy list" where
  "SidecarPolicyCatalog =
     [mk_policy ''sidecar-baseline'' 3600 100000 10000 4096 ''throttle'' ''kill_workload'',
      mk_policy ''sidecar-strict'' 3600 25000 2500 2048 ''throttle'' ''kill_workload'',
      mk_policy ''sidecar-high-throughput'' 3600 500000 50000 32768 ''throttle'' '''']"

definition DefaultSidecarPolicyID :: string where
  "DefaultSidecarPolicyID = ''sidecar-baseline''"

definition default_upstreams :: "(string \<times> string) list" where
  "default_upstreams = [(''openai'', ''https://api.openai.com''),
                        (''anthropic'', ''https://api.anthropic.com'')]"

definition DefaultListenerConfig :: Config where
  "DefaultListenerConfig =
     \<lparr> cfg_Mode = \<lparr> md_Type = ''listener'' \<rparr>, cfg_Upstreams = default_upstreams, cfg_Workloads = [],
       cfg_Policies = SidecarPolicyCatalog,
       cfg_DefaultPolicy = Some (mk_policy ''_listener_default'' 3600 1000000 0 32768 ''throttle'' ''''),
       cfg_StrictMode = False, cfg_SSEExtraction = None, cfg_ResponseHeaderTimeout = 0,
       cfg_ListenAddr = '':15080'' \<rparr>"

definition DefaultEnforcementSidecarConfig :: Config where
  "DefaultEnforcementSidecarConfig =
     \<lparr> cfg_Mode = \<lparr> md_Type = ''enforcement'' \<rparr>, cfg_Upstreams = default_upstreams, cfg_Workloads = [],
       cfg_Policies = SidecarPolicyCatalog, cfg_DefaultPolicy = None,
       cfg_StrictMode = False, cfg_SSEExtraction = None, cfg_ResponseHeaderTimeout = 0,
       cfg_ListenAddr = '':15080'' \<rparr>"

definition SSEExtractionEnabled :: "Config \<Rightarrow> bool" where
  "SSEExtractionEnabled c = (case cfg_SSEExtraction c of None \<Rightarrow> True | Some b \<Rightarrow> b)"

section \<open>The declarative specification\<close>

definition policy_valid :: "Policy \<Rightarrow> bool" where
  "policy_valid p \<longleftrightarrow> (let b = RollingTokens (pol_Budgets p) in
     0 < rb_WindowSeconds b \<and> 0 < rb_LimitTokens b \<and> 0 \<le> rb_BurstTokens b \<and>
     0 \<le> MaxTokensPerRequest (pol_Guards p))"

definition upstreams_valid :: "(string \<times> string) list \<Rightarrow> bool" where
  "upstreams_valid ups \<longleftrightarrow> ups \<noteq> [] \<and> (\<forall>(name, url) \<in> set ups. url \<noteq> '''' \<and> name \<noteq> ''google'')"

definition policies_valid :: "Policy list \<Rightarrow> bool" where
  "policies_valid ps \<longleftrightarrow> distinct (map pol_ID ps) \<and> (\<forall>p \<in> set ps. pol_ID p \<noteq> '''' \<and> policy_valid p)"

definition workload_valid :: "string set \<Rightarrow> Workload \<Rightarrow> bool" where
  "workload_valid policyIDs w \<longleftrightarrow> wl_ID w \<noteq> '''' \<and>
     (idn_Mode (wl_Identity w) = ''pod'' \<or>
      idn_Mode (wl_Identity w) = ''header'' \<and> idn_Key (wl_Identity w) \<noteq> '''') \<and>
     wl_PolicyRefs w \<noteq> [] \<and> set (wl_PolicyRefs w) \<subseteq> policyIDs"

definition by_header :: "Workload list \<Rightarrow> Workload list" where
  "by_header = filter (\<lambda>w. idn_Mode (wl_Identity w) = ''header'')"

definition workloads_valid :: "string set \<Rightarrow> Workload list \<Rightarrow> bool" where
  "workloads_valid policyIDs ws \<longleftrightarrow> distinct (map wl_ID ws) \<and>
     (\<forall>w \<in> set ws. workload_valid policyIDs w) \<and>
     (\<forall>v \<in> set (by_header ws). \<forall>w \<in> set (by_header ws).
        idn_Key (wl_Identity v) = idn_Key (wl_Identity w))"

definition config_valid :: "Config \<Rightarrow> bool" where
  "config_valid c \<longleftrightarrow>
     md_Type (cfg_Mode c) \<in> {'''', ''listener'', ''enforcement''} \<and>
     upstreams_valid (cfg_Upstreams c) \<and> policies_valid (cfg_Policies c) \<and>
     pred_option policy_valid (cfg_DefaultPolicy c) \<and>
     workloads_valid (pol_ID ` set (cfg_Policies c)) (cfg_Workloads c) \<and>
     (md_Type (cfg_Mode c) = ''listener'' \<and> cfg_Workloads c = [] \<longrightarrow> cfg_DefaultPolicy c \<noteq> None)"

lemma validatePolicy_None [simp]: "validatePolicy p = None \<longleftrightarrow> policy_valid p"
  by (auto simp: validatePolicy_def policy_valid_def Let_def)

lemma check_upstreams_None:
  "check_upstreams ups = None \<longleftrightarrow> (\<forall>(name, url) \<in> set ups. url \<noteq> '''' \<and> name \<noteq> ''google'')"
  by (induction ups) (auto split: prod.splits)

lemma check_policies_Inr:
  "check_policies ids ps = Inr ids' \<longleftrightarrow>
     policies_valid ps \<and> pol_ID ` set ps \<inter> ids = {} \<and> ids' = ids \<union> pol_ID ` set ps"
proof (induction ps arbitrary: ids)
  case (Cons p ps)
  show ?case
    using Cons.IH [of "insert (pol_ID p) ids"] validatePolicy_None [of p]
    by (auto simp: policies_valid_def simp del: validatePolicy_None split: option.splits)
qed (auto simp: policies_valid_def)

lemma check_refs_None: "check_refs wid ids refs = None \<longleftrightarrow> set refs \<subseteq> ids"
  by (induction refs) auto

lemma check_workloads_Inr:
  "check_workloads ids seen hs ws = Inr hs' \<longleftrightarrow>
     distinct (map wl_ID ws) \<and> (\<forall>w \<in> set ws. workload_valid ids w) \<and>
     wl_ID ` set ws \<inter> seen = {} \<and> hs' = hs @ by_header ws"
proof (induction ws arbitrary: seen hs)
  case (Cons w ws)
  show ?case
    using Cons.IH [of "insert (wl_ID w) seen"] check_refs_None [of "wl_ID w" ids "wl_PolicyRefs w"]
    by (auto simp: workload_valid_def by_header_def Let_def split: option.splits)
qed (auto simp: by_header_def)

lemma check_keys_None:
  "check_keys v ws = None \<longleftrightarrow> (\<forall>w \<in> set ws. idn_Key (wl_Identity w) = idn_Key (wl_Identity v))"
  by (induction ws) auto

lemma check_header_keys_None:
  "check_header_keys hs = None \<longleftrightarrow>
     (\<forall>v \<in> set hs. \<forall>w \<in> set hs. idn_Key (wl_Identity v) = idn_Key (wl_Identity w))"
  by (cases hs) (auto simp: check_header_keys_def check_keys_None)

lemma bind_validatePolicy_None [simp]:
  "Option.bind d validatePolicy = None \<longleftrightarrow> pred_option policy_valid d"
  by (cases d) auto

definition sidecar_valid :: "Config \<Rightarrow> bool" where
  "sidecar_valid c \<longleftrightarrow>
     md_Type (cfg_Mode c) \<in> {'''', ''listener'', ''enforcement''} \<and>
     upstreams_valid (cfg_Upstreams c) \<and> cfg_Policies c \<noteq> [] \<and> policies_valid (cfg_Policies c) \<and>
     cfg_Workloads c = []"

lemma normalize_frame [simp, frame_simps]:
  "cfg_Upstreams (normalize_mode c) = cfg_Upstreams c"
  "cfg_Policies (normalize_mode c) = cfg_Policies c"
  "cfg_DefaultPolicy (normalize_mode c) = cfg_DefaultPolicy c"
  "cfg_Workloads (normalize_mode c) = cfg_Workloads c"
  "cfg_StrictMode (normalize_mode c) = cfg_StrictMode c"
  "cfg_ListenAddr (normalize_mode c) = cfg_ListenAddr c"
  by (simp_all add: normalize_mode_def)

lemma default_listen_frame [simp, frame_simps]:
  "cfg_Mode (default_listen c) = cfg_Mode c"
  "cfg_Upstreams (default_listen c) = cfg_Upstreams c"
  "cfg_Policies (default_listen c) = cfg_Policies c"
  "cfg_DefaultPolicy (default_listen c) = cfg_DefaultPolicy c"
  "cfg_Workloads (default_listen c) = cfg_Workloads c"
  "cfg_StrictMode (default_listen c) = cfg_StrictMode c"
  by (simp_all add: default_listen_def)

lemma policies_checked:
  "check_policies {} ps = (if policies_valid ps then Inr (pol_ID ` set ps)
     else Inl (projl (check_policies {} ps)))"
  using check_policies_Inr [of "{}" ps] by (cases "check_policies {} ps") auto

lemma workloads_checked:
  "(case check_workloads ids {} [] ws of Inl e \<Rightarrow> Some e | Inr hs \<Rightarrow> check_header_keys hs) = None
     \<longleftrightarrow> workloads_valid ids ws"
proof (cases "check_workloads ids {} [] ws")
  case (Inl e)
  then show ?thesis
    using check_workloads_Inr [of ids "{}" "[]" ws "by_header ws"] by (auto simp: workloads_valid_def)
next
  case (Inr hs)
  then show ?thesis
    using check_workloads_Inr [of ids "{}" "[]" ws hs]
    by (simp add: workloads_valid_def check_header_keys_None)
qed

lemma upstreams_checked:
  "upstreams_valid ups \<longleftrightarrow> ups \<noteq> [] \<and> check_upstreams ups = None"
  by (simp add: upstreams_valid_def check_upstreams_None)

lemma normalised_mode:
  "md_Type (cfg_Mode (normalize_mode c)) = ''listener'' \<or> md_Type (cfg_Mode (normalize_mode c)) = ''enforcement''
     \<longleftrightarrow> md_Type (cfg_Mode c) \<in> {'''', ''listener'', ''enforcement''}"
  "md_Type (cfg_Mode (normalize_mode c)) = ''listener'' \<longleftrightarrow> md_Type (cfg_Mode c) = ''listener''"
  by (simp_all add: normalize_mode_def)

lemma workloads_valid_Nil [simp]: "workloads_valid ids []"
  by (simp add: workloads_valid_def by_header_def)

text \<open>The chain of checks of \<open>Validate\<close>, with the outcome of each one named.\<close>

lemma Validate_chain:
  "fst (Validate c) = None \<longleftrightarrow>
     (md_Type (cfg_Mode (normalize_mode c)) = ''listener'' \<or>
      md_Type (cfg_Mode (normalize_mode c)) = ''enforcement'') \<and>
     cfg_Upstreams c \<noteq> [] \<and> check_upstreams (cfg_Upstreams c) = None \<and>
     policies_valid (cfg_Policies c) \<and> Option.bind (cfg_DefaultPolicy c) validatePolicy = None \<and>
     (if md_Type (cfg_Mode (normalize_mode c)) = ''listener'' \<and> cfg_Workloads c = []
      then cfg_DefaultPolicy c \<noteq> None
      else (case check_workloads (pol_ID ` set (cfg_Policies c)) {} [] (cfg_Workloads c) of
              Inl e \<Rightarrow> Some e | Inr hs \<Rightarrow> check_header_keys hs) = None)"
  unfolding Validate_def Let_def normalize_frame
  by (subst policies_checked [of "cfg_Policies c"])
    (simp del: bind_validatePolicy_None split: option.split sum.split)

lemma Validate_iff: "fst (Validate c) = None \<longleftrightarrow> config_valid c"
proof (cases "cfg_Workloads c = []")
  case True
  show ?thesis
    unfolding Validate_chain config_valid_def upstreams_checked normalised_mode(1) bind_validatePolicy_None
      workloads_checked True
    unfolding normalised_mode(2)
    by (simp only: workloads_valid_Nil simp_thms if_True if_False split: if_split) blast
next
  case False
  then show ?thesis
    unfolding Validate_chain config_valid_def upstreams_checked normalised_mode(1) bind_validatePolicy_None
      workloads_checked
    unfolding normalised_mode(2)
    by (simp only: simp_thms if_False) blast
qed

lemma Validate_result:
  assumes "fst (Validate c) = None"
  shows "snd (Validate c) = (if md_Type (cfg_Mode (normalize_mode c)) = ''listener''
      then default_listen (normalize_mode c) else normalize_mode c)"
proof -
  note chain = assms [unfolded Validate_chain]
  have pol: "check_policies {} (cfg_Policies c) = Inr (pol_ID ` set (cfg_Policies c))"
    using chain policies_checked [of "cfg_Policies c"] by simp
  have dp: "Option.bind (cfg_DefaultPolicy c) validatePolicy = None" using chain by (simp only:)
  obtain hs where hs: "check_header_keys hs = None"
      "check_workloads (pol_ID ` set (cfg_Policies c)) {} [] (cfg_Workloads c) = Inr hs"
    if "\<not> (md_Type (cfg_Mode (normalize_mode c)) = ''listener'' \<and> cfg_Workloads c = [])"
    using chain by (fastforce split: sum.splits)
  show ?thesis
  proof (cases "md_Type (cfg_Mode (normalize_mode c)) = ''listener'' \<and> cfg_Workloads c = []")
    case True
    with chain show ?thesis unfolding Validate_def Let_def normalize_frame pol dp by auto
  next
    case False
    with chain hs [OF False] show ?thesis unfolding Validate_def Let_def normalize_frame pol dp by simp
  qed
qed

lemma config_valid_normalised:
  "config_valid c \<Longrightarrow> config_valid (snd (Validate c))"
  by (auto simp: Validate_iff [symmetric] Validate_result)
    (auto simp: Validate_iff config_valid_def normalize_mode_def)

section \<open>Properties\<close>

text \<open>
  C7. \<open>Validate\<close> accepts exactly the well-formed configurations: a known mode, at least
  one upstream with non-empty URLs and none for Google, policies with distinct non-empty
  identifiers and sensible numbers, a valid default policy if there is one, workloads with
  distinct non-empty identifiers, a supported identity mode, at least one policy reference
  and only known ones, one header key for all header-identified workloads, and a default
  policy when a listener has no workloads.
\<close>

theorem validate_accepts_exactly_valid:
  "(fst (Validate c) = None) = config_valid c"
  by (rule Validate_iff)

text \<open>
  C35. \<open>ValidateSidecarConfig\<close> accepts exactly the configurations that have a known or
  absent mode, valid upstreams, at least one policy, valid policies and no workloads.
\<close>

theorem sidecar_validation_accepts_exactly_valid:
  "(ValidateSidecarConfig c = None) = sidecar_valid c"
proof -
  have "(md_Type (cfg_Mode c) \<noteq> '''' \<and> md_Type (cfg_Mode c) \<noteq> ''listener'' \<and>
      md_Type (cfg_Mode c) \<noteq> ''enforcement'') \<longleftrightarrow>
    md_Type (cfg_Mode c) \<notin> {'''', ''listener'', ''enforcement''}" by simp
  then show ?thesis
    unfolding ValidateSidecarConfig_def Let_def sidecar_valid_def upstreams_checked
    by (subst policies_checked [of "cfg_Policies c"]) (simp split: option.split sum.split)
qed

text \<open>
  The verdict does not depend on the order in which Go visits the upstream map: two
  configurations that differ only in the order of the same upstream entries are both
  accepted or both rejected, standalone and as sidecar configurations.
\<close>

lemma validation_ignores_map_order:
  assumes "set ups = set (cfg_Upstreams c)"
  shows "(fst (Validate (c\<lparr> cfg_Upstreams := ups \<rparr>)) = None) = (fst (Validate c) = None) \<and>
    (ValidateSidecarConfig (c\<lparr> cfg_Upstreams := ups \<rparr>) = None) = (ValidateSidecarConfig c = None)"
proof -
  have "ups = [] \<longleftrightarrow> cfg_Upstreams c = []" using assms by (metis set_empty)
  moreover have "check_upstreams ups = None \<longleftrightarrow> check_upstreams (cfg_Upstreams c) = None"
    using assms by (simp add: check_upstreams_None)
  ultimately show ?thesis
    unfolding Validate_iff using assms
    by (auto simp: config_valid_def upstreams_valid_def ValidateSidecarConfig_def Let_def
        split: option.splits)
qed

text \<open>
  Validation normalises once: when \<open>Validate\<close> accepts a configuration, the one it
  leaves behind has an explicit mode and, for a listener, a listen address; validating it
  again accepts it and changes nothing; upstreams, policies, workloads and the default
  policy are untouched.
\<close>

lemma validation_normalises_once:
  assumes "fst (Validate c) = None"
  shows "Validate (snd (Validate c)) = (None, snd (Validate c)) \<and>
    md_Type (cfg_Mode (snd (Validate c))) \<in> {''listener'', ''enforcement''} \<and>
    (md_Type (cfg_Mode (snd (Validate c))) = ''listener'' \<longrightarrow> cfg_ListenAddr (snd (Validate c)) \<noteq> '''') \<and>
    cfg_Upstreams (snd (Validate c)) = cfg_Upstreams c \<and> cfg_Policies (snd (Validate c)) = cfg_Policies c \<and>
    cfg_Workloads (snd (Validate c)) = cfg_Workloads c \<and>
    cfg_DefaultPolicy (snd (Validate c)) = cfg_DefaultPolicy c"
proof -
  let ?d = "snd (Validate c)"
  note d = Validate_result [OF assms]
  have v: "config_valid c" using assms by (simp add: Validate_iff)
  have modes: "md_Type (cfg_Mode (normalize_mode c)) \<in> {''listener'', ''enforcement''}"
    using v by (auto simp: normalize_mode_def config_valid_def)
  then have fix_mode: "normalize_mode ?d = ?d"
    unfolding d by (auto simp: normalize_mode_def [of "default_listen _"] normalize_mode_def [of "normalize_mode _"])
  have fix_listen: "md_Type (cfg_Mode ?d) = ''listener'' \<Longrightarrow> default_listen ?d = ?d \<and> cfg_ListenAddr ?d \<noteq> ''''"
    unfolding d by (auto simp: default_listen_def split: if_splits)
  have "fst (Validate ?d) = None" using config_valid_normalised [OF v] by (simp add: Validate_iff)
  moreover from Validate_result [OF this] have "snd (Validate ?d) = ?d"
    using fix_mode fix_listen by (simp split: if_splits)
  ultimately have "Validate ?d = (None, ?d)" by (metis prod.collapse)
  then show ?thesis using modes fix_listen unfolding d by auto
qed

text \<open>
  The built-in configurations are valid: the default listener configuration passes
  \<open>Validate\<close> unchanged, the default enforcement sidecar configuration passes both
  validations, and the default sidecar policy is in the built-in catalogue.
\<close>

lemma builtin_configs_valid:
  "Validate DefaultListenerConfig = (None, DefaultListenerConfig) \<and>
   Validate DefaultEnforcementSidecarConfig = (None, DefaultEnforcementSidecarConfig) \<and>
   ValidateSidecarConfig DefaultEnforcementSidecarConfig = None \<and>
   DefaultSidecarPolicyID \<in> pol_ID ` set SidecarPolicyCatalog"
  by (intro conjI; code_simp)

end
