(* ===== verification/Http_Types.thy ===== *)
theory Http_Types
  imports Koshi_Prelude
begin

text \<open>
  The parts of Go's \<^verbatim>\<open>net/http\<close> and \<^verbatim>\<open>net/url\<close> types that the runtime reads or
  writes: requests as the server hands them to a handler, header maps with their canonical
  keys, URLs, and the responses a handler writes.
\<close>

section \<open>Headers\<close>

text \<open>
  \<open>textproto.CanonicalMIMEHeaderKey\<close>: the first letter and every letter after a hyphen in
  upper case, the rest in lower case; a key with a byte that no header name may have is left
  alone.
\<close>

definition byte_upper :: "char \<Rightarrow> char" where
  "byte_upper c = (if 97 \<le> (of_char c :: nat) \<and> (of_char c :: nat) \<le> 122
                   then char_of ((of_char c :: nat) - 32) else c)"

definition header_byte :: "char \<Rightarrow> bool" where
  "header_byte c \<longleftrightarrow> (let n = (of_char c :: nat) in
     48 \<le> n \<and> n \<le> 57 \<or> 65 \<le> n \<and> n \<le> 90 \<or> 97 \<le> n \<and> n \<le> 122 \<or>
     c \<in> set ''!#$%&*+-.^_`|~'' \<or> n = 39)"

fun canonical_bytes :: "bool \<Rightarrow> string \<Rightarrow> string" where
  "canonical_bytes up [] = []"
| "canonical_bytes up (c # cs) =
     (if up then byte_upper c else byte_lower c) # canonical_bytes (c = CHR ''-'') cs"

definition canonical_key :: "string \<Rightarrow> string" where
  "canonical_key k = (if list_all header_byte k then canonical_bytes True k else k)"

type_synonym header = "string \<rightharpoonup> string list"

text \<open>\<open>Header.Get\<close> and \<open>Header.Set\<close>.\<close>

definition header_get :: "header \<Rightarrow> string \<Rightarrow> string" where
  "header_get h k = (case h (canonical_key k) of Some (v # vs) \<Rightarrow> v | _ \<Rightarrow> '''')"

definition header_set :: "header \<Rightarrow> string \<Rightarrow> string \<Rightarrow> header" where
  "header_set h k v = h(canonical_key k \<mapsto> [v])"

lemma header_get_set [simp]:
  "header_get (header_set h k v) j = (if canonical_key j = canonical_key k then v else header_get h j)"
  by (simp add: header_get_def header_set_def)

section \<open>Requests\<close>

record URL =
  url_Scheme :: string
  url_Host :: string
  url_Path :: string
  url_RawQuery :: string

text \<open>
  A request as a handler sees it. \<open>rq_Body\<close> is \<open>None\<close> for a nil body; otherwise the bytes
  that reading it yields, up to its end or its first error (the handler does not look at the
  error).
\<close>

record Request =
  rq_Method :: string
  rq_Host :: string
  rq_URL :: URL
  rq_Header :: header
  rq_Body :: "string option"

lemma byte_cases [simp]:
  "byte_upper (byte_lower c) = byte_upper c" "byte_lower (byte_upper c) = byte_lower c"
  "byte_lower c = CHR ''-'' \<longleftrightarrow> c = CHR ''-''"
  by (auto simp: byte_upper_def byte_lower_def char_of_eq_iff take_bit_eq_mod)

lemma canonical_bytes_lower: "canonical_bytes up (to_lower k) = canonical_bytes up k"
  by (induction up k rule: canonical_bytes.induct) (auto simp: to_lower_def)

lemma header_byte_lower [simp]: "header_byte (byte_lower c) = header_byte c"
  by (auto simp: header_byte_def byte_lower_def Let_def char_of_eq_iff)

text \<open>Header names are matched without regard to case.\<close>

lemma canonical_key_lower: "list_all header_byte k \<Longrightarrow> canonical_key (to_lower k) = canonical_key k"
  by (simp add: canonical_key_def canonical_bytes_lower) (simp add: to_lower_def list_all_iff)

end
