(* ===== verification/Workload_Identity.thy ===== *)
theory Workload_Identity
  imports Http_Types
begin

text \<open>
  \<^verbatim>\<open>internal/identity/\<close>: the identity of the workload behind a request, read from a
  header or from the environment variables the webhook injected into the pod. The environment
  is a function from names to values, the empty string for an unset variable.
\<close>

section \<open>Resolvers\<close>

datatype identity_error = ErrMissingIdentity

record WorkloadIdentity =
  wi_WorkloadID :: string
  wi_Namespace :: string
  wi_WorkloadKind :: string
  wi_WorkloadName :: string

definition no_identity :: WorkloadIdentity where
  "no_identity = \<lparr> wi_WorkloadID = '''', wi_Namespace = '''', wi_WorkloadKind = '''', wi_WorkloadName = '''' \<rparr>"

record HeaderResolver =
  HeaderKey :: string

record PodResolver =
  pr_namespace :: string
  pr_workloadKind :: string
  pr_workloadName :: string
  pr_podName :: string

definition NewHeaderResolver :: "string \<Rightarrow> HeaderResolver" where
  "NewHeaderResolver headerKey = \<lparr> HeaderKey = headerKey \<rparr>"

definition HeaderResolver_Resolve :: "HeaderResolver \<Rightarrow> Request \<Rightarrow> identity_error + WorkloadIdentity" where
  "HeaderResolver_Resolve r req =
     (let val = trim_space (header_get (rq_Header req) (HeaderKey r)) in
      if val = '''' then Inl ErrMissingIdentity
      else Inr (no_identity\<lparr> wi_WorkloadID := val \<rparr>))"

definition NewPodResolver :: "(string \<Rightarrow> string) \<Rightarrow> PodResolver" where
  "NewPodResolver env =
     \<lparr> pr_namespace = trim_space (env ''KOSHI_POD_NAMESPACE''),
       pr_workloadKind = trim_space (env ''KOSHI_WORKLOAD_KIND''),
       pr_workloadName = trim_space (env ''KOSHI_WORKLOAD_NAME''),
       pr_podName = trim_space (env ''KOSHI_POD_NAME'') \<rparr>"

definition NewPodResolverFromValues :: "string \<Rightarrow> string \<Rightarrow> string \<Rightarrow> string \<Rightarrow> PodResolver" where
  "NewPodResolverFromValues ns wkind wname pname =
     \<lparr> pr_namespace = ns, pr_workloadKind = wkind, pr_workloadName = wname, pr_podName = pname \<rparr>"

text \<open>The workload identifier of a pod: namespace, kind and name.\<close>

definition workload_path :: "string \<Rightarrow> string \<Rightarrow> string \<Rightarrow> string" where
  "workload_path ns kind name = ns @ ''/'' @ kind @ ''/'' @ name"

definition PodResolver_Resolve :: "PodResolver \<Rightarrow> Request \<Rightarrow> identity_error + WorkloadIdentity" where
  "PodResolver_Resolve r req =
     (if pr_namespace r = '''' then Inl ErrMissingIdentity
      else
        let fallback = (pr_workloadKind r = '''' \<or> pr_workloadName r = '''') in
        if fallback \<and> pr_podName r = '''' then Inl ErrMissingIdentity
        else
          let kind = (if fallback then ''Pod'' else pr_workloadKind r);
              name = (if fallback then pr_podName r else pr_workloadName r) in
          Inr \<lparr> wi_WorkloadID = workload_path (pr_namespace r) kind name,
                wi_Namespace = pr_namespace r, wi_WorkloadKind = kind, wi_WorkloadName = name \<rparr>)"

datatype Resolver = ByHeader HeaderResolver | ByPod PodResolver

definition Resolve :: "Resolver \<Rightarrow> Request \<Rightarrow> identity_error + WorkloadIdentity" where
  "Resolve rs req = (case rs of ByHeader r \<Rightarrow> HeaderResolver_Resolve r req | ByPod r \<Rightarrow> PodResolver_Resolve r req)"

section \<open>The resolver interface\<close>

text \<open>
  What the request handler relies on: an identity that is resolved is never the empty one,
  so it cannot be confused with the identity the handler uses for requests without one.
\<close>

locale identity_source =
  fixes resolve :: "'r \<Rightarrow> Request \<Rightarrow> identity_error + WorkloadIdentity"
  assumes resolved_nonempty: "resolve r req = Inr i \<Longrightarrow> wi_WorkloadID i \<noteq> ''''"
begin

lemma resolved_not_anonymous: "resolve r req \<noteq> Inr no_identity"
  using resolved_nonempty [of r req no_identity] by (auto simp: no_identity_def)

end

interpretation hdr: identity_source HeaderResolver_Resolve
  by unfold_locales (auto simp: HeaderResolver_Resolve_def Let_def split: if_splits)

interpretation pod: identity_source PodResolver_Resolve
  by unfold_locales (auto simp: PodResolver_Resolve_def Let_def workload_path_def split: if_splits)

interpretation resolver: identity_source Resolve
  by unfold_locales (auto simp: Resolve_def dest: hdr.resolved_nonempty pod.resolved_nonempty
      split: Resolver.splits)

section \<open>Properties of the pod identifier\<close>

text \<open>
  Namespaces and kinds contain no slash, so the identifier determines its three parts.
\<close>

lemma append_slash_inj:
  "\<lbrakk> CHR ''/'' \<notin> set a; CHR ''/'' \<notin> set a'; a @ CHR ''/'' # b = a' @ CHR ''/'' # b' \<rbrakk> \<Longrightarrow> a = a' \<and> b = b'"
proof (induction a arbitrary: a')
  case Nil
  then show ?case by (cases a') auto
next
  case (Cons x a)
  then show ?case by (cases a') auto
qed

lemma workload_path_inj:
  assumes "workload_path ns k n = workload_path ns' k' n'"
    and "CHR ''/'' \<notin> set ns" "CHR ''/'' \<notin> set ns'" "CHR ''/'' \<notin> set k" "CHR ''/'' \<notin> set k'"
  shows "ns = ns' \<and> k = k' \<and> n = n'"
proof -
  have "ns = ns' \<and> k @ CHR ''/'' # n = k' @ CHR ''/'' # n'"
    using assms(1) append_slash_inj [OF assms(2,3)] by (simp add: workload_path_def)
  then show ?thesis using append_slash_inj [OF assms(4,5)] by blast
qed

lemma pod_resolved:
  assumes "PodResolver_Resolve r req = Inr i" "CHR ''/'' \<notin> set (pr_namespace r) \<union> set (pr_workloadKind r)"
  shows "wi_WorkloadID i = workload_path (wi_Namespace i) (wi_WorkloadKind i) (wi_WorkloadName i)"
    "CHR ''/'' \<notin> set (wi_Namespace i)" "CHR ''/'' \<notin> set (wi_WorkloadKind i)"
  using assms by (simp_all add: PodResolver_Resolve_def Let_def split: if_split_asm)
    (auto split: if_splits)

text \<open>
  Pod identities are unambiguous: when two resolvers whose namespaces and kinds contain
  no slash (Kubernetes allows none) resolve to the same workload identifier, they agree on
  namespace, kind and name, so no two workloads share a budget.
\<close>

lemma pod_identity_unambiguous:
  assumes "PodResolver_Resolve r req = Inr i" "PodResolver_Resolve r' req' = Inr i'"
    and "CHR ''/'' \<notin> set (pr_namespace r) \<union> set (pr_workloadKind r)"
    and "CHR ''/'' \<notin> set (pr_namespace r') \<union> set (pr_workloadKind r')"
    and "wi_WorkloadID i = wi_WorkloadID i'"
  shows "i = i'"
proof -
  note a = pod_resolved [OF assms(1,3)] and b = pod_resolved [OF assms(2,4)]
  have "wi_Namespace i = wi_Namespace i' \<and> wi_WorkloadKind i = wi_WorkloadKind i' \<and>
      wi_WorkloadName i = wi_WorkloadName i'"
    using assms(5) a(1) b(1) by (intro workload_path_inj [OF _ a(2) b(2) a(3) b(3)]) simp
  with assms(5) show ?thesis by (cases i; cases i'; simp)
qed

definition blank_request :: Request where
  "blank_request = \<lparr> rq_Method = ''POST'', rq_Host = ''api.openai.com'',
     rq_URL = \<lparr> url_Scheme = '''', url_Host = '''', url_Path = ''/v1/chat/completions'', url_RawQuery = '''' \<rparr>,
     rq_Header = Map.empty, rq_Body = None \<rparr>"

end
