(* ===== verification/Policy_Engine.thy ===== *)
theory Policy_Engine
  imports Config Workload_Identity
begin

text \<open>
  \<^verbatim>\<open>internal/policy/engine.go\<close>: the policy of a workload, from the configuration
  (\<open>MapEngine\<close>) or the same one for every workload (\<open>OverrideEngine\<close>). Policies are not
  changed after start-up, so pointers to them are the policies themselves.
\<close>

section \<open>Engines\<close>

record MapEngine =
  me_policies :: "string \<rightharpoonup> Policy"
  me_defaultPolicy :: "Policy option"
  me_strictMode :: bool

record OverrideEngine =
  oe_policy :: Policy

text \<open>The warning about policy references that are not used.\<close>

datatype engine_warning = DroppedRefs string string "string list"

definition policy_by_id :: "Policy list \<Rightarrow> (string \<rightharpoonup> Policy)" where
  "policy_by_id ps = fold (\<lambda>p m. m(pol_ID p \<mapsto> p)) ps Map.empty"

definition resolve_workload ::
  "(string \<rightharpoonup> Policy) \<Rightarrow> Workload \<Rightarrow> (string \<rightharpoonup> Policy) \<times> engine_warning list \<Rightarrow>
     (string \<rightharpoonup> Policy) \<times> engine_warning list" where
  "resolve_workload policyByID w acc =
     (case acc of (policies, warns) \<Rightarrow>
      ((case wl_PolicyRefs w of [] \<Rightarrow> policies
        | ref # refs \<Rightarrow> (case policyByID ref of Some p \<Rightarrow> policies(wl_ID w \<mapsto> p) | None \<Rightarrow> policies)),
       (case wl_PolicyRefs w of
          ref # ref' # refs \<Rightarrow> warns @ [DroppedRefs (wl_ID w) ref (ref' # refs)]
        | _ \<Rightarrow> warns)))"

definition NewMapEngine :: "Config \<Rightarrow> MapEngine \<times> engine_warning list" where
  "NewMapEngine cfg =
     (case fold (resolve_workload (policy_by_id (cfg_Policies cfg))) (cfg_Workloads cfg) (Map.empty, []) of
        (policies, warns) \<Rightarrow>
          (\<lparr> me_policies = policies, me_defaultPolicy = cfg_DefaultPolicy cfg,
             me_strictMode = cfg_StrictMode cfg \<rparr>, warns))"

definition NewOverrideEngine :: "Policy \<Rightarrow> OverrideEngine" where
  "NewOverrideEngine pol = \<lparr> oe_policy = pol \<rparr>"

definition OverrideEngine_Lookup :: "OverrideEngine \<Rightarrow> WorkloadIdentity \<Rightarrow> Policy option" where
  "OverrideEngine_Lookup e i = Some (oe_policy e)"

definition MapEngine_Lookup :: "MapEngine \<Rightarrow> WorkloadIdentity \<Rightarrow> Policy option" where
  "MapEngine_Lookup e i =
     (case me_policies e (wi_WorkloadID i) of
        Some p \<Rightarrow> Some p
      | None \<Rightarrow> if me_strictMode e then None else me_defaultPolicy e)"

datatype Engine = MapE MapEngine | OverrideE OverrideEngine

definition Lookup :: "Engine \<Rightarrow> WorkloadIdentity \<Rightarrow> Policy option" where
  "Lookup eng i = (case eng of MapE e \<Rightarrow> MapEngine_Lookup e i | OverrideE e \<Rightarrow> OverrideEngine_Lookup e i)"

section \<open>What the engine resolves\<close>

lemma find_append: "List.find P (xs @ ys) = (case List.find P xs of None \<Rightarrow> List.find P ys | Some x \<Rightarrow> Some x)"
  by (induction xs) auto

lemma policy_by_id_fold:
  "fold (\<lambda>p m. m(pol_ID p \<mapsto> p)) ps m j =
     (case List.find (\<lambda>p. pol_ID p = j) (rev ps) of Some p \<Rightarrow> Some p | None \<Rightarrow> m j)"
proof (induction ps arbitrary: m)
  case (Cons p ps)
  show ?case
    using Cons.IH [of "m(pol_ID p \<mapsto> p)"]
    by (cases "List.find (\<lambda>p. pol_ID p = j) (rev ps)")
      (auto simp: find_append split: option.splits)
qed simp

lemma find_SomeD: "List.find P xs = Some x \<Longrightarrow> P x \<and> x \<in> set xs"
  by (induction xs) (auto split: if_splits)

lemma policy_by_id_Some: "policy_by_id ps j = Some p \<Longrightarrow> p \<in> set ps \<and> pol_ID p = j"
  using find_SomeD [of "\<lambda>p. pol_ID p = j" "rev ps" p]
  by (auto simp: policy_by_id_def policy_by_id_fold split: option.splits)

lemma policy_by_id_dom: "dom (policy_by_id ps) = pol_ID ` set ps"
  unfolding policy_by_id_def policy_by_id_fold
  by (auto simp: dom_def policy_by_id_fold find_None_iff split: option.splits
      dest!: find_SomeD)

lemma policy_by_id_distinct:
  "\<lbrakk> distinct (map pol_ID ps); p \<in> set ps \<rbrakk> \<Longrightarrow> policy_by_id ps (pol_ID p) = Some p"
  using policy_by_id_dom [of ps] policy_by_id_Some [of ps "pol_ID p"]
  by (metis (mono_tags, lifting) domD distinct_map image_eqI inj_onD)

lemma resolve_fold_policies:
  "fst (fold (resolve_workload m) ws acc) j =
     (case List.find (\<lambda>w. wl_ID w = j \<and> (\<exists>ref refs. wl_PolicyRefs w = ref # refs \<and> m ref \<noteq> None)) (rev ws) of
        Some w \<Rightarrow> m (hd (wl_PolicyRefs w)) | None \<Rightarrow> fst acc j)"
proof (induction ws arbitrary: acc)
  case (Cons w ws)
  show ?case
    unfolding fold_simps comp_def Cons.IH
    by (cases "List.find (\<lambda>w. wl_ID w = j \<and> (\<exists>ref refs. wl_PolicyRefs w = ref # refs \<and> m ref \<noteq> None)) (rev ws)")
      (auto simp: find_append resolve_workload_def split: list.splits option.splits prod.splits)
qed simp

lemma config_validD:
  assumes "config_valid c"
  shows "distinct (map pol_ID (cfg_Policies c))" "p \<in> set (cfg_Policies c) \<Longrightarrow> policy_valid p"
    "distinct (map wl_ID (cfg_Workloads c))" "w \<in> set (cfg_Workloads c) \<Longrightarrow> wl_PolicyRefs w \<noteq> []"
    "w \<in> set (cfg_Workloads c) \<Longrightarrow> set (wl_PolicyRefs w) \<subseteq> pol_ID ` set (cfg_Policies c)"
    "pred_option policy_valid (cfg_DefaultPolicy c)"
  using assms unfolding config_valid_def policies_valid_def workloads_valid_def workload_valid_def
  by blast+

lemma find_key_rev:
  assumes "distinct (map f xs)"
  shows "List.find (\<lambda>x. f x = j) (rev xs) = List.find (\<lambda>x. f x = j) xs"
proof (cases "List.find (\<lambda>x. f x = j) (rev xs)")
  case None
  then have "List.find (\<lambda>x. f x = j) xs = None" by (simp add: find_None_iff)
  with None show ?thesis by simp
next
  case (Some x)
  then have x: "f x = j" "x \<in> set xs" using find_SomeD by fastforce+
  then obtain y where y: "List.find (\<lambda>x. f x = j) xs = Some y"
    by (metis (mono_tags, lifting) find_None_iff not_Some_eq)
  then have "f y = j" "y \<in> set xs" using find_SomeD by fastforce+
  then have "x = y" using assms x by (auto simp: distinct_map inj_on_def)
  with Some y show ?thesis by simp
qed

lemma find_cong_set: "(\<And>x. x \<in> set xs \<Longrightarrow> P x = Q x) \<Longrightarrow> List.find P xs = List.find Q xs"
  by (induction xs) auto

lemma policy_by_id_find:
  "distinct (map pol_ID ps) \<Longrightarrow> policy_by_id ps j = List.find (\<lambda>p. pol_ID p = j) ps"
  by (simp add: policy_by_id_def policy_by_id_fold find_key_rev split: option.split)

lemma me_policies_NewMapEngine:
  assumes "config_valid c"
  shows "me_policies (fst (NewMapEngine c)) j =
     (case List.find (\<lambda>w. wl_ID w = j) (cfg_Workloads c) of
        Some w \<Rightarrow> List.find (\<lambda>p. pol_ID p = hd (wl_PolicyRefs w)) (cfg_Policies c) | None \<Rightarrow> None)"
proof -
  let ?m = "policy_by_id (cfg_Policies c)"
  note c = config_validD [OF assms]
  have refs: "\<exists>ref refs. wl_PolicyRefs w = ref # refs \<and> ?m ref \<noteq> None"
    if w: "w \<in> set (cfg_Workloads c)" for w
  proof -
    obtain ref refs where r: "wl_PolicyRefs w = ref # refs" using c(4) [OF w] by (cases "wl_PolicyRefs w") auto
    then have "ref \<in> dom ?m" using c(5) [OF w] by (simp add: policy_by_id_dom)
    with r show ?thesis by blast
  qed
  have "List.find (\<lambda>w. wl_ID w = j \<and> (\<exists>ref refs. wl_PolicyRefs w = ref # refs \<and> ?m ref \<noteq> None))
      (rev (cfg_Workloads c)) = List.find (\<lambda>w. wl_ID w = j) (rev (cfg_Workloads c))"
    using refs by (intro find_cong_set) simp
  also have "\<dots> = List.find (\<lambda>w. wl_ID w = j) (cfg_Workloads c)" by (rule find_key_rev [OF c(3)])
  finally have f: "List.find (\<lambda>w. wl_ID w = j \<and> (\<exists>ref refs. wl_PolicyRefs w = ref # refs \<and> ?m ref \<noteq> None))
      (rev (cfg_Workloads c)) = List.find (\<lambda>w. wl_ID w = j) (cfg_Workloads c)" .
  have "me_policies (fst (NewMapEngine c)) j =
      fst (fold (resolve_workload ?m) (cfg_Workloads c) (Map.empty, [])) j"
    by (simp add: NewMapEngine_def split_beta)
  then show ?thesis
    unfolding resolve_fold_policies f by (simp add: policy_by_id_find [OF c(1)] split: option.split)
qed

lemma find_key_Some:
  assumes "x \<in> set xs" "f x = j"
  obtains y where "List.find (\<lambda>x. f x = j) xs = Some y" "f y = j" "y \<in> set xs"
proof (cases "List.find (\<lambda>x. f x = j) xs")
  case None
  with assms show ?thesis by (auto simp: find_None_iff)
next
  case (Some y)
  with find_SomeD [OF Some] that show ?thesis by blast
qed

lemma workload_policy_found:
  assumes "config_valid c" "w \<in> set (cfg_Workloads c)"
  shows "\<exists>p \<in> set (cfg_Policies c). pol_ID p = hd (wl_PolicyRefs w) \<and>
     List.find (\<lambda>p. pol_ID p = hd (wl_PolicyRefs w)) (cfg_Policies c) = Some p \<and> policy_valid p"
proof -
  have "hd (wl_PolicyRefs w) \<in> pol_ID ` set (cfg_Policies c)"
    using config_validD(4,5) [OF assms] by (auto intro: hd_in_set)
  then obtain q where "q \<in> set (cfg_Policies c)" "pol_ID q = hd (wl_PolicyRefs w)" by auto
  then show ?thesis
    using find_key_Some [of q "cfg_Policies c" pol_ID] config_validD(2) [OF assms(1)] by metis
qed

section \<open>The engine interface\<close>

text \<open>
  What the request handler relies on: a policy that an engine returns is a valid one, so its
  window is at least one second long, its limit positive and its burst allowance and guard
  non-negative.
\<close>

locale policy_source =
  fixes lookup :: "'e \<Rightarrow> WorkloadIdentity \<Rightarrow> Policy option"
    and sound :: "'e \<Rightarrow> bool"
  assumes lookup_valid: "\<lbrakk> sound e; lookup e i = Some p \<rbrakk> \<Longrightarrow> policy_valid p"
begin

lemma lookup_budget:
  "\<lbrakk> sound e; lookup e i = Some p \<rbrakk> \<Longrightarrow>
     0 < rb_WindowSeconds (RollingTokens (pol_Budgets p)) \<and> 0 < rb_LimitTokens (RollingTokens (pol_Budgets p)) \<and>
     0 \<le> rb_BurstTokens (RollingTokens (pol_Budgets p))"
  using lookup_valid [of e i p] by (simp add: policy_valid_def Let_def)

end

definition map_engine_sound :: "MapEngine \<Rightarrow> bool" where
  "map_engine_sound e \<longleftrightarrow> (\<forall>k p. me_policies e k = Some p \<longrightarrow> policy_valid p) \<and>
     pred_option policy_valid (me_defaultPolicy e)"

definition engine_sound :: "Engine \<Rightarrow> bool" where
  "engine_sound eng = (case eng of MapE e \<Rightarrow> map_engine_sound e | OverrideE e \<Rightarrow> policy_valid (oe_policy e))"

interpretation map_engine: policy_source MapEngine_Lookup map_engine_sound
  by unfold_locales
    (auto simp: MapEngine_Lookup_def map_engine_sound_def split: option.splits if_splits)

interpretation override_engine: policy_source OverrideEngine_Lookup "\<lambda>e. policy_valid (oe_policy e)"
  by unfold_locales (simp add: OverrideEngine_Lookup_def)

interpretation engine: policy_source Lookup engine_sound
  by unfold_locales (auto simp: Lookup_def engine_sound_def
      dest: map_engine.lookup_valid override_engine.lookup_valid split: Engine.splits)

lemma NewMapEngine_sound: "config_valid c \<Longrightarrow> map_engine_sound (fst (NewMapEngine c))"
  unfolding map_engine_sound_def
proof (intro conjI allI impI)
  fix k p
  assume c: "config_valid c" and "me_policies (fst (NewMapEngine c)) k = Some p"
  then obtain w where w: "List.find (\<lambda>w. wl_ID w = k) (cfg_Workloads c) = Some w"
      "List.find (\<lambda>p. pol_ID p = hd (wl_PolicyRefs w)) (cfg_Policies c) = Some p"
    by (auto simp: me_policies_NewMapEngine split: option.splits)
  with find_SomeD [OF w(1)] workload_policy_found [OF c, of w] show "policy_valid p" by auto
next
  assume "config_valid c"
  then show "pred_option policy_valid (me_defaultPolicy (fst (NewMapEngine c)))"
    by (simp add: NewMapEngine_def config_valid_def split_beta)
qed

lemma lookup_configured:
  assumes "config_valid c" "w \<in> set (cfg_Workloads c)" "wl_ID w = wi_WorkloadID i"
  shows "\<exists>p \<in> set (cfg_Policies c). Lookup (MapE (fst (NewMapEngine c))) i = Some p \<and>
     pol_ID p = hd (wl_PolicyRefs w) \<and> policy_valid p"
proof -
  obtain v where v: "List.find (\<lambda>w. wl_ID w = wi_WorkloadID i) (cfg_Workloads c) = Some v"
    using find_key_Some [OF assms(2), of wl_ID] assms(3) by blast
  have "distinct (map wl_ID (cfg_Workloads c))" by (rule config_validD(3) [OF assms(1)])
  then have "v = w" using find_SomeD [OF v] assms(2,3) by (auto simp: distinct_map inj_on_def)
  with v workload_policy_found [OF assms(1,2)] show ?thesis
    by (auto simp: Lookup_def MapEngine_Lookup_def me_policies_NewMapEngine [OF assms(1)])
qed

section \<open>Properties\<close>

text \<open>
  C36. Policy resolution. On a valid configuration the engine gives a configured workload the
  policy its first reference names (which exists and is valid), and any other workload
  nothing in strict mode and the default policy, if there is one, otherwise.
\<close>

theorem engine_resolves_first_ref:
  assumes "config_valid c"
  shows "Lookup (MapE (fst (NewMapEngine c))) i =
     (case List.find (\<lambda>w. wl_ID w = wi_WorkloadID i) (cfg_Workloads c) of
        Some w \<Rightarrow> List.find (\<lambda>p. pol_ID p = hd (wl_PolicyRefs w)) (cfg_Policies c)
      | None \<Rightarrow> if cfg_StrictMode c then None else cfg_DefaultPolicy c) \<and>
    (\<forall>w \<in> set (cfg_Workloads c). wl_ID w = wi_WorkloadID i \<longrightarrow>
       (\<exists>p. Lookup (MapE (fst (NewMapEngine c))) i = Some p \<and> pol_ID p = hd (wl_PolicyRefs w) \<and> policy_valid p))"
proof -
  have eng: "me_defaultPolicy (fst (NewMapEngine c)) = cfg_DefaultPolicy c"
    "me_strictMode (fst (NewMapEngine c)) = cfg_StrictMode c"
    by (simp_all add: NewMapEngine_def split_beta)
  have eq: "Lookup (MapE (fst (NewMapEngine c))) i =
     (case List.find (\<lambda>w. wl_ID w = wi_WorkloadID i) (cfg_Workloads c) of
        Some w \<Rightarrow> List.find (\<lambda>p. pol_ID p = hd (wl_PolicyRefs w)) (cfg_Policies c)
      | None \<Rightarrow> if cfg_StrictMode c then None else cfg_DefaultPolicy c)"
  proof (cases "List.find (\<lambda>w. wl_ID w = wi_WorkloadID i) (cfg_Workloads c)")
    case None
    then show ?thesis
      by (simp add: Lookup_def MapEngine_Lookup_def me_policies_NewMapEngine [OF assms] eng)
  next
    case (Some w)
    then have "w \<in> set (cfg_Workloads c)" using find_SomeD by fastforce
    from workload_policy_found [OF assms this] Some show ?thesis
      by (auto simp: Lookup_def MapEngine_Lookup_def me_policies_NewMapEngine [OF assms])
  qed
  with lookup_configured [OF assms] show ?thesis by blast
qed

definition demo_workload :: Workload where
  "demo_workload = \<lparr> wl_ID = ''svc'', wl_Type = ''agent'', wl_OwnerTeam = '''', wl_Environment = '''',
     wl_Identity = \<lparr> idn_Mode = ''header'', idn_Key = ''x-genops-workload-id'' \<rparr>, wl_ModelTargets = [],
     wl_PolicyRefs = [''sidecar-strict'', ''sidecar-baseline''] \<rparr>"

definition demo_config :: Config where
  "demo_config = DefaultEnforcementSidecarConfig\<lparr> cfg_Workloads := [demo_workload],
     cfg_DefaultPolicy := Some (mk_policy ''fallback'' 60 5000 0 0 ''throttle'' '''') \<rparr>"

lemma demo_config_valid: "config_valid demo_config"
  by (simp add: Validate_iff [symmetric]) code_simp

theorem engine_resolves_first_ref_witness:
  "\<exists>p. Lookup (MapE (fst (NewMapEngine demo_config))) (no_identity\<lparr> wi_WorkloadID := ''svc'' \<rparr>) = Some p \<and>
     pol_ID p = ''sidecar-strict''"
proof -
  let ?i = "no_identity\<lparr> wi_WorkloadID := ''svc'' \<rparr>"
  have "demo_workload \<in> set (cfg_Workloads demo_config)" "wl_ID demo_workload = wi_WorkloadID ?i"
    by (simp_all add: demo_config_def demo_workload_def)
  then have "\<exists>p. Lookup (MapE (fst (NewMapEngine demo_config))) ?i = Some p \<and>
      pol_ID p = hd (wl_PolicyRefs demo_workload)"
    using engine_resolves_first_ref [OF demo_config_valid, of ?i] by blast
  moreover have "hd (wl_PolicyRefs demo_workload) = ''sidecar-strict''"
    by (simp add: demo_workload_def)
  ultimately show ?thesis by metis
qed

end
