(* ===== verification/Enforce.thy ===== *)
theory Enforce
  imports Config Budget_Tracker
begin

text \<open>
  \<^verbatim>\<open>internal/enforce/\<close> and \<^verbatim>\<open>internal/fanout/\<close>: the decision taken when a
  reservation is refused, the per-request guard, and the fan-out tracker of this version,
  which allows everything.
\<close>

section \<open>Fan-out\<close>

record FanoutStatus =
  fs_CorrelationID :: string
  fs_CallCount :: int
  fs_Depth :: int
  fs_MaxCalls :: int
  fs_MaxDepth :: int

definition Increment :: "string \<Rightarrow> int \<Rightarrow> FanoutStatus \<times> bool" where
  "Increment correlationID depth =
     (\<lparr> fs_CorrelationID = correlationID, fs_CallCount = 0, fs_Depth = 0, fs_MaxCalls = 0, fs_MaxDepth = 0 \<rparr>,
      True)"

section \<open>Actions and decisions\<close>

datatype Action = ActionAllow | ActionThrottle | ActionKill

datatype reason_code =
    ReasonIdentityMissing
  | ReasonPolicyNotFound
  | ReasonGuardMaxTokens
  | ReasonBudgetExhaustedThrottle
  | ReasonBudgetExhaustedKill
  | ReasonUpstreamNotConfigured
  | ReasonUpstreamTimeout
  | ReasonSystemDegraded
  | ReasonBudgetConfigError

primrec reason_string :: "reason_code \<Rightarrow> string" where
  "reason_string ReasonIdentityMissing = ''identity_missing''"
| "reason_string ReasonPolicyNotFound = ''policy_not_found''"
| "reason_string ReasonGuardMaxTokens = ''guard_max_tokens''"
| "reason_string ReasonBudgetExhaustedThrottle = ''budget_exhausted_throttle''"
| "reason_string ReasonBudgetExhaustedKill = ''budget_exhausted_kill''"
| "reason_string ReasonUpstreamNotConfigured = ''upstream_not_configured''"
| "reason_string ReasonUpstreamTimeout = ''upstream_timeout''"
| "reason_string ReasonSystemDegraded = ''system_degraded''"
| "reason_string ReasonBudgetConfigError = ''budget_config_error''"

text \<open>The reason code of an allowing decision is the empty string, here \<open>None\<close>.\<close>

record Decision =
  dec_Action :: Action
  dec_Tier :: int
  dec_Reason :: string
  dec_ReasonCode :: "reason_code option"
  dec_RetryAfter :: duration
  dec_TokensUsed :: int
  dec_TokensLimit :: int

definition allow_decision :: Decision where
  "allow_decision = \<lparr> dec_Action = ActionAllow, dec_Tier = 0, dec_Reason = '''', dec_ReasonCode = None,
     dec_RetryAfter = 0, dec_TokensUsed = 0, dec_TokensLimit = 0 \<rparr>"

section \<open>The tier decider\<close>

definition Evaluate :: "Policy \<Rightarrow> BudgetStatus \<Rightarrow> FanoutStatus \<Rightarrow> Decision" where
  "Evaluate policy bs fanoutStatus =
     (if WindowTokensUsed bs \<le> WindowTokensLimit bs then allow_decision
      else if ta_Action (Tier3Platform (pol_DecisionTiers policy)) = ''kill_workload'' then
        allow_decision\<lparr> dec_Action := ActionKill, dec_Tier := 3,
          dec_Reason := ''budget exceeded, kill_workload configured'',
          dec_ReasonCode := Some ReasonBudgetExhaustedKill \<rparr>
      else
        let retryAfter = wrap64 (rb_WindowSeconds (RollingTokens (pol_Budgets policy)) sdiv 2 * Second) in
        allow_decision\<lparr> dec_Action := ActionThrottle, dec_Tier := 1,
          dec_Reason := ''budget exceeded, no burst remaining'',
          dec_ReasonCode := Some ReasonBudgetExhaustedThrottle, dec_RetryAfter := retryAfter \<rparr>)"

definition CheckPerRequestGuard :: "Policy \<Rightarrow> int \<Rightarrow> Decision option" where
  "CheckPerRequestGuard policy requestMaxTokens =
     (if MaxTokensPerRequest (pol_Guards policy) \<le> 0 then None
      else if requestMaxTokens \<le> MaxTokensPerRequest (pol_Guards policy) then None
      else Some (allow_decision\<lparr> dec_Action := ActionThrottle, dec_Tier := 1,
             dec_Reason := ''max_tokens exceeds per-request guard'',
             dec_ReasonCode := Some ReasonGuardMaxTokens \<rparr>))"

section \<open>Facts\<close>

lemma Evaluate_Allow: "dec_Action (Evaluate p bs fs) = ActionAllow \<longleftrightarrow> WindowTokensUsed bs \<le> WindowTokensLimit bs"
  by (simp add: Evaluate_def allow_decision_def Let_def)

lemma guard_None: "CheckPerRequestGuard p n = None \<longleftrightarrow>
   MaxTokensPerRequest (pol_Guards p) \<le> 0 \<or> n \<le> MaxTokensPerRequest (pol_Guards p)"
  by (simp add: CheckPerRequestGuard_def)

text \<open>
  Half a window as a duration: no overflow, never negative, and never longer than the window.
\<close>

lemma half_window:
  assumes "0 < n" "n \<le> 9223372036"
  shows "wrap64 (n sdiv 2 * Second) = n div 2 * Second" "0 \<le> n div 2 * Second"
    "n div 2 * Second \<le> n * Second"
proof -
  have d: "n sdiv 2 = n div 2" using assms(1) by (simp add: signed_divide_int_def)
  define m where "m = n div 2"
  have m: "0 \<le> m" "m \<le> n" "m \<le> 4611686018" using assms by (simp_all add: m_def)
  then have "0 \<le> m * Second" "m * Second \<le> 4611686018 * Second" by (simp_all add: Second_def)
  then have "in64 (m * Second)" by (simp add: in64_def Second_def)
  then show "wrap64 (n sdiv 2 * Second) = n div 2 * Second" by (simp add: d m_def)
  show "0 \<le> n div 2 * Second" "n div 2 * Second \<le> n * Second"
    using m by (simp_all add: m_def mult_right_mono)
qed

section \<open>Properties\<close>

text \<open>
  The decision table. For a valid policy with a window of at most 9223372036 seconds the
  decider allows exactly when the reported usage does not exceed the limit; above it, it kills
  exactly when the policy's third tier says so, and otherwise throttles, asking the client to
  wait half the window. The wait is never negative and never longer than the window.
\<close>

lemma decision_table:
  assumes "policy_valid p" "rb_WindowSeconds (RollingTokens (pol_Budgets p)) \<le> 9223372036"
  shows "(let d = Evaluate p bs fs; over = WindowTokensLimit bs < WindowTokensUsed bs;
      kill = (ta_Action (Tier3Platform (pol_DecisionTiers p)) = ''kill_workload'');
      n = rb_WindowSeconds (RollingTokens (pol_Budgets p)) in
    (dec_Action d = ActionAllow) = (\<not> over) \<and>
    (dec_Action d = ActionKill) = (over \<and> kill) \<and>
    (dec_Action d = ActionThrottle) = (over \<and> \<not> kill) \<and>
    dec_RetryAfter d = (if over \<and> \<not> kill then n div 2 * Second else 0) \<and>
    dec_ReasonCode d = (if \<not> over then None else if kill then Some ReasonBudgetExhaustedKill
       else Some ReasonBudgetExhaustedThrottle) \<and>
    0 \<le> dec_RetryAfter d \<and> dec_RetryAfter d \<le> n * Second)"
proof -
  have "0 < rb_WindowSeconds (RollingTokens (pol_Budgets p))"
    using assms(1) by (simp add: policy_valid_def Let_def)
  note h = half_window [OF this assms(2)]
  show ?thesis using h(2,3) order_trans [OF h(2,3)]
    by (simp add: Evaluate_def allow_decision_def Let_def h(1) not_le)
qed

end
