(* ===== verification/Json.thy ===== *)
theory Json
  imports Koshi_Prelude
begin

text \<open>
  What the runtime uses of Go's \<^verbatim>\<open>encoding/json\<close>: the syntax check and the value of a
  text, the decoding rules for struct fields (case-insensitive names, later members
  overriding earlier ones, \<open>null\<close>, type errors), and the encoding of a map of raw values.

  A text is split into tokens and the tokens drive a stack machine, as in the library's
  scanner with its stack of parse states. String and number values keep their raw bytes:
  numbers and strings are interpreted when they are decoded, and raw values are copied.
\<close>

section \<open>Tokens\<close>

datatype tok = TLBrace | TRBrace | TLBrack | TRBrack | TColon | TComma
  | TStr string | TNum string | TTrue | TFalse | TNull

definition is_digit :: "char \<Rightarrow> bool" where
  "is_digit c \<longleftrightarrow> 48 \<le> (of_char c :: int) \<and> (of_char c :: int) \<le> 57"

definition is_hex :: "char \<Rightarrow> bool" where
  "is_hex c \<longleftrightarrow> is_digit c \<or> 97 \<le> (of_char c :: int) \<and> (of_char c :: int) \<le> 102
     \<or> 65 \<le> (of_char c :: int) \<and> (of_char c :: int) \<le> 70"

definition is_space :: "char \<Rightarrow> bool" where
  "is_space c \<longleftrightarrow> (of_char c :: int) \<in> {9, 10, 13, 32}"

definition is_control :: "char \<Rightarrow> bool" where
  "is_control c \<longleftrightarrow> (of_char c :: int) < 32"

abbreviation quote_char :: char where "quote_char \<equiv> CHR 0x22"
abbreviation backslash :: char where "backslash \<equiv> CHR 0x5C"

definition simple_escape :: "char \<Rightarrow> bool" where
  "simple_escape c \<longleftrightarrow> c \<in> set ''bfnrt/'' \<or> c = quote_char \<or> c = backslash"

text \<open>How many bytes an escape has after its backslash.\<close>

definition escape_len :: "string \<Rightarrow> nat option" where
  "escape_len s = (case s of
      [] \<Rightarrow> None
    | e # cs \<Rightarrow>
        if simple_escape e then Some 1
        else if e = CHR ''u'' \<and> 4 \<le> length cs \<and> list_all is_hex (take 4 cs) then Some 5
        else None)"

text \<open>The raw bytes of a string literal after its opening quote, and what follows it.\<close>

fun scan_string :: "string \<Rightarrow> (string \<times> string) option" where
  "scan_string [] = None"
| "scan_string (c # cs) =
     (if c = quote_char then Some ([], cs)
      else if c = backslash then
        (case escape_len cs of None \<Rightarrow> None
         | Some n \<Rightarrow>
            (case scan_string (drop n cs) of None \<Rightarrow> None
             | Some (r, rest) \<Rightarrow> Some (c # take n cs @ r, rest)))
      else if is_control c then None
      else (case scan_string cs of None \<Rightarrow> None | Some (r, rest) \<Rightarrow> Some (c # r, rest)))"

text \<open>
  The rest of the text after a number: an optional minus sign, an integer part without a
  superfluous zero, an optional fraction and an optional exponent.
\<close>

definition skip_int :: "string \<Rightarrow> string option" where
  "skip_int s = (case s of [] \<Rightarrow> None | c # cs \<Rightarrow>
     if c = CHR ''0'' then Some cs
     else if is_digit c then Some (dropWhile is_digit cs) else None)"

definition skip_frac :: "string \<Rightarrow> string option" where
  "skip_frac s = (case s of c # d # cs \<Rightarrow>
       if c = CHR ''.'' then (if is_digit d then Some (dropWhile is_digit cs) else None) else Some s
     | [c] \<Rightarrow> if c = CHR ''.'' then None else Some s | [] \<Rightarrow> Some s)"

definition skip_sign :: "string \<Rightarrow> string" where
  "skip_sign s = (case s of c # cs \<Rightarrow> if c = CHR ''+'' \<or> c = CHR ''-'' then cs else s | [] \<Rightarrow> [])"

definition skip_exp :: "string \<Rightarrow> string option" where
  "skip_exp s = (case s of [] \<Rightarrow> Some s | c # cs \<Rightarrow>
     if c = CHR ''e'' \<or> c = CHR ''E'' then
       (case skip_sign cs of [] \<Rightarrow> None
        | d # ds \<Rightarrow> if is_digit d then Some (dropWhile is_digit ds) else None)
     else Some s)"

definition skip_number :: "string \<Rightarrow> string option" where
  "skip_number s =
     Option.bind (Option.bind (skip_int (case s of c # cs \<Rightarrow> if c = CHR ''-'' then cs else s | [] \<Rightarrow> []))
       skip_frac) skip_exp"

definition scan_number :: "string \<Rightarrow> (string \<times> string) option" where
  "scan_number s = (case skip_number s of None \<Rightarrow> None
     | Some rest \<Rightarrow> Some (take (length s - length rest) s, rest))"

definition word_toks :: "(string \<times> tok) list" where
  "word_toks = [(''{'', TLBrace), (''}'', TRBrace), (''['', TLBrack), ('']'', TRBrack),
     ('':'', TColon), ('','', TComma), (''true'', TTrue), (''false'', TFalse), (''null'', TNull)]"

definition scan_word :: "string \<Rightarrow> (tok \<times> string) option" where
  "scan_word s = (case List.find (\<lambda>(w, t). prefix w s) word_toks of
     None \<Rightarrow> None | Some (w, t) \<Rightarrow> Some (t, drop (length w) s))"

text \<open>One token, for a text that starts with neither white space nor the end.\<close>

definition scan_tok :: "string \<Rightarrow> (tok \<times> string) option" where
  "scan_tok s = (case s of [] \<Rightarrow> None | c # cs \<Rightarrow>
     if c = quote_char then map_option (\<lambda>(r, rest). (TStr r, rest)) (scan_string cs)
     else if c = CHR ''-'' \<or> is_digit c then map_option (\<lambda>(r, rest). (TNum r, rest)) (scan_number s)
     else scan_word s)"

lemma scan_string_length: "scan_string s = Some (r, rest) \<Longrightarrow> length rest < length s"
proof (induction s arbitrary: r rule: scan_string.induct)
  case (2 c cs)
  show ?case
  proof (cases "c = quote_char \<or> c = backslash \<or> is_control c")
    case False
    with 2 show ?thesis by (auto split: option.splits)
  next
    case True
    then consider "c = quote_char" | n where "c = backslash" "escape_len cs = Some n"
      using 2(3) by (cases "escape_len cs") (auto split: if_splits)
    then show ?thesis
    proof cases
      case 1
      then show ?thesis using 2(3) by simp
    next
      case e: 2
      then have "length rest < length (drop n cs)"
        using 2(1) [of n] 2(3) by (auto split: option.splits)
      then show ?thesis by simp
    qed
  qed
qed simp

lemma skip_number_length: "skip_number s = Some rest \<Longrightarrow> length rest < length s"
proof -
  have i: "skip_int u = Some v \<Longrightarrow> length v < length u" for u v
    by (auto simp: skip_int_def length_dropWhile_le le_imp_less_Suc split: list.splits if_splits)
  have f: "skip_frac u = Some v \<Longrightarrow> length v \<le> length u" for u v
    using length_dropWhile_le [of is_digit] 
    by (auto simp: skip_frac_def le_SucI split: list.splits if_splits)
  have sg: "length (skip_sign u) \<le> length u" for u
    by (auto simp: skip_sign_def split: list.splits)
  have e: "skip_exp u = Some v \<Longrightarrow> length v \<le> length u" for u v
  proof -
    assume "skip_exp u = Some v"
    then show ?thesis
      using sg [of "tl u"]
      by (auto simp: skip_exp_def split: list.splits if_splits)
        (metis Suc_leD length_dropWhile_le le_SucI le_trans)+
  qed
  assume "skip_number s = Some rest"
  then obtain u v where "skip_int (case s of c # cs \<Rightarrow> if c = CHR ''-'' then cs else s | [] \<Rightarrow> []) = Some u"
      "skip_frac u = Some v" "skip_exp v = Some rest"
    by (auto simp: skip_number_def split: Option.bind_splits)
  from i [OF this(1)] f [OF this(2)] e [OF this(3)] show ?thesis
    by (auto split: list.splits if_splits)
qed

lemma scan_word_length: "scan_word s = Some (t, rest) \<Longrightarrow> length rest < length s"
  by (auto simp: scan_word_def word_toks_def prefix_def split: option.splits if_splits)

lemma scan_tok_length: "scan_tok s = Some (t, rest) \<Longrightarrow> length rest < length s"
  using scan_string_length scan_word_length skip_number_length
  by (fastforce simp: scan_tok_def scan_number_def split: list.splits if_splits option.splits)

function lex :: "string \<Rightarrow> tok list option" where
  "lex s =
     (let s = dropWhile is_space s in
      if s = [] then Some []
      else case scan_tok s of None \<Rightarrow> None
           | Some (t, rest) \<Rightarrow> (case lex rest of None \<Rightarrow> None | Some ts \<Rightarrow> Some (t # ts)))"
  by pat_completeness auto
termination
proof (relation "measure length", simp)
  fix s x x2 t rest
  assume "x = dropWhile is_space s" "scan_tok x = Some x2" "(t, rest) = x2"
  then show "(rest, s) \<in> measure length"
    using scan_tok_length [of x t rest] length_dropWhile_le [of is_space s] by auto
qed

declare lex.simps [simp del]

section \<open>Values\<close>

datatype jval = JNull | JBool bool | JNum string | JStr string
  | JArr "jval list" | JObj "(string \<times> jval) list"

text \<open>
  The stack of open containers (their elements in reverse order, and for an object the key
  whose value comes next) and what may follow.
\<close>

datatype frame = FArr "jval list" | FObj "(string \<times> jval) list" string

datatype expect = ExpectValue | ExpectValueOrClose | ExpectKey | ExpectKeyOrClose
  | ExpectColon | ExpectCommaOrClose | Complete jval

definition max_nesting :: int where
  "max_nesting = 10000"

definition give :: "jval \<Rightarrow> frame list \<Rightarrow> frame list \<times> expect" where
  "give v st = (case st of
      [] \<Rightarrow> ([], Complete v)
    | FArr vs # st \<Rightarrow> (FArr (v # vs) # st, ExpectCommaOrClose)
    | FObj ms k # st \<Rightarrow> (FObj ((k, v) # ms) k # st, ExpectCommaOrClose))"

definition open_frame :: "frame \<Rightarrow> expect \<Rightarrow> frame list \<Rightarrow> (frame list \<times> expect) option" where
  "open_frame f e st = (if int (length st) < max_nesting then Some (f # st, e) else None)"

fun value_tok :: "tok \<Rightarrow> frame list \<Rightarrow> (frame list \<times> expect) option" where
  "value_tok TNull st = Some (give JNull st)"
| "value_tok TTrue st = Some (give (JBool True) st)"
| "value_tok TFalse st = Some (give (JBool False) st)"
| "value_tok (TStr s) st = Some (give (JStr s) st)"
| "value_tok (TNum s) st = Some (give (JNum s) st)"
| "value_tok TLBrack st = open_frame (FArr []) ExpectValueOrClose st"
| "value_tok TLBrace st = open_frame (FObj [] []) ExpectKeyOrClose st"
| "value_tok _ st = None"

fun jstep :: "tok \<Rightarrow> frame list \<times> expect \<Rightarrow> (frame list \<times> expect) option" where
  "jstep t (st, ExpectValue) = value_tok t st"
| "jstep TRBrack (FArr vs # st, ExpectValueOrClose) = Some (give (JArr (rev vs)) st)"
| "jstep t (st, ExpectValueOrClose) = value_tok t st"
| "jstep (TStr k) (FObj ms k' # st, ExpectKey) = Some (FObj ms k # st, ExpectColon)"
| "jstep (TStr k) (FObj ms k' # st, ExpectKeyOrClose) = Some (FObj ms k # st, ExpectColon)"
| "jstep TRBrace (FObj ms k # st, ExpectKeyOrClose) = Some (give (JObj (rev ms)) st)"
| "jstep TColon (st, ExpectColon) = Some (st, ExpectValue)"
| "jstep TComma (FArr vs # st, ExpectCommaOrClose) = Some (FArr vs # st, ExpectValue)"
| "jstep TRBrack (FArr vs # st, ExpectCommaOrClose) = Some (give (JArr (rev vs)) st)"
| "jstep TComma (FObj ms k # st, ExpectCommaOrClose) = Some (FObj ms k # st, ExpectKey)"
| "jstep TRBrace (FObj ms k # st, ExpectCommaOrClose) = Some (give (JObj (rev ms)) st)"
| "jstep _ _ = None"

primrec jrun :: "tok list \<Rightarrow> frame list \<times> expect \<Rightarrow> (frame list \<times> expect) option" where
  "jrun [] s = Some s"
| "jrun (t # ts) s = (case jstep t s of None \<Rightarrow> None | Some s \<Rightarrow> jrun ts s)"

definition parse_json :: "string \<Rightarrow> jval option" where
  "parse_json s = (case lex s of None \<Rightarrow> None | Some ts \<Rightarrow>
     (case jrun ts ([], ExpectValue) of Some ([], Complete v) \<Rightarrow> Some v | _ \<Rightarrow> None))"

section \<open>Strings\<close>

abbreviation byte :: "int \<Rightarrow> char" where "byte n \<equiv> char_of n"

definition code :: "char \<Rightarrow> int" where
  "code c = of_char c"

text \<open>\<open>utf8.AppendRune\<close>; surrogates and values out of range become U+FFFD.\<close>

definition encode_rune :: "int \<Rightarrow> string" where
  "encode_rune r0 =
     (let r = (if 0x10FFFF < r0 \<or> 0xD800 \<le> r0 \<and> r0 \<le> 0xDFFF then 0xFFFD else r0) in
      if r < 0x80 then [byte r]
      else if r < 0x800 then [byte (0xC0 + r div 0x40), byte (0x80 + r mod 0x40)]
      else if r < 0x10000 then
        [byte (0xE0 + r div 0x1000), byte (0x80 + r div 0x40 mod 0x40), byte (0x80 + r mod 0x40)]
      else [byte (0xF0 + r div 0x40000), byte (0x80 + r div 0x1000 mod 0x40),
            byte (0x80 + r div 0x40 mod 0x40), byte (0x80 + r mod 0x40)])"

definition cont :: "int \<Rightarrow> bool" where
  "cont n \<longleftrightarrow> 0x80 \<le> n \<and> n \<le> 0xBF"

text \<open>The length of the UTF-8 sequence a text starts with, 0 when it starts with none.\<close>

definition utf8_len :: "string \<Rightarrow> nat" where
  "utf8_len s = (case map code (take 4 s) of
      [] \<Rightarrow> 0
    | a # bs \<Rightarrow>
        if a < 0x80 then 1
        else if 0xC2 \<le> a \<and> a \<le> 0xDF then
          (case bs of b # _ \<Rightarrow> if cont b then 2 else 0 | _ \<Rightarrow> 0)
        else if 0xE0 \<le> a \<and> a \<le> 0xEF then
          (case bs of b # c # _ \<Rightarrow>
             if cont b \<and> cont c \<and> (a = 0xE0 \<longrightarrow> 0xA0 \<le> b) \<and> (a = 0xED \<longrightarrow> b \<le> 0x9F) then 3 else 0 | _ \<Rightarrow> 0)
        else if 0xF0 \<le> a \<and> a \<le> 0xF4 then
          (case bs of b # c # d # _ \<Rightarrow>
             if cont b \<and> cont c \<and> cont d \<and> (a = 0xF0 \<longrightarrow> 0x90 \<le> b) \<and> (a = 0xF4 \<longrightarrow> b \<le> 0x8F)
             then 4 else 0 | _ \<Rightarrow> 0)
        else 0)"

text \<open>\<open>utf8.ValidString\<close>.\<close>

function utf8_valid :: "string \<Rightarrow> bool" where
  "utf8_valid s = (if s = [] then True else if utf8_len s = 0 then False
     else utf8_valid (drop (utf8_len s) s))"
  by pat_completeness auto
termination
  by (relation "measure length") auto

declare utf8_valid.simps [simp del]

definition hex_val :: "char \<Rightarrow> int" where
  "hex_val c = (let n = code c in if n \<le> 57 then n - 48 else if 97 \<le> n then n - 87 else n - 55)"

text \<open>\<open>getu4\<close>: the code unit of an escape sequence that starts with a backslash and a \<open>u\<close>.\<close>

definition getu4 :: "string \<Rightarrow> int option" where
  "getu4 s = (case s of b # u # h1 # h2 # h3 # h4 # _ \<Rightarrow>
       if b = backslash \<and> u = CHR ''u'' \<and> list_all is_hex [h1, h2, h3, h4]
       then Some (hex_val h1 * 4096 + hex_val h2 * 256 + hex_val h3 * 16 + hex_val h4) else None
     | _ \<Rightarrow> None)"

definition unescape_char :: "char \<Rightarrow> char" where
  "unescape_char e =
     (if e = CHR ''b'' then byte 8 else if e = CHR ''f'' then byte 12 else if e = CHR ''n'' then byte 10
      else if e = CHR ''r'' then byte 13 else if e = CHR ''t'' then byte 9 else e)"

text \<open>
  \<open>unquote\<close> on the raw bytes of a literal: the first rune and how many bytes it took. A pair
  of surrogate escapes is one rune; a surrogate on its own and a byte that is not UTF-8
  become U+FFFD.
\<close>

definition unquote_one :: "string \<Rightarrow> string \<times> nat" where
  "unquote_one s =
     (if hd s = backslash then
        (case getu4 s of
           None \<Rightarrow> ([unescape_char (hd (tl s))], 2)
         | Some rr \<Rightarrow>
             if 0xD800 \<le> rr \<and> rr \<le> 0xDFFF then
               (case getu4 (drop 6 s) of
                  Some rr1 \<Rightarrow>
                    if rr \<le> 0xDBFF \<and> 0xDC00 \<le> rr1 \<and> rr1 \<le> 0xDFFF
                    then (encode_rune ((rr - 0xD800) * 0x400 + (rr1 - 0xDC00) + 0x10000), 12)
                    else (encode_rune 0xFFFD, 6)
                | None \<Rightarrow> (encode_rune 0xFFFD, 6))
             else (encode_rune rr, 6))
      else if utf8_len s = 0 then (encode_rune 0xFFFD, 1)
      else (take (utf8_len s) s, utf8_len s))"

lemma unquote_one_pos [simp]: "0 < snd (unquote_one s)"
  by (auto simp: unquote_one_def split: option.split)

function unquote :: "string \<Rightarrow> string" where
  "unquote [] = []"
| "unquote (c # cs) = (case unquote_one (c # cs) of (u, n) \<Rightarrow> u @ unquote (drop n (c # cs)))"
  by pat_completeness auto
termination
proof (relation "measure length", simp)
  fix c :: char and cs u :: string and n
  assume "(u, n) = unquote_one (c # cs)"
  then have "0 < n" by (metis snd_conv unquote_one_pos)
  then show "(drop n (c # cs), c # cs) \<in> measure length" by simp
qed

text \<open>
  Field names match without regard to case: ASCII letters fold together, and the two other
  characters that fold to an ASCII letter are the long s (U+017F) and the Kelvin sign (U+212A).
\<close>

fun fold_name :: "string \<Rightarrow> string" where
  "fold_name (a # b # c # cs) =
     (if code a = 0xC5 \<and> code b = 0xBF then CHR ''s'' # fold_name (c # cs)
      else if code a = 0xE2 \<and> code b = 0x84 \<and> code c = 0xAA then CHR ''k'' # fold_name cs
      else byte_lower a # fold_name (b # c # cs))"
| "fold_name [a, b] =
     (if code a = 0xC5 \<and> code b = 0xBF then ''s'' else [byte_lower a, byte_lower b])"
| "fold_name [a] = [byte_lower a]"
| "fold_name [] = []"

definition is_field :: "string \<Rightarrow> string \<Rightarrow> bool" where
  "is_field name raw \<longleftrightarrow> fold_name (unquote raw) = name"

section \<open>Decoding\<close>

text \<open>\<open>strconv.ParseInt\<close> on a number literal: digits only, and within 64 bits.\<close>

definition parse_nat :: "string \<Rightarrow> int" where
  "parse_nat s = foldl (\<lambda>n c. n * 10 + (code c - 48)) 0 s"

definition parse_int64 :: "string \<Rightarrow> int option" where
  "parse_int64 s =
     (let neg = (s \<noteq> [] \<and> hd s = CHR ''-''); ds = (if neg then tl s else s) in
      if ds = [] \<or> \<not> list_all is_digit ds then None
      else let n = (if neg then - parse_nat ds else parse_nat ds) in
           if in64 n then Some n else None)"

text \<open>
  Decoding into a variable yields its new value, or nothing when there is a type error (the
  library then goes on and reports the error at the end; every caller drops the result).
\<close>

definition decode_int64 :: "jval \<Rightarrow> int \<Rightarrow> int option" where
  "decode_int64 v old = (case v of JNull \<Rightarrow> Some old | JNum s \<Rightarrow> parse_int64 s | _ \<Rightarrow> None)"

definition decode_string :: "jval \<Rightarrow> string \<Rightarrow> string option" where
  "decode_string v old = (case v of JNull \<Rightarrow> Some old | JStr s \<Rightarrow> Some (unquote s) | _ \<Rightarrow> None)"

text \<open>Pointers: \<open>null\<close> makes them nil, other values go to what they point to.\<close>

definition decode_ptr :: "('a \<Rightarrow> 'a option) \<Rightarrow> 'a \<Rightarrow> jval \<Rightarrow> 'a option \<Rightarrow> 'a option option" where
  "decode_ptr dec zero v old = (case v of JNull \<Rightarrow> Some None
     | _ \<Rightarrow> map_option Some (dec (case old of None \<Rightarrow> zero | Some x \<Rightarrow> x)))"

definition decode_bool :: "jval \<Rightarrow> bool \<Rightarrow> bool option" where
  "decode_bool v old = (case v of JNull \<Rightarrow> Some old | JBool b \<Rightarrow> Some b | _ \<Rightarrow> None)"

text \<open>The members of an object, one after the other, into a struct.\<close>

primrec decode_members :: "(string \<Rightarrow> jval \<Rightarrow> 'a \<Rightarrow> 'a option) \<Rightarrow> (string \<times> jval) list \<Rightarrow> 'a \<Rightarrow> 'a option" where
  "decode_members dec [] x = Some x"
| "decode_members dec (m # ms) x =
     (case dec (fst m) (snd m) x of None \<Rightarrow> None | Some y \<Rightarrow> decode_members dec ms y)"

definition decode_struct :: "(string \<Rightarrow> jval \<Rightarrow> 'a \<Rightarrow> 'a option) \<Rightarrow> jval \<Rightarrow> 'a \<Rightarrow> 'a option" where
  "decode_struct dec v x = (case v of JObj ms \<Rightarrow> decode_members dec ms x | JNull \<Rightarrow> Some x | _ \<Rightarrow> None)"

text \<open>\<open>json.Unmarshal\<close> into a struct that starts as \<open>zero\<close>.\<close>

definition Unmarshal :: "(string \<Rightarrow> jval \<Rightarrow> 'a \<Rightarrow> 'a option) \<Rightarrow> 'a \<Rightarrow> string \<Rightarrow> 'a option" where
  "Unmarshal dec zero body = Option.bind (parse_json body) (\<lambda>v. decode_struct dec v zero)"

section \<open>Encoding a map of raw values\<close>

definition hex_digit :: "int \<Rightarrow> char" where
  "hex_digit n = (if n < 10 then byte (48 + n) else byte (87 + n))"

definition u_escape :: "int \<Rightarrow> string" where
  "u_escape n = [backslash, CHR ''u'', hex_digit (n div 4096), hex_digit (n div 256 mod 16),
     hex_digit (n div 16 mod 16), hex_digit (n mod 16)]"

text \<open>
  The characters \<open><\<close>, \<open>>\<close>, \<open>&\<close>, U+2028 and U+2029 of a raw value are written as escapes.
\<close>

fun html_escape :: "string \<Rightarrow> string" where
  "html_escape [] = []"
| "html_escape (a # cs) =
     (if a = CHR ''<'' \<or> a = CHR ''>'' \<or> a = CHR ''&'' then u_escape (code a) @ html_escape cs
      else (case cs of b # c # ds \<Rightarrow>
              if code a = 0xE2 \<and> code b = 0x80 \<and> (code c = 0xA8 \<or> code c = 0xA9)
              then u_escape (0x2000 + (code c - 0x80)) @ html_escape ds
              else a # html_escape cs
            | _ \<Rightarrow> a # html_escape cs))"

fun print_json :: "jval \<Rightarrow> string" and print_vals :: "jval list \<Rightarrow> string"
  and print_members :: "(string \<times> jval) list \<Rightarrow> string" where
  "print_json JNull = ''null''"
| "print_json (JBool b) = (if b then ''true'' else ''false'')"
| "print_json (JNum s) = s"
| "print_json (JStr s) = quote_char # html_escape s @ [quote_char]"
| "print_json (JArr vs) = ''['' @ print_vals vs @ '']''"
| "print_json (JObj ms) = ''{'' @ print_members ms @ ''}''"
| "print_vals [] = []"
| "print_vals [v] = print_json v"
| "print_vals (v # w # vs) = print_json v @ '','' @ print_vals (w # vs)"
| "print_members [] = []"
| "print_members [(k, v)] = quote_char # html_escape k @ quote_char # CHR '':'' # print_json v"
| "print_members ((k, v) # m # ms) =
     quote_char # html_escape k @ quote_char # CHR '':'' # print_json v @ '','' @ print_members (m # ms)"

text \<open>The encoding of a string as the raw bytes of a literal (without the quotes).\<close>

definition quote_one :: "char \<Rightarrow> string" where
  "quote_one c =
     (if c = quote_char \<or> c = backslash then [backslash, c]
      else if code c = 8 then backslash # ''b'' else if code c = 12 then backslash # ''f''
      else if code c = 10 then backslash # ''n'' else if code c = 13 then backslash # ''r''
      else if code c = 9 then backslash # ''t''
      else if code c < 32 then u_escape (code c) else [c])"

definition quote_raw :: "string \<Rightarrow> string" where
  "quote_raw s = concat (map quote_one s)"

text \<open>JSON texts in examples are written with a backquote in place of each double quote.\<close>

definition jtext :: "string \<Rightarrow> string" where
  "jtext = map (\<lambda>c. if c = CHR 0x60 then quote_char else c)"

end
