(* ===== verification/Provider.thy ===== *)
theory Provider
  imports Json "HOL-Library.AList" "HOL-Library.List_Lexorder" "HOL-Library.Char_ord"
begin

text \<open>
  \<^verbatim>\<open>internal/provider/\<close> and \<^verbatim>\<open>internal/proxy/tokencount.go\<close>: which provider a
  request goes to, the token usage in its responses and in the lines of its event streams,
  and what is read from and written to request bodies.
\<close>

section \<open>Registry\<close>

datatype provider_type = Unknown | OpenAI | Anthropic | Google

record UsageData =
  InputTokens :: int
  OutputTokens :: int
  TotalTokens :: int

datatype parse_error = ParseResponseError | ErrNotImplemented

primrec provider_name :: "provider_type \<Rightarrow> string" where
  "provider_name OpenAI = ''openai''"
| "provider_name Anthropic = ''anthropic''"
| "provider_name Google = ''google''"
| "provider_name Unknown = ''unknown''"

text \<open>The part of a host before its last colon.\<close>

definition strip_port :: "string \<Rightarrow> string" where
  "strip_port h = (if CHR '':'' \<in> set h then rev (tl (dropWhile (\<lambda>c. c \<noteq> CHR '':'') (rev h))) else h)"

definition DetectProvider :: "string \<Rightarrow> provider_type" where
  "DetectProvider host =
     (let h = strip_port (to_lower host) in
      if str_contains h ''openai.com'' then OpenAI
      else if str_contains h ''anthropic.com'' then Anthropic
      else if str_contains h ''googleapis.com'' then Google
      else Unknown)"

primrec DefaultMaxTokens :: "provider_type \<Rightarrow> int" where
  "DefaultMaxTokens OpenAI = 4096"
| "DefaultMaxTokens Anthropic = 8192"
| "DefaultMaxTokens Google = 2048"
| "DefaultMaxTokens Unknown = 4096"

section \<open>OpenAI\<close>

record openAIUsage =
  PromptTokens :: int
  CompletionTokens :: int
  oa_TotalTokens :: int

definition zero_openAIUsage :: openAIUsage where
  "zero_openAIUsage = \<lparr> PromptTokens = 0, CompletionTokens = 0, oa_TotalTokens = 0 \<rparr>"

definition openAIUsage_field :: "string \<Rightarrow> jval \<Rightarrow> openAIUsage \<Rightarrow> openAIUsage option" where
  "openAIUsage_field k v u =
     (if is_field ''prompt_tokens'' k
        then map_option (\<lambda>n. u\<lparr> PromptTokens := n \<rparr>) (decode_int64 v (PromptTokens u))
      else if is_field ''completion_tokens'' k
        then map_option (\<lambda>n. u\<lparr> CompletionTokens := n \<rparr>) (decode_int64 v (CompletionTokens u))
      else if is_field ''total_tokens'' k
        then map_option (\<lambda>n. u\<lparr> oa_TotalTokens := n \<rparr>) (decode_int64 v (oa_TotalTokens u))
      else Some u)"

record openAIResponse =
  oa_Usage :: "openAIUsage option"

definition openAIResponse_field :: "string \<Rightarrow> jval \<Rightarrow> openAIResponse \<Rightarrow> openAIResponse option" where
  "openAIResponse_field k v r =
     (if is_field ''usage'' k
      then map_option (\<lambda>u. r\<lparr> oa_Usage := u \<rparr>)
             (decode_ptr (decode_struct openAIUsage_field v) zero_openAIUsage v (oa_Usage r))
      else Some r)"

definition openAI_usage :: "openAIUsage \<Rightarrow> UsageData" where
  "openAI_usage u =
     \<lparr> InputTokens = PromptTokens u, OutputTokens = CompletionTokens u, TotalTokens = oa_TotalTokens u \<rparr>"

definition OpenAI_ParseUsage :: "string \<Rightarrow> parse_error + UsageData option" where
  "OpenAI_ParseUsage body =
     (case Unmarshal openAIResponse_field \<lparr> oa_Usage = None \<rparr> body of
        None \<Rightarrow> Inl ParseResponseError
      | Some resp \<Rightarrow> Inr (map_option openAI_usage (oa_Usage resp)))"

text \<open>The usage in one line of an event stream, and whether it is the last one.\<close>

definition ParseOpenAISSEUsage :: "string \<Rightarrow> UsageData option \<times> bool" where
  "ParseOpenAISSEUsage line =
     (case Unmarshal openAIResponse_field \<lparr> oa_Usage = None \<rparr> line of
        None \<Rightarrow> (None, False)
      | Some chunk \<Rightarrow>
          (case oa_Usage chunk of None \<Rightarrow> (None, False) | Some u \<Rightarrow> (Some (openAI_usage u), True)))"

section \<open>Anthropic\<close>

record anthropicUsage =
  an_InputTokens :: int
  an_OutputTokens :: int

definition zero_anthropicUsage :: anthropicUsage where
  "zero_anthropicUsage = \<lparr> an_InputTokens = 0, an_OutputTokens = 0 \<rparr>"

definition anthropicUsage_field :: "string \<Rightarrow> jval \<Rightarrow> anthropicUsage \<Rightarrow> anthropicUsage option" where
  "anthropicUsage_field k v u =
     (if is_field ''input_tokens'' k
        then map_option (\<lambda>n. u\<lparr> an_InputTokens := n \<rparr>) (decode_int64 v (an_InputTokens u))
      else if is_field ''output_tokens'' k
        then map_option (\<lambda>n. u\<lparr> an_OutputTokens := n \<rparr>) (decode_int64 v (an_OutputTokens u))
      else Some u)"

record anthropicResponse =
  an_Usage :: "anthropicUsage option"

definition anthropicResponse_field :: "string \<Rightarrow> jval \<Rightarrow> anthropicResponse \<Rightarrow> anthropicResponse option" where
  "anthropicResponse_field k v r =
     (if is_field ''usage'' k
      then map_option (\<lambda>u. r\<lparr> an_Usage := u \<rparr>)
             (decode_ptr (decode_struct anthropicUsage_field v) zero_anthropicUsage v (an_Usage r))
      else Some r)"

definition Anthropic_ParseUsage :: "string \<Rightarrow> parse_error + UsageData option" where
  "Anthropic_ParseUsage body =
     (case Unmarshal anthropicResponse_field \<lparr> an_Usage = None \<rparr> body of
        None \<Rightarrow> Inl ParseResponseError
      | Some resp \<Rightarrow> Inr (map_option (\<lambda>u. \<lparr> InputTokens = an_InputTokens u, OutputTokens = an_OutputTokens u,
             TotalTokens = wrap64 (an_InputTokens u + an_OutputTokens u) \<rparr>) (an_Usage resp)))"

record anthropicSSEEvent =
  ev_Type :: string
  ev_Message :: "anthropicResponse option" \<comment> \<open>a message has the one field \<open>usage\<close>\<close>
  ev_Usage :: "anthropicUsage option"

definition anthropicSSEEvent_field :: "string \<Rightarrow> jval \<Rightarrow> anthropicSSEEvent \<Rightarrow> anthropicSSEEvent option" where
  "anthropicSSEEvent_field k v e =
     (if is_field ''type'' k then map_option (\<lambda>s. e\<lparr> ev_Type := s \<rparr>) (decode_string v (ev_Type e))
      else if is_field ''message'' k
        then map_option (\<lambda>m. e\<lparr> ev_Message := m \<rparr>)
               (decode_ptr (decode_struct anthropicResponse_field v) \<lparr> an_Usage = None \<rparr> v (ev_Message e))
      else if is_field ''usage'' k
        then map_option (\<lambda>u. e\<lparr> ev_Usage := u \<rparr>)
               (decode_ptr (decode_struct anthropicUsage_field v) zero_anthropicUsage v (ev_Usage e))
      else Some e)"

definition ParseAnthropicSSEUsage :: "string \<Rightarrow> UsageData option \<times> bool" where
  "ParseAnthropicSSEUsage line =
     (case Unmarshal anthropicSSEEvent_field \<lparr> ev_Type = '''', ev_Message = None, ev_Usage = None \<rparr> line of
        None \<Rightarrow> (None, False)
      | Some ev \<Rightarrow>
          if ev_Type ev = ''message_start'' then
            (case Option.bind (ev_Message ev) an_Usage of
               None \<Rightarrow> (None, False)
             | Some u \<Rightarrow> (Some \<lparr> InputTokens = an_InputTokens u, OutputTokens = 0, TotalTokens = 0 \<rparr>, False))
          else if ev_Type ev = ''message_delta'' then
            (case ev_Usage ev of
               None \<Rightarrow> (None, False)
             | Some u \<Rightarrow> (Some \<lparr> InputTokens = 0, OutputTokens = an_OutputTokens u, TotalTokens = 0 \<rparr>, True))
          else (None, False))"

section \<open>Parsers\<close>

definition Google_ParseUsage :: "string \<Rightarrow> parse_error + UsageData option" where
  "Google_ParseUsage body = Inl ErrNotImplemented"

definition GetParser :: "provider_type \<Rightarrow> (string \<Rightarrow> parse_error + UsageData option) option" where
  "GetParser pt = (case pt of OpenAI \<Rightarrow> Some OpenAI_ParseUsage | Anthropic \<Rightarrow> Some Anthropic_ParseUsage
     | Google \<Rightarrow> Some Google_ParseUsage | Unknown \<Rightarrow> None)"

section \<open>Request bodies\<close>

record token_request =
  tr_MaxTokens :: "int option"
  tr_MaxNewTokens :: "int option"

definition token_request_field :: "string \<Rightarrow> jval \<Rightarrow> token_request \<Rightarrow> token_request option" where
  "token_request_field k v r =
     (if is_field ''max_tokens'' k
        then map_option (\<lambda>n. r\<lparr> tr_MaxTokens := n \<rparr>) (decode_ptr (decode_int64 v) 0 v (tr_MaxTokens r))
      else if is_field ''max_new_tokens'' k
        then map_option (\<lambda>n. r\<lparr> tr_MaxNewTokens := n \<rparr>) (decode_ptr (decode_int64 v) 0 v (tr_MaxNewTokens r))
      else Some r)"

definition extractMaxTokens :: "string \<Rightarrow> int" where
  "extractMaxTokens body =
     (if body = [] then 0
      else case Unmarshal token_request_field \<lparr> tr_MaxTokens = None, tr_MaxNewTokens = None \<rparr> body of
             None \<Rightarrow> 0
           | Some req \<Rightarrow>
               (case tr_MaxTokens req of Some n \<Rightarrow> n
                | None \<Rightarrow> (case tr_MaxNewTokens req of Some n \<Rightarrow> n | None \<Rightarrow> 0)))"

record stream_request =
  sr_Stream :: "bool option"

definition stream_request_field :: "string \<Rightarrow> jval \<Rightarrow> stream_request \<Rightarrow> stream_request option" where
  "stream_request_field k v r =
     (if is_field ''stream'' k
      then map_option (\<lambda>b. r\<lparr> sr_Stream := b \<rparr>) (decode_ptr (decode_bool v) False v (sr_Stream r))
      else Some r)"

definition isStreamingRequest :: "string \<Rightarrow> bool" where
  "isStreamingRequest body =
     (if body = [] then False
      else case Unmarshal stream_request_field \<lparr> sr_Stream = None \<rparr> body of
             None \<Rightarrow> False | Some req \<Rightarrow> sr_Stream req = Some True)"

text \<open>
  The members of an object as a map from decoded keys to raw values, and the encoding of
  such a map: keys in increasing byte order.
\<close>

definition raw_map :: "(string \<times> jval) list \<Rightarrow> (string \<times> jval) list" where
  "raw_map ms = fold (\<lambda>(k, v) m. AList.update (unquote k) v m) ms []"

definition encode_raw_map :: "(string \<times> jval) list \<Rightarrow> string" where
  "encode_raw_map m = print_json (JObj (map (\<lambda>(k, v). (quote_raw k, v)) (sort_key fst m)))"

definition include_usage :: jval where
  "include_usage = JObj [(''include_usage'', JBool True)]"

text \<open>
  A body that is \<open>null\<close> leaves the Go map nil, and the assignment to it panics; every other
  body that is not an object is an error.
\<close>

definition injectStreamOptions :: "string \<Rightarrow> string option outcome" where
  "injectStreamOptions body =
     (case parse_json body of
        Some (JObj ms) \<Rightarrow>
          Returns (Some (encode_raw_map (AList.update ''stream_options'' include_usage (raw_map ms))))
      | Some JNull \<Rightarrow> Panics NilMapAssignment
      | _ \<Rightarrow> Returns None)"

section \<open>Facts\<close>

lemma strip_port_append [simp]:
  "CHR '':'' \<notin> set p \<Longrightarrow> strip_port (h @ CHR '':'' # p) = h"
proof -
  assume "CHR '':'' \<notin> set p"
  then have "dropWhile (\<lambda>c. c \<noteq> CHR '':'') (rev p @ CHR '':'' # rev h) = CHR '':'' # rev h"
    by (subst dropWhile_append2) auto
  then show ?thesis by (simp add: strip_port_def)
qed

lemma strip_port_none [simp]: "CHR '':'' \<notin> set h \<Longrightarrow> strip_port h = h"
  by (simp add: strip_port_def)

lemma DetectProvider_lower [simp]: "DetectProvider (to_lower h) = DetectProvider h"
  by (simp add: DetectProvider_def)

lemma DefaultMaxTokens_pos: "0 < DefaultMaxTokens pt"
  by (cases pt) simp_all

lemma parse_int64_range: "parse_int64 s = Some n \<Longrightarrow> in64 n"
  by (auto simp: parse_int64_def Let_def split: if_splits)

lemma decode_int64_range: "\<lbrakk> decode_int64 v old = Some n; in64 old \<rbrakk> \<Longrightarrow> in64 n"
  by (auto simp: decode_int64_def parse_int64_range split: jval.splits)

lemma decode_members_inv:
  assumes "decode_members dec ms x = Some y" "P x" "\<And>k v x y. dec k v x = Some y \<Longrightarrow> P x \<Longrightarrow> P y"
  shows "P y"
  using assms(1,2)
proof (induction ms arbitrary: x)
  case (Cons m ms)
  then obtain z where "dec (fst m) (snd m) x = Some z" "decode_members dec ms z = Some y"
    by (auto split: option.splits)
  with Cons.IH [of z] assms(3) Cons.prems(2) show ?case by blast
qed simp

lemma decode_struct_inv:
  assumes "decode_struct dec v x = Some y" "P x" "\<And>k v x y. dec k v x = Some y \<Longrightarrow> P x \<Longrightarrow> P y"
  shows "P y"
  using assms by (auto simp: decode_struct_def split: jval.splits intro: decode_members_inv)

lemma Unmarshal_inv:
  assumes "Unmarshal dec zero body = Some y" "P zero" "\<And>k v x y. dec k v x = Some y \<Longrightarrow> P x \<Longrightarrow> P y"
  shows "P y"
  using assms by (auto simp: Unmarshal_def bind_eq_Some_conv intro: decode_struct_inv)

lemma decode_ptr_inv:
  assumes "decode_ptr dec zero v old = Some new" "pred_option P old" "P zero"
    and "\<And>x y. dec x = Some y \<Longrightarrow> P x \<Longrightarrow> P y"
  shows "pred_option P new"
  using assms by (cases old) (auto simp: decode_ptr_def split: jval.splits)

lemma extractMaxTokens_range: "in64 (extractMaxTokens body)"
proof -
  let ?P = "\<lambda>r. pred_option in64 (tr_MaxTokens r) \<and> pred_option in64 (tr_MaxNewTokens r)"
  have "?P r" if "Unmarshal token_request_field \<lparr> tr_MaxTokens = None, tr_MaxNewTokens = None \<rparr> body = Some r" for r
  proof (rule Unmarshal_inv [OF that])
    fix k v x y
    assume "token_request_field k v x = Some y" "?P x"
    then show "?P y"
      using decode_ptr_inv [of "decode_int64 v" 0 v "tr_MaxTokens x" _ in64]
        decode_ptr_inv [of "decode_int64 v" 0 v "tr_MaxNewTokens x" _ in64] decode_int64_range [of v]
      by (fastforce simp: token_request_field_def split: if_splits)
  qed simp
  then show ?thesis
    by (fastforce simp: extractMaxTokens_def split: option.split)
qed

end
