(* ===== verification/Sse_Stream.thy ===== *)
theory Sse_Stream
  imports Provider
begin

text \<open>
  \<^verbatim>\<open>internal/proxy/sse.go\<close> and \<^verbatim>\<open>internal/proxy/anthropic_sse.go\<close>: the reader
  that passes an event stream through and picks the token usage out of its lines. The
  provider's line parser, with the state it keeps, is the argument \<open>parse\<close>; the two parsers
  the proxy uses are \<open>openai_parse\<close> and \<open>Accumulator_Parse\<close>.

  The specification (\<open>stream_lines\<close>) looks at the whole stream: its complete lines in order,
  however the stream was cut into chunks.
\<close>

section \<open>The reader\<close>

definition maxLineBuffer :: nat where
  "maxLineBuffer = 8192"

record 'p tokenExtractingReader =
  rd_buf :: string
  rd_usage :: "UsageData option"
  rd_parser :: 'p
  rd_closed :: bool

type_synonym 'p line_parser = "'p \<Rightarrow> string \<Rightarrow> 'p \<times> UsageData option \<times> bool"

abbreviation newline :: char where "newline \<equiv> CHR 0x0A"
abbreviation return_char :: char where "return_char \<equiv> CHR 0x0D"

definition newTokenExtractingReader :: "'p \<Rightarrow> 'p tokenExtractingReader" where
  "newTokenExtractingReader p = \<lparr> rd_buf = [], rd_usage = None, rd_parser = p, rd_closed = False \<rparr>"

definition sentinelUsage :: string where
  "sentinelUsage = jtext ''`usage`''"

definition sentinelMsgType :: string where
  "sentinelMsgType = jtext ''`type`:`message_`''"

definition trim_right :: "char \<Rightarrow> string \<Rightarrow> string" where
  "trim_right c s = rev (dropWhile (\<lambda>x. x = c) (rev s))"

definition processLine :: "'p line_parser \<Rightarrow> string \<Rightarrow> 'p tokenExtractingReader \<Rightarrow> 'p tokenExtractingReader" where
  "processLine parse line0 r =
     (let line = trim_right return_char line0 in
      if \<not> has_prefix line ''data: '' then r
      else
        let payload = drop 6 line in
        if trim_space payload = ''[DONE]'' then r
        else if \<not> str_contains payload sentinelUsage \<and> \<not> str_contains payload sentinelMsgType then r
        else
          (case parse (rd_parser r) payload of
             (p, usage, isFinal) \<Rightarrow>
               let r = r\<lparr> rd_parser := p \<rparr> in
               if isFinal \<and> usage \<noteq> None then r\<lparr> rd_usage := usage \<rparr> else r))"

text \<open>The loop of \<open>scan\<close> on the buffer: complete lines first, then the length check.\<close>

function scan_buf :: "'p line_parser \<Rightarrow> string \<Rightarrow> 'p tokenExtractingReader \<Rightarrow> 'p tokenExtractingReader" where
  "scan_buf parse buf r =
     (if newline \<notin> set buf
      then r\<lparr> rd_buf := (if length buf > maxLineBuffer then [] else buf) \<rparr>
      else scan_buf parse (tl (dropWhile (\<lambda>c. c \<noteq> newline) buf))
             (processLine parse (takeWhile (\<lambda>c. c \<noteq> newline) buf) r))"
  by pat_completeness auto
termination
proof (relation "measure (\<lambda>(parse, buf, r). length buf)", simp)
  fix parse :: "'p line_parser" and buf r
  assume "\<not> newline \<notin> set buf"
  then have "dropWhile (\<lambda>c. c \<noteq> newline) buf \<noteq> []" by (auto simp: dropWhile_eq_Nil_conv)
  then have "length (tl (dropWhile (\<lambda>c. c \<noteq> newline) buf)) < length (dropWhile (\<lambda>c. c \<noteq> newline) buf)"
    by (cases "dropWhile (\<lambda>c. c \<noteq> newline) buf") auto
  also have "\<dots> \<le> length buf" by (rule length_dropWhile_le)
  finally show "((parse, tl (dropWhile (\<lambda>c. c \<noteq> newline) buf),
      processLine parse (takeWhile (\<lambda>c. c \<noteq> newline) buf) r), parse, buf, r)
      \<in> measure (\<lambda>(parse, buf, r). length buf)" by simp
qed

declare scan_buf.simps [simp del]

definition scan :: "'p line_parser \<Rightarrow> string \<Rightarrow> 'p tokenExtractingReader \<Rightarrow> 'p tokenExtractingReader" where
  "scan parse data r = scan_buf parse (rd_buf r @ data) r"

text \<open>
  One \<open>Read\<close>: \<open>chunk\<close> is what the underlying reader delivered; it is handed on unchanged.
\<close>

definition Read :: "'p line_parser \<Rightarrow> string \<Rightarrow> 'p tokenExtractingReader \<Rightarrow> string \<times> 'p tokenExtractingReader" where
  "Read parse chunk r = (chunk, if chunk \<noteq> [] then scan parse chunk r else r)"

text \<open>\<open>Close\<close>: the usage that is reported to the callback, if any.\<close>

definition Close :: "'p tokenExtractingReader \<Rightarrow> UsageData option \<times> 'p tokenExtractingReader" where
  "Close r = (if rd_closed r then (None, r) else (rd_usage r, r\<lparr> rd_closed := True \<rparr>))"

definition isSSEResponse :: "string \<Rightarrow> bool" where
  "isSSEResponse contentType = str_contains contentType ''text/event-stream''"

section \<open>Line parsers\<close>

definition openai_parse :: "unit line_parser" where
  "openai_parse p line = (case ParseOpenAISSEUsage line of (usage, isFinal) \<Rightarrow> ((), usage, isFinal))"

record anthropicSSEAccumulator =
  ac_inputTokens :: int
  ac_hasInput :: bool

definition new_accumulator :: anthropicSSEAccumulator where
  "new_accumulator = \<lparr> ac_inputTokens = 0, ac_hasInput = False \<rparr>"

definition Accumulator_Parse :: "anthropicSSEAccumulator line_parser" where
  "Accumulator_Parse a line =
     (case ParseAnthropicSSEUsage line of
        (None, isFinal) \<Rightarrow> (a, None, False)
      | (Some usage, isFinal) \<Rightarrow>
          if \<not> isFinal then (a\<lparr> ac_inputTokens := InputTokens usage, ac_hasInput := True \<rparr>, None, False)
          else if \<not> ac_hasInput a then (a, None, False)
          else (a, Some \<lparr> InputTokens = ac_inputTokens a, OutputTokens = OutputTokens usage,
                   TotalTokens = wrap64 (ac_inputTokens a + OutputTokens usage) \<rparr>, True))"

section \<open>The stream as lines\<close>

text \<open>The complete lines of a stream, and what follows the last newline.\<close>

fun split_lines :: "string \<Rightarrow> string list \<times> string" where
  "split_lines [] = ([], [])"
| "split_lines (c # cs) =
     (case split_lines cs of (ls, rest) \<Rightarrow>
        if c = newline then ([] # ls, rest)
        else (case ls of [] \<Rightarrow> ([], c # rest) | l # ls \<Rightarrow> ((c # l) # ls, rest)))"

definition stream_lines :: "string \<Rightarrow> string list" where
  "stream_lines s = fst (split_lines s)"

definition stream_rest :: "string \<Rightarrow> string" where
  "stream_rest s = snd (split_lines s)"

text \<open>No line of the stream, complete or not, is longer than the buffer.\<close>

definition short_lines :: "string \<Rightarrow> bool" where
  "short_lines s \<longleftrightarrow> list_all (\<lambda>l. length l \<le> maxLineBuffer) (stream_rest s # stream_lines s)"

definition run_lines :: "'p line_parser \<Rightarrow> string list \<Rightarrow> 'p tokenExtractingReader \<Rightarrow> 'p tokenExtractingReader" where
  "run_lines parse ls r = fold (processLine parse) ls r"

lemma split_no_newline: "newline \<notin> set s \<Longrightarrow> split_lines s = ([], s)"
  by (induction s) auto

lemma split_first_line:
  "newline \<in> set s \<Longrightarrow> split_lines s =
     (takeWhile (\<lambda>c. c \<noteq> newline) s # stream_lines (tl (dropWhile (\<lambda>c. c \<noteq> newline) s)),
      stream_rest (tl (dropWhile (\<lambda>c. c \<noteq> newline) s)))"
  by (induction s) (auto simp: stream_lines_def stream_rest_def split: prod.splits list.splits)

lemma processLine_frame [simp, frame_simps]:
  "rd_buf (processLine parse l r) = rd_buf r" "rd_closed (processLine parse l r) = rd_closed r"
  "processLine parse l (r\<lparr> rd_buf := b \<rparr>) = (processLine parse l r)\<lparr> rd_buf := b \<rparr>"
  by (auto simp: processLine_def Let_def split_beta)

lemma run_lines_frame [simp, frame_simps]:
  "rd_buf (run_lines parse ls r) = rd_buf r" "rd_closed (run_lines parse ls r) = rd_closed r"
  "run_lines parse ls (r\<lparr> rd_buf := b \<rparr>) = (run_lines parse ls r)\<lparr> rd_buf := b \<rparr>"
  unfolding run_lines_def by (induction ls arbitrary: r) simp_all

text \<open>The scanning loop processes the complete lines and keeps the rest, if it is not too long.\<close>

lemma scan_buf_lines:
  "scan_buf parse buf r = (run_lines parse (stream_lines buf) r)
     \<lparr> rd_buf := (if length (stream_rest buf) > maxLineBuffer then [] else stream_rest buf) \<rparr>"
proof (induction parse buf r rule: scan_buf.induct)
  case (1 parse buf r)
  show ?case
  proof (cases "newline \<in> set buf")
    case False
    then show ?thesis
      by (simp add: scan_buf.simps [of parse buf] stream_lines_def stream_rest_def split_no_newline run_lines_def)
  next
    case True
    then have "scan_buf parse buf r = scan_buf parse (tl (dropWhile (\<lambda>c. c \<noteq> newline) buf))
        (processLine parse (takeWhile (\<lambda>c. c \<noteq> newline) buf) r)"
      by (simp add: scan_buf.simps [of parse buf])
    with 1 True show ?thesis
      using split_first_line [OF True]
      by (simp add: stream_lines_def [of buf] stream_rest_def [of buf] run_lines_def)
  qed
qed

lemma split_append:
  "split_lines (a @ b) = (stream_lines a @ stream_lines (stream_rest a @ b), stream_rest (stream_rest a @ b))"
proof (induction a)
  case Nil
  show ?case by (simp add: stream_lines_def stream_rest_def)
next
  case (Cons c a)
  obtain ls rest where a: "split_lines a = (ls, rest)" by fastforce
  show ?case
    using Cons.IH a
    by (cases ls) (auto simp: stream_lines_def stream_rest_def split: prod.splits list.splits)
qed

lemma stream_append:
  "stream_lines (a @ b) = stream_lines a @ stream_lines (stream_rest a @ b)"
  "stream_rest (a @ b) = stream_rest (stream_rest a @ b)"
  by (simp_all add: stream_lines_def [of "a @ b"] stream_rest_def [of "a @ b"] split_append)

lemma rest_no_newline: "newline \<notin> set (stream_rest s)"
  by (induction s) (auto simp: stream_rest_def split: prod.splits list.splits)

lemma split_long_prefix:
  "newline \<notin> set a \<Longrightarrow> length a \<le> length (hd (stream_lines (a @ b) @ [stream_rest (a @ b)]))"
proof (induction a)
  case (Cons c a)
  then show ?case
    by (auto simp: stream_lines_def stream_rest_def split: prod.splits list.splits)
qed simp

lemma short_lines_prefix: "short_lines (a @ b) \<Longrightarrow> short_lines a"
proof -
  assume s: "short_lines (a @ b)"
  have "length (stream_rest a) \<le>
      length (hd (stream_lines (stream_rest a @ b) @ [stream_rest (stream_rest a @ b)]))"
    by (rule split_long_prefix [OF rest_no_newline])
  also have "\<dots> \<le> maxLineBuffer"
    using s unfolding short_lines_def stream_append [of a b]
    by (cases "stream_lines (stream_rest a @ b)") simp_all
  finally show ?thesis using s unfolding short_lines_def stream_append [of a b] by simp
qed

definition read_all :: "'p line_parser \<Rightarrow> string list \<Rightarrow> 'p tokenExtractingReader \<Rightarrow> 'p tokenExtractingReader" where
  "read_all parse chunks r = fold (\<lambda>c r. snd (Read parse c r)) chunks r"

lemma Read_on_lines:
  assumes "r' = (run_lines parse (stream_lines s) r)\<lparr> rd_buf := stream_rest s \<rparr>" "short_lines (s @ c)"
  shows "snd (Read parse c r') = (run_lines parse (stream_lines (s @ c)) r)\<lparr> rd_buf := stream_rest (s @ c) \<rparr>"
proof (cases "c = []")
  case False
  have "length (stream_rest (s @ c)) \<le> maxLineBuffer" using assms(2) by (simp add: short_lines_def)
  with False assms(1) show ?thesis
    unfolding Read_def scan_def stream_append [of s c]
    by (simp add: scan_buf_lines) (simp add: run_lines_def)
qed (simp add: Read_def assms(1))

lemma read_all_lines:
  assumes "rd_buf r = []" "short_lines (concat chunks)"
  shows "read_all parse chunks r = (run_lines parse (stream_lines (concat chunks)) r)
     \<lparr> rd_buf := stream_rest (concat chunks) \<rparr>"
  using assms(2)
proof (induction chunks rule: rev_induct)
  case Nil
  show ?case using assms(1) by (simp add: read_all_def stream_lines_def stream_rest_def run_lines_def)
next
  case (snoc c chunks)
  then have "short_lines (concat chunks)" using short_lines_prefix by simp
  with snoc.IH have "read_all parse chunks r = (run_lines parse (stream_lines (concat chunks)) r)
     \<lparr> rd_buf := stream_rest (concat chunks) \<rparr>" by simp
  from Read_on_lines [OF this] snoc.prems show ?case by (simp add: read_all_def)
qed

section \<open>Properties\<close>

text \<open>
  C13. Usage extraction does not depend on how the network cuts the stream. When no line of the
  stream is longer than the line buffer, 8192 bytes (\<open>short_lines\<close>), reading any sequence of chunks leaves the reader exactly as
  processing the complete lines of the whole stream in order does, for any line parser; so
  two chunkings of the same stream report the same usage.
\<close>

theorem extraction_ignores_chunking:
  assumes "concat chunks = concat chunks'" "short_lines (concat chunks)"
  shows "read_all parse chunks (newTokenExtractingReader p) = read_all parse chunks' (newTokenExtractingReader p) \<and>
    rd_usage (read_all parse chunks (newTokenExtractingReader p)) =
      rd_usage (run_lines parse (stream_lines (concat chunks)) (newTokenExtractingReader p))"
  using read_all_lines [of "newTokenExtractingReader p" chunks parse]
    read_all_lines [of "newTokenExtractingReader p" chunks' parse] assms
  by (simp add: newTokenExtractingReader_def)

definition demo_line :: string where
  "demo_line = jtext ''data: {`usage`:{`total_tokens`:42}}'' @ [newline]"

theorem extraction_ignores_chunking_witness:
  "rd_usage (read_all openai_parse [take 9 demo_line, drop 9 demo_line] (newTokenExtractingReader ())) =
   rd_usage (read_all openai_parse [demo_line] (newTokenExtractingReader ()))"
proof -
  have "short_lines (concat [take 9 demo_line, drop 9 demo_line])" by code_simp
  from extraction_ignores_chunking [OF _ this, of "[demo_line]" openai_parse "()"]
  show ?thesis by simp
qed

text \<open>
  The life of a reader: reads and closes in any order, and the usages its callback gets.
\<close>

datatype reader_op = OpRead string | OpClose

fun reports :: "'p line_parser \<Rightarrow> reader_op list \<Rightarrow> 'p tokenExtractingReader \<Rightarrow> UsageData list" where
  "reports parse [] r = []"
| "reports parse (OpRead chunk # ops) r = reports parse ops (snd (Read parse chunk r))"
| "reports parse (OpClose # ops) r =
     (case Close r of (u, r) \<Rightarrow> (case u of None \<Rightarrow> [] | Some u \<Rightarrow> [u]) @ reports parse ops r)"

lemma scan_buf_closed: "rd_closed (scan_buf parse buf r) = rd_closed r"
  by (simp add: scan_buf_lines)

lemma reports_closed: "rd_closed r \<Longrightarrow> reports parse ops r = []"
proof (induction parse ops r rule: reports.induct)
  case (2 parse chunk ops r)
  then show ?case by (simp add: Read_def scan_def scan_buf_closed)
next
  case (3 parse ops r)
  then show ?case by (simp add: Close_def)
qed simp

lemma reports_reads: "reports parse (map OpRead chunks @ ops) r = reports parse ops (read_all parse chunks r)"
  by (induction chunks arbitrary: r) (simp_all add: read_all_def)

text \<open>
  C37. Usage is reported exactly once, at the first \<open>Close\<close>: whatever is read or closed
  afterwards, the callback gets the last final usage seen before it and nothing more, and it
  is not called at all when no usage was seen.
\<close>

theorem usage_reported_once:
  "reports parse (map OpRead chunks @ OpClose # ops) (newTokenExtractingReader p) =
     (case rd_usage (read_all parse chunks (newTokenExtractingReader p)) of None \<Rightarrow> [] | Some u \<Rightarrow> [u])"
proof -
  let ?r = "read_all parse chunks (newTokenExtractingReader p)"
  have "rd_closed (snd (Read parse c r)) = rd_closed r" for c and r :: "'a tokenExtractingReader"
    by (simp add: Read_def scan_def scan_buf_closed)
  then have "rd_closed (read_all parse cs r) = rd_closed r" for cs and r :: "'a tokenExtractingReader"
    unfolding read_all_def by (induction cs arbitrary: r) simp_all
  then have "\<not> rd_closed ?r" by (simp add: newTokenExtractingReader_def)
  then show ?thesis
    by (simp add: reports_reads Close_def reports_closed split: option.split)
qed

text \<open>
  C40. A line that outgrows the buffer is dropped, and what follows is read as a new line.
  When a partial line of more than \<open>maxLineBuffer\<close> bytes is buffered, the reader forgets it
  and treats the next bytes of the same line as the beginning of a line: a continuation that
  starts with \<open>data: \<close> is parsed as an event of its own.
\<close>

theorem oversized_line_is_forgotten:
  assumes "newline \<notin> set (rd_buf r @ chunk)" "length (rd_buf r) \<le> maxLineBuffer"
    and "maxLineBuffer < length (rd_buf r @ chunk)"
  shows "snd (Read parse next (snd (Read parse chunk r))) = snd (Read parse next (r\<lparr> rd_buf := [] \<rparr>))"
proof -
  have "split_lines (rd_buf r @ chunk) = ([], rd_buf r @ chunk)"
    using assms(1) by (rule split_no_newline)
  then have "scan parse chunk r = r\<lparr> rd_buf := [] \<rparr>"
    using assms(3) by (simp add: scan_def scan_buf_lines stream_lines_def stream_rest_def run_lines_def)
  moreover have "chunk \<noteq> []" using assms(2,3) by auto
  ultimately show ?thesis by (simp add: Read_def)
qed

theorem oversized_line_is_forgotten_witness:
  "rd_usage (read_all openai_parse [replicate 8193 (CHR ''x''), demo_line] (newTokenExtractingReader ())) =
     Some \<lparr> InputTokens = 0, OutputTokens = 0, TotalTokens = 42 \<rparr>"
proof -
  let ?r = "newTokenExtractingReader ()"
  have "snd (Read openai_parse demo_line (snd (Read openai_parse (replicate 8193 (CHR ''x'')) ?r))) =
      snd (Read openai_parse demo_line (?r\<lparr> rd_buf := [] \<rparr>))"
    by (rule oversized_line_is_forgotten) (simp_all add: newTokenExtractingReader_def maxLineBuffer_def)
  moreover have "rd_usage (snd (Read openai_parse demo_line (?r\<lparr> rd_buf := [] \<rparr>))) =
      Some \<lparr> InputTokens = 0, OutputTokens = 0, TotalTokens = 42 \<rparr>"
    by code_simp
  ultimately show ?thesis by (simp add: read_all_def)
qed

text \<open>The payload the line parser gets to see, if the line reaches it.\<close>

definition line_payload :: "string \<Rightarrow> string option" where
  "line_payload line0 =
     (let line = trim_right return_char line0; payload = drop 6 line in
      if has_prefix line ''data: '' \<and> trim_space payload \<noteq> ''[DONE]'' \<and>
        (str_contains payload sentinelUsage \<or> str_contains payload sentinelMsgType)
      then Some payload else None)"

lemma processLine_payload:
  "processLine parse line r = (case line_payload line of None \<Rightarrow> r
     | Some payload \<Rightarrow> (case parse (rd_parser r) payload of (p, usage, isFinal) \<Rightarrow>
         r\<lparr> rd_parser := p, rd_usage := if isFinal \<and> usage \<noteq> None then usage else rd_usage r \<rparr>))"
  by (auto simp: processLine_def line_payload_def Let_def split_beta)

definition starts_message :: "string \<Rightarrow> bool" where
  "starts_message line = (case line_payload line of None \<Rightarrow> False
     | Some payload \<Rightarrow> (case ParseAnthropicSSEUsage payload of (u, isFinal) \<Rightarrow> u \<noteq> None \<and> \<not> isFinal))"

lemma accumulator_without_start:
  assumes "list_all (\<lambda>l. \<not> starts_message l) ls" "\<not> ac_hasInput (rd_parser r)" "rd_usage r = None"
  shows "rd_usage (run_lines Accumulator_Parse ls r) = None"
  using assms
proof (induction ls arbitrary: r)
  case Nil
  then show ?case by (simp add: run_lines_def)
next
  case (Cons l ls)
  have "\<not> ac_hasInput (rd_parser (processLine Accumulator_Parse l r)) \<and>
      rd_usage (processLine Accumulator_Parse l r) = None"
    using Cons.prems
    by (auto simp: processLine_payload Accumulator_Parse_def starts_message_def split: option.splits prod.splits)
  with Cons show ?case by (simp add: run_lines_def)
qed

lemma accumulator_totals:
  assumes "pred_option (\<lambda>u. TotalTokens u = wrap64 (InputTokens u + OutputTokens u)) (rd_usage r)"
  shows "pred_option (\<lambda>u. TotalTokens u = wrap64 (InputTokens u + OutputTokens u))
     (rd_usage (run_lines Accumulator_Parse ls r))"
  using assms
proof (induction ls arbitrary: r)
  case Nil
  then show ?case by (simp add: run_lines_def)
next
  case (Cons l ls)
  then have "pred_option (\<lambda>u. TotalTokens u = wrap64 (InputTokens u + OutputTokens u))
      (rd_usage (processLine Accumulator_Parse l r))"
    by (auto simp: processLine_payload Accumulator_Parse_def split: option.splits prod.splits)
  with Cons.IH show ?case by (simp add: run_lines_def)
qed

text \<open>
  The Anthropic stream fails safe: a stream none of whose lines is a \<open>message_start\<close>
  event with usage reports nothing, whatever its other lines are and however it is cut into
  chunks, so the reservation stands; and whatever is reported is the sum of an input and an
  output count.
\<close>

lemma anthropic_fails_safe:
  assumes "short_lines (concat chunks)"
  shows "(list_all (\<lambda>l. \<not> starts_message l) (stream_lines (concat chunks)) \<longrightarrow>
      rd_usage (read_all Accumulator_Parse chunks (newTokenExtractingReader new_accumulator)) = None) \<and>
    pred_option (\<lambda>u. TotalTokens u = wrap64 (InputTokens u + OutputTokens u))
      (rd_usage (read_all Accumulator_Parse chunks (newTokenExtractingReader new_accumulator)))"
proof -
  let ?r = "newTokenExtractingReader new_accumulator"
  have r: "rd_buf ?r = []" "\<not> ac_hasInput (rd_parser ?r)" "rd_usage ?r = None"
    by (simp_all add: newTokenExtractingReader_def new_accumulator_def)
  show ?thesis
    using accumulator_without_start [of "stream_lines (concat chunks)" ?r]
      accumulator_totals [of ?r "stream_lines (concat chunks)"] r
    by (simp add: read_all_lines [OF r(1) assms])
qed

end
