(* ===== verification/Emitter.thy ===== *)
theory Emitter
  imports Koshi_Prelude
begin

text \<open>
  \<^verbatim>\<open>internal/emit/emitter.go\<close>: the event emitter, a bounded channel drained into the
  log by one goroutine. \<open>Emit\<close> and one turn of the drain loop are the atomic steps; a
  sequence of them is one interleaving of the callers with the drain goroutine. \<open>le_logged\<close>
  is what has been written to the log.
\<close>

section \<open>The emitter\<close>

datatype attr = AStr string | AInt int

record Event =
  e_Type :: string
  e_WorkloadID :: string
  e_Attributes :: "(string \<times> attr) list"
  e_Severity :: string

datatype log_level = LevelError | LevelWarn | LevelInfo

record LogEmitter =
  le_events :: "Event list"
  le_closed :: bool
  le_dropped :: int
  le_logged :: "(log_level \<times> Event) list"

definition defaultBufferSize :: nat where
  "defaultBufferSize = 1000"

definition NewLogEmitter :: LogEmitter where
  "NewLogEmitter = \<lparr> le_events = [], le_closed = False, le_dropped = 0, le_logged = [] \<rparr>"

definition Emit :: "Event \<Rightarrow> LogEmitter \<Rightarrow> unit outcome \<times> LogEmitter" where
  "Emit event e =
     (if le_closed e then (Panics SendOnClosedChannel, e)
      else if length (le_events e) < defaultBufferSize
        then (Returns (), e\<lparr> le_events := le_events e @ [event] \<rparr>)
      else (Returns (), e\<lparr> le_dropped := wrap64 (le_dropped e + 1) \<rparr>))"

definition Dropped :: "LogEmitter \<Rightarrow> int" where
  "Dropped e = le_dropped e"

definition event_level :: "Event \<Rightarrow> log_level" where
  "event_level event = (if e_Severity event = ''error'' then LevelError
     else if e_Severity event = ''warn'' then LevelWarn else LevelInfo)"

text \<open>One turn of the drain loop; with an empty buffer the goroutine waits.\<close>

definition drain_one :: "LogEmitter \<Rightarrow> LogEmitter" where
  "drain_one e = (case le_events e of [] \<Rightarrow> e
     | event # rest \<Rightarrow> e\<lparr> le_events := rest, le_logged := le_logged e @ [(event_level event, event)] \<rparr>)"

definition drain_all :: "LogEmitter \<Rightarrow> LogEmitter" where
  "drain_all e = (drain_one ^^ length (le_events e)) e"

text \<open>\<open>Close\<close> closes the channel and waits until the drain loop has written what is left.\<close>

definition CloseEmitter :: "LogEmitter \<Rightarrow> unit outcome \<times> LogEmitter" where
  "CloseEmitter e =
     (if le_closed e then (Panics CloseOfClosedChannel, e)
      else (Returns (), drain_all (e\<lparr> le_closed := True \<rparr>)))"

section \<open>Facts\<close>

lemma drain_one_Cons [simp]:
  "le_events e = x # xs \<Longrightarrow> drain_one e = e\<lparr> le_events := xs, le_logged := le_logged e @ [(event_level x, x)] \<rparr>"
  by (simp add: drain_one_def)

lemma drain_pow:
  "n \<le> length (le_events e) \<Longrightarrow> (drain_one ^^ n) e = e\<lparr> le_events := drop n (le_events e),
     le_logged := le_logged e @ map (\<lambda>x. (event_level x, x)) (take n (le_events e)) \<rparr>"
proof (induction n)
  case (Suc n)
  then obtain x where x: "drop n (le_events e) = x # drop (Suc n) (le_events e)"
    "take (Suc n) (le_events e) = take n (le_events e) @ [x]"
    using Cons_nth_drop_Suc [of n "le_events e"] take_Suc_conv_app_nth [of n "le_events e"]
    by (metis Suc_le_lessD)
  with Suc show ?case by (simp add: drain_one_def)
qed simp

lemma drain_all_eq: "drain_all e = e\<lparr> le_events := [],
   le_logged := le_logged e @ map (\<lambda>x. (event_level x, x)) (le_events e) \<rparr>"
  by (simp add: drain_all_def drain_pow)

section \<open>Properties\<close>

text \<open>An interleaving of emitting callers and the drain goroutine, before \<open>Close\<close>.\<close>

datatype emit_op = DoEmit Event | DoDrain

fun emit_step :: "emit_op \<Rightarrow> LogEmitter \<Rightarrow> LogEmitter" where
  "emit_step (DoEmit event) e = snd (Emit event e)"
| "emit_step DoDrain e = drain_one e"

definition emitted :: "emit_op list \<Rightarrow> Event list" where
  "emitted ops = concat (map (\<lambda>x. case x of DoEmit event \<Rightarrow> [event] | DoDrain \<Rightarrow> []) ops)"

definition accounted :: "emit_op list \<Rightarrow> LogEmitter \<Rightarrow> bool" where
  "accounted ops e \<longleftrightarrow> \<not> le_closed e \<and> length (le_events e) \<le> defaultBufferSize \<and>
     le_dropped e = wrap64 (int (length (emitted ops)) - int (length (le_logged e)) - int (length (le_events e))) \<and>
     subseq (map snd (le_logged e) @ le_events e) (emitted ops) \<and>
     (\<forall>(l, x) \<in> set (le_logged e). l = event_level x)"

lemma emitted_snoc [simp]:
  "emitted (ops @ [DoEmit x]) = emitted ops @ [x]" "emitted (ops @ [DoDrain]) = emitted ops"
  by (simp_all add: emitted_def)

lemma accounted_step: "accounted ops e \<Longrightarrow> accounted (ops @ [x]) (emit_step x e)"
proof (cases x)
  case (DoEmit event)
  assume a: "accounted ops e"
  show ?thesis
  proof (cases "length (le_events e) < defaultBufferSize")
    case True
    with a DoEmit show ?thesis
      by (auto simp: accounted_def Emit_def algebra_simps append_assoc [symmetric]
          intro!: list_emb_append_mono simp del: append_assoc)
  next
    case False
    have "wrap64 (wrap64 k + 1) = wrap64 (k + 1)" for k by (simp add: wrap64_add_wrap64)
    with False a DoEmit show ?thesis
      by (auto simp: accounted_def Emit_def algebra_simps intro: list_emb_append2 subseq_order.order_trans)
  qed
next
  case DoDrain
  assume a: "accounted ops e"
  with DoDrain show ?thesis
    by (cases "le_events e") (auto simp: accounted_def drain_one_def algebra_simps)
qed

lemma accounted_run: "accounted ops (fold emit_step ops NewLogEmitter)"
proof (induction ops rule: rev_induct)
  case Nil
  show ?case by (simp add: accounted_def NewLogEmitter_def emitted_def)
next
  case (snoc x xs)
  then show ?case by (simp add: accounted_step)
qed

text \<open>
  Every event is accounted for. However emitting callers and the drain goroutine
  interleave, no \<open>Emit\<close> blocks or panics before \<open>Close\<close>, the buffer never exceeds its size,
  and after \<open>Close\<close> the log holds a subsequence of the emitted events in the order they were
  emitted, each at the level of its severity, and the drop counter is exactly the number of
  those missing (modulo 64 bits).
\<close>

lemma emitter_accounts_for_every_event:
  "\<exists>e. CloseEmitter (fold emit_step ops NewLogEmitter) = (Returns (), e) \<and>
     length (le_events (fold emit_step ops NewLogEmitter)) \<le> 1000 \<and>
     le_events e = [] \<and> subseq (map snd (le_logged e)) (emitted ops) \<and>
     list_all (\<lambda>(l, x). l = event_level x) (le_logged e) \<and>
     Dropped e = wrap64 (int (length (emitted ops)) - int (length (le_logged e)))"
proof -
  have a: "accounted ops (fold emit_step ops NewLogEmitter)" by (rule accounted_run)
  then show ?thesis
    by (auto simp: CloseEmitter_def accounted_def drain_all_eq Dropped_def comp_def algebra_simps
        list_all_iff defaultBufferSize_def)
qed

end
