(* ===== verification/Proxy.thy ===== *)
theory Proxy
  imports Policy_Engine Enforce Sse_Stream Emitter
begin

text \<open>
  \<^verbatim>\<open>internal/proxy/proxy.go\<close>, \<^verbatim>\<open>shadow.go\<close> and \<^verbatim>\<open>metrics.go\<close>: the request
  handler. A request runs against a state: the handler with the tracker, the emitter and the
  metrics it changes, and what has been written to the client and sent upstream. A step that
  may panic is a function from that state to an outcome and a state (\<open>'a act\<close>); \<open>ServeHTTP\<close>
  recovers from panics as the deferred function of the source does.

  Not part of the source and hence arguments: the upstream's answer and how much of it the
  client takes (\<open>request_env\<close>), the URL parser, and which values the Prometheus counters and
  labels refuse with a panic (\<open>request_lib\<close>). Go's \<^verbatim>\<open>httputil.ReverseProxy\<close> is modelled as far as the handler uses
  it: round trip, \<open>ModifyResponse\<close>, \<open>ErrorHandler\<close>, copying the body, closing it, and the
  panic with \<open>ErrAbortHandler\<close> when copying fails after the header has been sent.
\<close>

section \<open>State\<close>

record Handler =
  hd_resolver :: Resolver
  hd_policyEngine :: Engine
  hd_upstreams :: "(string \<times> string) list"
  hd_sseExtraction :: bool
  hd_responseHeaderTimeout :: duration
  hd_version :: string
  hd_genopsSpecVersion :: string
  hd_mode :: string
  hd_listenerAccountingKey :: string

text \<open>The updates of the Prometheus metrics, in order.\<close>

datatype metric =
    RequestsTotal string string string
  | TokensUsedTotal string string string int
  | EnforcementDecisionsTotal string string
  | EnforcementLatency
  | ListenerDecisionsTotal string string string
  | ListenerTokensTotal string string string int
  | ListenerLatency

text \<open>What is written to the client, in order.\<close>

datatype reply =
    ErrorReply int string string string string reason_code
      \<comment> \<open>status, error, category, reason, decision header, reason code\<close>
  | ThrottleReply "int option" string "reason_code option" int int
      \<comment> \<open>Retry-After, reason, reason code, tokens used, tokens limit\<close>
  | KillReply string "reason_code option" int int
  | UpstreamHeader int
  | UpstreamBody string
  | BadGateway

text \<open>
  A request on its way to the upstream, as the director of the reverse proxy leaves it. (The
  proxy then drops the hop-by-hop headers and adds \<open>X-Forwarded-For\<close>; that is not modelled.)
\<close>

record outgoing =
  og_Method :: string
  og_Host :: string
  og_URL :: URL
  og_Header :: header
  og_Body :: string

definition outgoing_to :: "Request \<Rightarrow> URL \<Rightarrow> string \<Rightarrow> outgoing" where
  "outgoing_to r u body = \<lparr> og_Method = rq_Method r, og_Host = url_Host u, og_URL = u,
     og_Header = rq_Header r, og_Body = body \<rparr>"

record hstate =
  st_degraded :: bool
  st_tracker :: TrackerImpl
  st_emitter :: LogEmitter
  st_metrics :: "metric list"
  st_replies :: "reply list"
  st_sent :: "outgoing list"

section \<open>The world around a request\<close>

record upstream_response =
  ur_Status :: int
  ur_ContentType :: string
  ur_Chunks :: "string list" \<comment> \<open>the successive non-empty reads of the body\<close>
  ur_ReadError :: "string option" \<comment> \<open>the error the body ends with, if it does\<close>

datatype upstream = RoundTripFails string | Responds upstream_response

record request_env =
  en_reserve :: clock
  en_record :: clock
  en_timestamp :: gotime
  en_upstream :: "outgoing \<Rightarrow> upstream"
  en_client_takes :: "nat option" \<comment> \<open>how many body writes succeed; \<open>None\<close>: all\<close>
  en_panic_text :: "panic \<Rightarrow> string" \<comment> \<open>the text of a panic value\<close>
  en_stack :: string \<comment> \<open>the stack trace\<close>

record request_lib =
  lib_url_parse :: "string \<Rightarrow> URL option"
  lib_counter_panics :: "int \<Rightarrow> bool" \<comment> \<open>whether \<open>Counter.Add\<close> panics on a value\<close>
  lib_label_panics :: "string \<Rightarrow> bool" \<comment> \<open>whether \<open>WithLabelValues\<close> panics on a label value\<close>

section \<open>Steps\<close>

type_synonym 'a act = "hstate \<Rightarrow> 'a outcome \<times> hstate"

definition ret :: "'a \<Rightarrow> 'a act" where
  "ret x s = (Returns x, s)"

definition andthen :: "'a act \<Rightarrow> ('a \<Rightarrow> 'b act) \<Rightarrow> 'b act" where
  "andthen m f s = (case m s of (Returns x, s) \<Rightarrow> f x s | (Panics p, s) \<Rightarrow> (Panics p, s))"

definition also_do :: "unit act \<Rightarrow> 'b act \<Rightarrow> 'b act" where
  "also_do m n = andthen m (\<lambda>_. n)"

primrec do_all :: "unit act list \<Rightarrow> unit act" where
  "do_all [] = ret ()"
| "do_all (m # ms) = also_do m (do_all ms)"

definition raise :: "panic \<Rightarrow> 'a act" where
  "raise p s = (Panics p, s)"

definition write_reply :: "reply \<Rightarrow> unit act" where
  "write_reply r s = (Returns (), s\<lparr> st_replies := st_replies s @ [r] \<rparr>)"

definition count :: "metric \<Rightarrow> unit act" where
  "count m s = (Returns (), s\<lparr> st_metrics := st_metrics s @ [m] \<rparr>)"

text \<open>The label values of an update; \<open>WithLabelValues\<close> panics when one of them is refused.\<close>

primrec metric_labels :: "metric \<Rightarrow> string list" where
  "metric_labels (RequestsTotal workloadID policyID decision) = [workloadID, policyID, decision]"
| "metric_labels (TokensUsedTotal workloadID policyID phase n) = [workloadID, policyID, phase]"
| "metric_labels (EnforcementDecisionsTotal action policyID) = [action, policyID]"
| "metric_labels EnforcementLatency = []"
| "metric_labels (ListenerDecisionsTotal ns decision reason) = [ns, decision, reason]"
| "metric_labels (ListenerTokensTotal ns providerName phase n) = [ns, providerName, phase]"
| "metric_labels ListenerLatency = []"

definition with_labels :: "request_lib \<Rightarrow> metric \<Rightarrow> unit act \<Rightarrow> unit act" where
  "with_labels lib m act =
     (if list_ex (lib_label_panics lib) (metric_labels m) then raise InvalidLabelValue else act)"

definition bump :: "request_lib \<Rightarrow> metric \<Rightarrow> unit act" where
  "bump lib m = with_labels lib m (count m)"

text \<open>\<open>Counter.Add\<close> with a value that comes from a request or a response.\<close>

definition add_tokens :: "request_lib \<Rightarrow> int \<Rightarrow> metric \<Rightarrow> unit act" where
  "add_tokens lib v m = with_labels lib m
     (if lib_counter_panics lib v then raise CounterDecrease else count m)"

definition send_upstream :: "outgoing \<Rightarrow> unit act" where
  "send_upstream og s = (Returns (), s\<lparr> st_sent := st_sent s @ [og] \<rparr>)"

definition mk_event :: "string \<Rightarrow> string \<Rightarrow> string \<Rightarrow> (string \<times> attr) list \<Rightarrow> Event" where
  "mk_event ty wid sev attrs =
     \<lparr> e_Type = ty, e_WorkloadID = wid, e_Attributes = attrs, e_Severity = sev \<rparr>"

definition emitEvent :: "Handler \<Rightarrow> Event \<Rightarrow> unit act" where
  "emitEvent h event s =
     (let attrs = AList.update ''genops.spec.version'' (AStr (hd_genopsSpecVersion h)) (e_Attributes event) in
      (case Emit (event\<lparr> e_Attributes := attrs \<rparr>) (st_emitter s) of
         (r, e) \<Rightarrow> (r, s\<lparr> st_emitter := e \<rparr>)))"

definition reserve_act :: "request_env \<Rightarrow> string \<Rightarrow> int \<Rightarrow> (BudgetStatus \<times> bool \<times> tracker_error option) act" where
  "reserve_act env k n s =
     (case Reserve (en_reserve env) k n (st_tracker s) of (r, t) \<Rightarrow> (r, s\<lparr> st_tracker := t \<rparr>))"

definition record_act :: "request_env \<Rightarrow> string \<Rightarrow> int \<Rightarrow> unit act" where
  "record_act env k n s =
     (case Record (en_record env) \<lparr> ur_WorkloadID = k, ur_Tokens = n, ur_Timestamp = en_timestamp env,
             ur_IsEstimate = False \<rparr> (st_tracker s) of
        (r, t) \<Rightarrow> (r, s\<lparr> st_tracker := t \<rparr>))"

section \<open>Handler construction\<close>

definition DefaultResponseHeaderTimeout :: duration where
  "DefaultResponseHeaderTimeout = 30 * Second"

definition SpecVersion :: string where
  "SpecVersion = ''0.1.0''"

definition NewHandler :: "Handler \<Rightarrow> Handler" where
  "NewHandler cfg =
     cfg\<lparr> hd_responseHeaderTimeout :=
            (if hd_responseHeaderTimeout cfg = 0 then DefaultResponseHeaderTimeout else hd_responseHeaderTimeout cfg),
          hd_genopsSpecVersion :=
            (if hd_genopsSpecVersion cfg = '''' then SpecVersion else hd_genopsSpecVersion cfg),
          hd_mode := (if hd_mode cfg = '''' then ''enforcement'' else hd_mode cfg) \<rparr>"

definition isListenerMode :: "Handler \<Rightarrow> bool" where
  "isListenerMode h \<longleftrightarrow> hd_mode h = ''listener''"

definition accountingKey :: "Handler \<Rightarrow> string \<Rightarrow> string" where
  "accountingKey h workloadID =
     (if isListenerMode h \<and> hd_listenerAccountingKey h \<noteq> '''' then hd_listenerAccountingKey h else workloadID)"

section \<open>Replies\<close>

definition writeErrorResponse ::
  "int \<Rightarrow> string \<Rightarrow> string \<Rightarrow> string \<Rightarrow> string \<Rightarrow> reason_code \<Rightarrow> unit act" where
  "writeErrorResponse statusCode errorCode category reason decision reasonCode =
     write_reply (ErrorReply statusCode errorCode category reason decision reasonCode)"

text \<open>\<open>int(d.Seconds())\<close> of a duration, exact for the durations the decider makes.\<close>

definition writeEnforcementResponse :: "Decision \<Rightarrow> unit act" where
  "writeEnforcementResponse dec =
     (case dec_Action dec of
        ActionThrottle \<Rightarrow>
          write_reply (ThrottleReply
            (if dec_RetryAfter dec > 0 then Some (dec_RetryAfter dec sdiv Second) else None)
            (dec_Reason dec) (dec_ReasonCode dec) (dec_TokensUsed dec) (dec_TokensLimit dec))
      | ActionKill \<Rightarrow>
          write_reply (KillReply (dec_Reason dec) (dec_ReasonCode dec) (dec_TokensUsed dec) (dec_TokensLimit dec))
      | ActionAllow \<Rightarrow> ret ())"

primrec actionName :: "Action \<Rightarrow> string" where
  "actionName ActionAllow = ''allow''"
| "actionName ActionThrottle = ''throttle''"
| "actionName ActionKill = ''kill''"

section \<open>Shadow events\<close>

datatype shadow = ShadowWouldReject | ShadowWouldThrottle | ShadowWouldKill | ShadowAllow

primrec shadow_string :: "shadow \<Rightarrow> string" where
  "shadow_string ShadowWouldReject = ''would_reject''"
| "shadow_string ShadowWouldThrottle = ''would_throttle''"
| "shadow_string ShadowWouldKill = ''would_kill''"
| "shadow_string ShadowAllow = ''allow''"

definition code_string :: "reason_code option \<Rightarrow> string" where
  "code_string c = (case c of None \<Rightarrow> '''' | Some c \<Rightarrow> reason_string c)"

definition shadowEvent ::
  "WorkloadIdentity \<Rightarrow> shadow \<Rightarrow> reason_code option \<Rightarrow> string \<Rightarrow> string \<Rightarrow> int \<Rightarrow> int \<Rightarrow> Event" where
  "shadowEvent ident decisionShadow reasonCode providerName model estimatedTokens actualTokens =
     mk_event ''listener_shadow'' (wi_WorkloadID ident) ''info''
       ([(''mode'', AStr ''listener''), (''decision_shadow'', AStr (shadow_string decisionShadow)),
         (''reason_code'', AStr (code_string reasonCode)), (''provider'', AStr providerName),
         (''model'', AStr model), (''estimated_tokens'', AInt estimatedTokens),
         (''actual_tokens'', AInt actualTokens)]
        @ (if wi_Namespace ident \<noteq> '''' then [(''namespace'', AStr (wi_Namespace ident))] else [])
        @ (if wi_WorkloadKind ident \<noteq> '''' then [(''workload_kind'', AStr (wi_WorkloadKind ident))] else [])
        @ (if wi_WorkloadName ident \<noteq> '''' then [(''workload_name'', AStr (wi_WorkloadName ident))] else []))"

section \<open>Upstreams\<close>

definition lookup_upstream :: "Handler \<Rightarrow> string \<Rightarrow> string" where
  "lookup_upstream h name = (case map_of (hd_upstreams h) name of None \<Rightarrow> '''' | Some u \<Rightarrow> u)"

definition resolveUpstream :: "request_lib \<Rightarrow> Handler \<Rightarrow> Request \<Rightarrow> URL option" where
  "resolveUpstream lib h r =
     (let pt = DetectProvider (to_lower (rq_Host r));
          baseURL = (case pt of OpenAI \<Rightarrow> lookup_upstream h ''openai''
                     | Anthropic \<Rightarrow> lookup_upstream h ''anthropic''
                     | Google \<Rightarrow> lookup_upstream h ''google''
                     | Unknown \<Rightarrow> '''') in
      if baseURL = '''' then
        (if pt = Unknown \<and> url_Scheme (rq_URL r) \<noteq> '''' \<and> url_Host (rq_URL r) \<noteq> ''''
         then Some (rq_URL r) else None)
      else case lib_url_parse lib baseURL of
             None \<Rightarrow> None
           | Some u \<Rightarrow> Some (u\<lparr> url_Path := url_Path (rq_URL r), url_RawQuery := url_RawQuery (rq_URL r) \<rparr>))"

section \<open>The reverse proxy\<close>

text \<open>
  A response body on its way to the client: what reading it yields, whether it ends with an
  error, and what closing it does, given the reads that were made.
\<close>

type_synonym resp_body = "string list \<times> bool \<times> (string list \<Rightarrow> unit act)"

text \<open>
  Copying a body: what is written to the client, what was read, and whether copying failed.
  A client that is gone makes the write of a chunk fail that has been read.
\<close>

definition copy_body :: "nat option \<Rightarrow> string list \<Rightarrow> bool \<Rightarrow> string list \<times> string list \<times> bool" where
  "copy_body takes chunks rerr =
     (case takes of
        None \<Rightarrow> (chunks, chunks, rerr)
      | Some n \<Rightarrow> if length chunks \<le> n then (chunks, chunks, rerr)
                  else (take n chunks, take (Suc n) chunks, True))"

definition forward_body :: "request_env \<Rightarrow> int \<Rightarrow> resp_body \<Rightarrow> unit act" where
  "forward_body env status body =
     (case body of (chunks, rerr, onclose) \<Rightarrow>
      (case copy_body (en_client_takes env) chunks rerr of (written, taken, failed) \<Rightarrow>
        also_do (write_reply (UpstreamHeader status))
       (also_do (do_all (map (\<lambda>c. write_reply (UpstreamBody c)) written))
       (also_do (onclose taken)
         (if failed then raise AbortHandler else ret ())))))"

definition ReverseProxy_ServeHTTP ::
  "request_env \<Rightarrow> outgoing \<Rightarrow> (upstream_response \<Rightarrow> (string + resp_body) act) \<Rightarrow> (string \<Rightarrow> unit act) \<Rightarrow> unit act" where
  "ReverseProxy_ServeHTTP env og modifyResponse errorHandler =
     also_do (send_upstream og)
       (case en_upstream env og of
          RoundTripFails e \<Rightarrow> errorHandler e
        | Responds resp \<Rightarrow>
            andthen (modifyResponse resp) (\<lambda>r. case r of
                Inl e \<Rightarrow> errorHandler e
              | Inr body \<Rightarrow> forward_body env (ur_Status resp) body))"

section \<open>Proxying without enforcement\<close>

definition upstream_missing :: "unit act" where
  "upstream_missing = writeErrorResponse 502 ''upstream_not_configured'' ''system'' ''no_upstream_for_provider''
     ''reject'' ReasonUpstreamNotConfigured"

definition request_body :: "Request \<Rightarrow> string" where
  "request_body r = (case rq_Body r of None \<Rightarrow> '''' | Some b \<Rightarrow> b)"

definition proxyDirect :: "Handler \<Rightarrow> request_lib \<Rightarrow> request_env \<Rightarrow> Request \<Rightarrow> unit act" where
  "proxyDirect h lib env r =
     (case resolveUpstream lib h r of
        None \<Rightarrow> upstream_missing
      | Some u \<Rightarrow>
          ReverseProxy_ServeHTTP env (outgoing_to r u (request_body r))
            (\<lambda>resp. ret (Inr (ur_Chunks resp, ur_ReadError resp \<noteq> None, \<lambda>_. ret ())))
            (\<lambda>e. write_reply BadGateway))"

section \<open>Reconciliation\<close>

definition reconciled_event :: "string \<Rightarrow> int \<Rightarrow> int \<Rightarrow> int \<Rightarrow> string \<Rightarrow> Event" where
  "reconciled_event wid reserved actual delta phase =
     mk_event ''budget_reconciled'' wid ''info''
       [(''reserved_tokens'', AInt reserved), (''actual_tokens'', AInt actual),
        (''delta_tokens'', AInt delta), (''phase'', AStr phase)]"

text \<open>The reconciliation with the usage of a response, streamed or not.\<close>

definition reconcile :: "Handler \<Rightarrow> request_lib \<Rightarrow> request_env \<Rightarrow> WorkloadIdentity \<Rightarrow> string \<Rightarrow> int \<Rightarrow> string \<Rightarrow>
    UsageData \<Rightarrow> unit act" where
  "reconcile h lib env ident policyID reservedTokens acctKey usage =
     (let delta = wrap64 (TotalTokens usage - reservedTokens) in
      also_do (record_act env acctKey delta)
     (also_do (if delta \<noteq> 0
               then emitEvent h (reconciled_event (wi_WorkloadID ident) reservedTokens (TotalTokens usage) delta ''actual'')
               else ret ())
       (add_tokens lib (TotalTokens usage)
         (TokensUsedTotal (wi_WorkloadID ident) policyID ''actual'' (TotalTokens usage)))))"

function chunks_of :: "string \<Rightarrow> string list" where
  "chunks_of s = (if s = [] then [] else take 32768 s # chunks_of (drop 32768 s))"
  by pat_completeness auto
termination
  by (relation "measure length") auto

declare chunks_of.simps [simp del]

definition handleNonStreamingResponse ::
  "Handler \<Rightarrow> request_lib \<Rightarrow> request_env \<Rightarrow> upstream_response \<Rightarrow> WorkloadIdentity \<Rightarrow> string \<Rightarrow> provider_type \<Rightarrow> int \<Rightarrow>
     string \<Rightarrow> (string + resp_body) act" where
  "handleNonStreamingResponse h lib env resp ident policyID providerType reservedTokens acctKey =
     (case ur_ReadError resp of
        Some e \<Rightarrow> ret (Inl e)
      | None \<Rightarrow>
        let bodyBytes = concat (ur_Chunks resp); body = (chunks_of bodyBytes, False, \<lambda>_. ret ()) in
        (case GetParser providerType of
           None \<Rightarrow> ret (Inr body)
         | Some parse \<Rightarrow>
             (case parse bodyBytes of
                Inl e \<Rightarrow> ret (Inr body)
              | Inr None \<Rightarrow> ret (Inr body)
              | Inr (Some usage) \<Rightarrow>
                  also_do (reconcile h lib env ident policyID reservedTokens acctKey usage) (ret (Inr body)))))"

text \<open>The usage an event stream reports when it is closed after the given reads.\<close>

definition stream_usage :: "provider_type \<Rightarrow> string list \<Rightarrow> UsageData option" where
  "stream_usage pt chunks = (case pt of
      OpenAI \<Rightarrow> fst (Close (read_all openai_parse chunks (newTokenExtractingReader ())))
    | Anthropic \<Rightarrow> fst (Close (read_all Accumulator_Parse chunks (newTokenExtractingReader new_accumulator)))
    | _ \<Rightarrow> None)"

definition modify_response ::
  "Handler \<Rightarrow> request_lib \<Rightarrow> request_env \<Rightarrow> WorkloadIdentity \<Rightarrow> string \<Rightarrow> provider_type \<Rightarrow> int \<Rightarrow> bool \<Rightarrow> string \<Rightarrow>
     upstream_response \<Rightarrow> (string + resp_body) act" where
  "modify_response h lib env ident policyID providerType reservedTokens streaming acctKey resp =
     (let wid = wi_WorkloadID ident; plain = (ur_Chunks resp, ur_ReadError resp \<noteq> None, \<lambda>_. ret ()) in
      if ur_Status resp \<ge> 500 then
        also_do (record_act env acctKey (wrap64 (- reservedTokens)))
       (also_do (emitEvent h (reconciled_event wid reservedTokens 0 (wrap64 (- reservedTokens)) ''refund''))
       (also_do (add_tokens lib reservedTokens (TokensUsedTotal wid policyID ''refund'' reservedTokens))
       (also_do (emitEvent h (mk_event ''upstream_error'' wid ''warn'' [(''status'', AStr (itoa (ur_Status resp)))]))
         (ret (Inr plain)))))
      else if isSSEResponse (ur_ContentType resp) then
        (if streaming \<and> hd_sseExtraction h \<and> providerType \<in> {OpenAI, Anthropic}
         then ret (Inr (ur_Chunks resp, ur_ReadError resp \<noteq> None,
                (\<lambda>taken. case stream_usage providerType taken of
                    None \<Rightarrow> ret ()
                  | Some usage \<Rightarrow> reconcile h lib env ident policyID reservedTokens acctKey usage)))
         else ret (Inr plain))
      else handleNonStreamingResponse h lib env resp ident policyID providerType reservedTokens acctKey)"

section \<open>Proxying with enforcement\<close>

definition outgoing_body :: "Handler \<Rightarrow> provider_type \<Rightarrow> bool \<Rightarrow> string \<Rightarrow> string act" where
  "outgoing_body h providerType streaming bodyBytes =
     (if streaming \<and> providerType = OpenAI \<and> hd_sseExtraction h then
        (case injectStreamOptions bodyBytes of
           Panics p \<Rightarrow> raise p
         | Returns (Some modified) \<Rightarrow> ret modified
         | Returns None \<Rightarrow> ret bodyBytes)
      else ret bodyBytes)"

definition proxyWithEnforcement ::
  "Handler \<Rightarrow> request_lib \<Rightarrow> request_env \<Rightarrow> Request \<Rightarrow> WorkloadIdentity \<Rightarrow> Policy \<Rightarrow> provider_type \<Rightarrow> int \<Rightarrow> bool \<Rightarrow>
     string \<Rightarrow> string \<Rightarrow> unit act" where
  "proxyWithEnforcement h lib env r ident pol providerType reservedTokens streaming bodyBytes acctKey =
     (case resolveUpstream lib h r of
        None \<Rightarrow> upstream_missing
      | Some u \<Rightarrow>
          andthen (outgoing_body h providerType streaming bodyBytes) (\<lambda>body.
            ReverseProxy_ServeHTTP env (outgoing_to r u body)
              (modify_response h lib env ident (pol_ID pol) providerType reservedTokens streaming acctKey)
              (\<lambda>e. also_do (emitEvent h (mk_event ''upstream_timeout'' (wi_WorkloadID ident) ''error'' [(''error'', AStr e)]))
                (writeErrorResponse 504 ''upstream_timeout'' ''system'' ''upstream_did_not_respond'' ''reject''
                   ReasonUpstreamTimeout))))"

section \<open>The request handler\<close>

text \<open>Step 5 of the source: the guard. It says whether the request goes on.\<close>

definition guard_step ::
  "Handler \<Rightarrow> request_lib \<Rightarrow> WorkloadIdentity \<Rightarrow> Policy \<Rightarrow> string \<Rightarrow> int \<Rightarrow> bool act" where
  "guard_step h lib ident pol providerName maxTokens =
     (case CheckPerRequestGuard pol maxTokens of
        None \<Rightarrow> ret True
      | Some guardDec \<Rightarrow>
          if isListenerMode h then
            also_do (bump lib ListenerLatency)
           (also_do (emitEvent h (shadowEvent ident ShadowWouldThrottle (dec_ReasonCode guardDec) providerName '''' maxTokens 0))
           (also_do (bump lib (ListenerDecisionsTotal (wi_Namespace ident) (shadow_string ShadowWouldThrottle)
                (code_string (dec_ReasonCode guardDec))))
             (ret True)))
          else
            also_do (bump lib EnforcementLatency)
           (also_do (emitEvent h (mk_event ''guard_rejected'' (wi_WorkloadID ident) ''warn''
               [(''reason'', AStr (dec_Reason guardDec)), (''reason_code'', AStr (code_string (dec_ReasonCode guardDec)))]))
           (also_do (bump lib (RequestsTotal (wi_WorkloadID ident) (pol_ID pol) ''deny''))
           (also_do (bump lib (EnforcementDecisionsTotal ''deny'' (pol_ID pol)))
           (also_do (writeEnforcementResponse guardDec)
             (ret False))))))"

text \<open>Steps 7 and 8: the decision when the reservation was refused.\<close>

definition decision_step ::
  "Handler \<Rightarrow> request_lib \<Rightarrow> WorkloadIdentity \<Rightarrow> Policy \<Rightarrow> string \<Rightarrow> int \<Rightarrow> BudgetStatus \<Rightarrow> bool \<Rightarrow> bool act" where
  "decision_step h lib ident pol providerName maxTokens budgetStatus allowed =
     (case Increment '''' 0 of (fanoutStatus, fanoutAllowed) \<Rightarrow>
      if \<not> allowed \<or> \<not> fanoutAllowed then
        let decision = Evaluate pol budgetStatus fanoutStatus in
        if dec_Action decision = ActionAllow then ret True
        else if isListenerMode h then
          let shadowDec = (if dec_Action decision = ActionKill then ShadowWouldKill else ShadowWouldThrottle) in
          also_do (bump lib ListenerLatency)
         (also_do (emitEvent h (shadowEvent ident shadowDec (dec_ReasonCode decision) providerName '''' maxTokens 0))
         (also_do (bump lib (ListenerDecisionsTotal (wi_Namespace ident) (shadow_string shadowDec)
              (code_string (dec_ReasonCode decision))))
           (ret True)))
        else
          also_do (bump lib EnforcementLatency)
         (also_do (emitEvent h (mk_event ''enforcement'' (wi_WorkloadID ident) ''warn''
             [(''action'', AStr (actionName (dec_Action decision))),
              (''decision'', AStr (actionName (dec_Action decision))),
              (''category'', AStr ''enforcement''), (''tier'', AStr (itoa (dec_Tier decision))),
              (''reason'', AStr (dec_Reason decision)), (''reason_code'', AStr (code_string (dec_ReasonCode decision))),
              (''tokens_used'', AInt (WindowTokensUsed budgetStatus)),
              (''tokens_limit'', AInt (WindowTokensLimit budgetStatus)),
              (''burst_remaining'', AInt (bs_BurstRemaining budgetStatus)),
              (''reserved_tokens'', AInt maxTokens)]))
         (also_do (bump lib (RequestsTotal (wi_WorkloadID ident) (pol_ID pol) ''deny''))
         (also_do (bump lib (EnforcementDecisionsTotal ''deny'' (pol_ID pol)))
         (also_do (writeEnforcementResponse (decision\<lparr> dec_TokensUsed := WindowTokensUsed budgetStatus,
             dec_TokensLimit := WindowTokensLimit budgetStatus \<rparr>))
           (ret False)))))
      else ret True)"

text \<open>Step 9, before the request is proxied.\<close>

definition allow_step ::
  "Handler \<Rightarrow> request_lib \<Rightarrow> WorkloadIdentity \<Rightarrow> Policy \<Rightarrow> string \<Rightarrow> int \<Rightarrow> bool \<Rightarrow> unit act" where
  "allow_step h lib ident pol providerName maxTokens streaming =
     (if isListenerMode h then
        also_do (bump lib ListenerLatency)
       (also_do (emitEvent h (shadowEvent ident ShadowAllow None providerName '''' maxTokens 0))
       (also_do (bump lib (ListenerDecisionsTotal (wi_Namespace ident) (shadow_string ShadowAllow) ''''))
         (add_tokens lib maxTokens (ListenerTokensTotal (wi_Namespace ident) providerName ''reservation'' maxTokens))))
      else
        also_do (bump lib EnforcementLatency)
       (also_do (emitEvent h (mk_event ''request_allowed'' (wi_WorkloadID ident) ''info''
           [(''estimated_tokens'', AStr (itoa maxTokens)),
            (''streaming'', AStr (if streaming then ''true'' else ''false'')), (''phase'', AStr ''reservation'')]))
       (also_do (bump lib (RequestsTotal (wi_WorkloadID ident) (pol_ID pol) ''allow''))
       (also_do (add_tokens lib maxTokens (TokensUsedTotal (wi_WorkloadID ident) (pol_ID pol) ''reservation'' maxTokens))
         (bump lib (EnforcementDecisionsTotal ''allow'' (pol_ID pol)))))))"

text \<open>The estimate that is reserved for a request.\<close>

definition estimate :: "Request \<Rightarrow> int" where
  "estimate r = (let n = extractMaxTokens (request_body r) in
     if n = 0 then DefaultMaxTokens (DetectProvider (rq_Host r)) else n)"

definition handleWithPolicy ::
  "Handler \<Rightarrow> request_lib \<Rightarrow> request_env \<Rightarrow> Request \<Rightarrow> WorkloadIdentity \<Rightarrow> Policy \<Rightarrow> unit act" where
  "handleWithPolicy h lib env r ident pol =
     (let bodyBytes = request_body r;
          maxTokens = estimate r;
          providerType = DetectProvider (rq_Host r);
          streaming = isStreamingRequest bodyBytes;
          providerName = provider_name providerType;
          acctKey = accountingKey h (wi_WorkloadID ident) in
      andthen (guard_step h lib ident pol providerName maxTokens) (\<lambda>go.
      if \<not> go then ret ()
      else andthen (reserve_act env acctKey maxTokens) (\<lambda>(budgetStatus, allowed, err).
      if err \<noteq> None \<and> \<not> isListenerMode h then
        also_do (bump lib EnforcementLatency)
       (also_do (bump lib (EnforcementDecisionsTotal ''error'' ''none''))
         (writeErrorResponse 500 ''budget_config_error'' ''system'' ''unregistered_workload'' ''error''
            ReasonBudgetConfigError))
      else andthen (decision_step h lib ident pol providerName maxTokens budgetStatus allowed) (\<lambda>go.
      if \<not> go then ret ()
      else also_do (allow_step h lib ident pol providerName maxTokens streaming)
        (proxyWithEnforcement h lib env r ident pol providerType maxTokens streaming bodyBytes acctKey)))))"

definition identity_rejected :: "Handler \<Rightarrow> request_lib \<Rightarrow> request_env \<Rightarrow> Request \<Rightarrow> unit act" where
  "identity_rejected h lib env r =
     (if isListenerMode h then
        also_do (emitEvent h (shadowEvent no_identity ShadowWouldReject (Some ReasonIdentityMissing) '''' '''' 0 0))
       (also_do (bump lib (ListenerDecisionsTotal '''' (shadow_string ShadowWouldReject) (reason_string ReasonIdentityMissing)))
         (proxyDirect h lib env r))
      else
        also_do (emitEvent h (mk_event ''identity_rejected'' '''' ''warn''
           [(''error'', AStr ''missing workload identity''), (''reason_code'', AStr (reason_string ReasonIdentityMissing))]))
       (also_do (bump lib (EnforcementDecisionsTotal ''deny'' ''none''))
         (writeErrorResponse 403 ''identity_required'' ''enforcement'' ''missing_workload_identity'' ''reject''
            ReasonIdentityMissing)))"

definition policy_rejected :: "Handler \<Rightarrow> request_lib \<Rightarrow> request_env \<Rightarrow> Request \<Rightarrow> WorkloadIdentity \<Rightarrow> unit act" where
  "policy_rejected h lib env r ident =
     (if isListenerMode h then
        also_do (emitEvent h (shadowEvent ident ShadowWouldReject (Some ReasonPolicyNotFound) '''' '''' 0 0))
       (also_do (bump lib (ListenerDecisionsTotal (wi_Namespace ident) (shadow_string ShadowWouldReject)
            (reason_string ReasonPolicyNotFound)))
         (proxyDirect h lib env r))
      else
        also_do (emitEvent h (mk_event ''policy_rejected'' (wi_WorkloadID ident) ''warn''
           [(''reason_code'', AStr (reason_string ReasonPolicyNotFound))]))
       (also_do (bump lib (RequestsTotal (wi_WorkloadID ident) ''none'' ''deny''))
       (also_do (bump lib (EnforcementDecisionsTotal ''deny'' ''none''))
         (writeErrorResponse 403 ''policy_not_found'' ''enforcement'' ''no_matching_policy'' ''reject''
            ReasonPolicyNotFound))))"

text \<open>\<open>ServeHTTP\<close> without its deferred function.\<close>

definition serve_request :: "Handler \<Rightarrow> request_lib \<Rightarrow> request_env \<Rightarrow> Request \<Rightarrow> unit act" where
  "serve_request h lib env r s =
     (if st_degraded s then
        also_do (emitEvent h (mk_event ''degraded_passthrough'' '''' ''warn'' [])) (proxyDirect h lib env r) s
      else
        (case Resolve (hd_resolver h) r of
           Inl err \<Rightarrow>
             (case Lookup (hd_policyEngine h) no_identity of
                None \<Rightarrow> identity_rejected h lib env r s
              | Some pol \<Rightarrow> handleWithPolicy h lib env r (no_identity\<lparr> wi_WorkloadID := ''_default'' \<rparr>) pol s)
         | Inr ident \<Rightarrow>
             (case Lookup (hd_policyEngine h) ident of
                None \<Rightarrow> policy_rejected h lib env r ident s
              | Some pol \<Rightarrow> handleWithPolicy h lib env r ident pol s)))"

definition recovered :: "Handler \<Rightarrow> request_env \<Rightarrow> panic \<Rightarrow> unit act" where
  "recovered h env p s =
     also_do (emitEvent h (mk_event ''degraded_panic'' '''' ''error''
         [(''panic'', AStr (en_panic_text env p)), (''stack'', AStr (en_stack env)),
          (''state'', AStr ''degraded''), (''category'', AStr ''system'')]))
       (writeErrorResponse 500 ''service_degraded'' ''system'' ''internal_protection_triggered'' ''degraded''
          ReasonSystemDegraded)
       (s\<lparr> st_degraded := True \<rparr>)"

definition ServeHTTP :: "Handler \<Rightarrow> request_lib \<Rightarrow> request_env \<Rightarrow> Request \<Rightarrow> unit act" where
  "ServeHTTP h lib env r s =
     (case serve_request h lib env r s of
        (Returns u, s) \<Rightarrow> (Returns u, s)
      | (Panics p, s) \<Rightarrow> recovered h env p s)"

section \<open>Status\<close>

record statusResponse =
  sr_Version :: string
  sr_GenOpsSpecVersion :: string
  sr_DroppedEvents :: int
  sr_Workloads :: "string \<rightharpoonup> WorkloadStatus"

datatype status_reply = MethodNotAllowed | StatusOK statusResponse

definition ServeStatus :: "Handler \<Rightarrow> (string \<Rightarrow> gotime) \<Rightarrow> Request \<Rightarrow> hstate \<Rightarrow> status_reply \<times> hstate" where
  "ServeStatus h clk r s =
     (if rq_Method r \<noteq> ''GET'' then (MethodNotAllowed, s)
      else (case StatusAll clk (st_tracker s) of
              (workloads, t) \<Rightarrow>
                (StatusOK \<lparr> sr_Version = hd_version h, sr_GenOpsSpecVersion = hd_genopsSpecVersion h,
                    sr_DroppedEvents = Dropped (st_emitter s), sr_Workloads = workloads \<rparr>,
                 s\<lparr> st_tracker := t \<rparr>)))"

end
