(* ===== verification/Proxy_Properties.thy ===== *)
theory Proxy_Properties
  imports Proxy
begin

text \<open>
  What the request handler guarantees. The first section collects what every step of a
  request keeps (\<open>progress\<close>) and which steps always answer the client; the properties
  follow from these facts and from those of the tracker, the decider and the stream reader.
\<close>

section \<open>What every step keeps\<close>

text \<open>
  A step never undoes what was written or sent, leaves the mode of the handler and the
  emitter's channel alone, keeps the tracker sound and registers no workload.
\<close>

definition progress :: "hstate \<Rightarrow> hstate \<Rightarrow> bool" where
  "progress s s' \<longleftrightarrow> st_degraded s' = st_degraded s \<and>
     le_closed (st_emitter s') = le_closed (st_emitter s) \<and>
     prefix (st_replies s) (st_replies s') \<and> prefix (st_sent s) (st_sent s') \<and>
     (tracker_ok (st_tracker s) \<longrightarrow> tracker_ok (st_tracker s')) \<and>
     dom (windows (st_tracker s')) = dom (windows (st_tracker s))"

lemma progress_refl [simp]: "progress s s"
  by (simp add: progress_def)

lemma progress_trans [trans]: "progress s t \<Longrightarrow> progress t u \<Longrightarrow> progress s u"
  by (auto simp: progress_def intro: prefix_order.trans)

definition keeps :: "(hstate \<Rightarrow> hstate \<Rightarrow> bool) \<Rightarrow> 'a act \<Rightarrow> bool" where
  "keeps R m \<longleftrightarrow> (\<forall>s. R s (snd (m s)))"

lemma keepsD: "keeps R m \<Longrightarrow> R s (snd (m s))"
  by (simp add: keeps_def)

text \<open>The events the handler emits, before \<open>emitEvent\<close> stamps them: their types and their attributes.\<close>

definition event_types :: "string list" where
  "event_types = [''budget_reconciled'', ''degraded_panic'', ''degraded_passthrough'', ''enforcement'',
     ''guard_rejected'', ''identity_rejected'', ''listener_shadow'', ''policy_rejected'', ''request_allowed'',
     ''upstream_error'', ''upstream_timeout'']"

definition handler_event :: "Event \<Rightarrow> bool" where
  "handler_event e \<longleftrightarrow> e_Type e \<in> set event_types \<and>
     list_all (\<lambda>(k, v). take 7 k \<noteq> ''genops.'') (e_Attributes e)"

named_theorems prog \<open>steps that keep a relation\<close>

lemma handler_events [prog, simp]:
  "handler_event (shadowEvent ident sd rc nm model est act)"
  "handler_event (reconciled_event wid res act delta phase)"
  "handler_event (mk_event ''upstream_error'' wid sev [(''status'', st)])"
  "handler_event (mk_event ''upstream_timeout'' wid sev [(''error'', er)])"
  "handler_event (mk_event ''guard_rejected'' wid sev [(''reason'', rn), (''reason_code'', cd)])"
  "handler_event (mk_event ''enforcement'' wid sev [(''action'', ac), (''decision'', de), (''category'', ca),
     (''tier'', ti), (''reason'', rn), (''reason_code'', cd), (''tokens_used'', tu), (''tokens_limit'', lim),
     (''burst_remaining'', br), (''reserved_tokens'', rt)])"
  "handler_event (mk_event ''request_allowed'' wid sev [(''estimated_tokens'', et), (''streaming'', sg), (''phase'', ph)])"
  "handler_event (mk_event ''identity_rejected'' wid sev [(''error'', er), (''reason_code'', cd)])"
  "handler_event (mk_event ''policy_rejected'' wid sev [(''reason_code'', cd)])"
  "handler_event (mk_event ''degraded_passthrough'' wid sev [])"
  "handler_event (mk_event ''degraded_panic'' wid sev [(''panic'', pa), (''stack'', sk), (''state'', se), (''category'', ca)])"
  by (simp_all add: handler_event_def event_types_def mk_event_def shadowEvent_def reconciled_event_def)

text \<open>A \<open>ModifyResponse\<close> function is well behaved when it and the body it returns keep the relation.\<close>

definition modifies :: "(hstate \<Rightarrow> hstate \<Rightarrow> bool) \<Rightarrow> (string + resp_body) act \<Rightarrow> bool" where
  "modifies R m \<longleftrightarrow> keeps R m \<and>
     (\<forall>s chunks rerr onclose. fst (m s) = Returns (Inr (chunks, rerr, onclose)) \<longrightarrow> (\<forall>cs. keeps R (onclose cs)))"

lemma modifiesD:
  assumes "modifies R (m :: (string + resp_body) act)" "m s = (Returns (Inr (chunks, rerr, onclose)), s')"
  shows "keeps R (onclose cs)"
proof -
  have "fst (m s) = Returns (Inr (chunks, rerr, onclose))" using assms(2) by simp
  with assms(1) show ?thesis unfolding modifies_def by blast
qed

text \<open>
  A relation between the states before and after that every primitive step of a request keeps,
  is kept by the request: the induction over the handler's code is made once, here. \<open>R\<close> may
  depend on the handler, and emitting is only asked to keep it for the handler's own events.
\<close>

locale kept_by_steps =
  fixes R :: "hstate \<Rightarrow> hstate \<Rightarrow> bool" and h :: Handler
  assumes kept_refl: "R s s"
    and kept_trans: "R s t \<Longrightarrow> R t u \<Longrightarrow> R s u"
    and kept_write: "R s (s\<lparr> st_replies := st_replies s @ [r] \<rparr>)"
    and kept_bump: "R s (s\<lparr> st_metrics := st_metrics s @ [m] \<rparr>)"
    and kept_send: "R s (s\<lparr> st_sent := st_sent s @ [og] \<rparr>)"
    and kept_emit: "handler_event e \<Longrightarrow> R s (snd (emitEvent h e s))"
    and kept_reserve: "R s (snd (reserve_act env k n s))"
    and kept_record: "R s (snd (record_act env k n s))"
begin

lemma prog_ret [prog]: "keeps R (ret x)"
  by (simp add: keeps_def ret_def kept_refl)

lemma prog_raise [prog]: "keeps R (raise p)"
  by (simp add: keeps_def raise_def kept_refl)

lemma prog_andthen_on:
  assumes "keeps R m" "\<And>s x s'. m s = (Returns x, s') \<Longrightarrow> keeps R (f x)"
  shows "keeps R (andthen m f)"
  unfolding keeps_def
proof
  fix s
  obtain r s1 where m: "m s = (r, s1)" by fastforce
  then have s1: "R s s1" using keepsD [OF assms(1), of s] by simp
  show "R s (snd (andthen m f s))"
  proof (cases r)
    case (Returns x)
    then have "R s1 (snd (f x s1))" using assms(2) m by (blast intro: keepsD)
    with s1 m Returns show ?thesis by (auto simp: andthen_def intro: kept_trans)
  qed (use s1 m in \<open>simp add: andthen_def\<close>)
qed

lemma prog_andthen [prog]: "\<lbrakk> keeps R m; \<And>x. keeps R (f x) \<rbrakk> \<Longrightarrow> keeps R (andthen m f)"
  by (rule prog_andthen_on)

lemma prog_also_do [prog]: "\<lbrakk> keeps R m; keeps R n \<rbrakk> \<Longrightarrow> keeps R (also_do m n)"
  by (simp add: also_do_def prog_andthen)

lemma prog_do_all [prog]: "list_all (keeps R) ms \<Longrightarrow> keeps R (do_all ms)"
  by (induction ms) (simp_all add: prog)

lemma prog_write [prog]: "keeps R (write_reply r)"
  by (simp add: keeps_def write_reply_def kept_write)

lemma prog_count [prog]: "keeps R (count m)"
  by (simp add: keeps_def count_def kept_bump)

lemma prog_bump [prog]: "keeps R (bump lib m)"
  by (simp add: bump_def with_labels_def prog)

lemma prog_add_tokens [prog]: "keeps R (add_tokens lib v m)"
  by (simp add: add_tokens_def with_labels_def prog)

lemma prog_send [prog]: "keeps R (send_upstream og)"
  by (simp add: keeps_def send_upstream_def kept_send)

lemma prog_emit [prog]: "handler_event e \<Longrightarrow> keeps R (emitEvent h e)"
  by (simp add: keeps_def kept_emit)

lemma prog_reserve [prog]: "keeps R (reserve_act env k n)"
  by (simp add: keeps_def kept_reserve)

lemma prog_record [prog]: "keeps R (record_act env k n)"
  by (simp add: keeps_def kept_record)

lemma prog_if [prog]: "\<lbrakk> keeps R m; keeps R n \<rbrakk> \<Longrightarrow> keeps R (if b then m else n)"
  by simp

lemma prog_replies [prog]:
  "keeps R (writeErrorResponse a b c d e f)" "keeps R (writeEnforcementResponse dec)"
  "keeps R upstream_missing"
  by (auto simp: writeErrorResponse_def writeEnforcementResponse_def upstream_missing_def prog split: Action.split)

lemma prog_forward: "(\<And>cs. keeps R (onclose cs)) \<Longrightarrow> keeps R (forward_body env st (chunks, rerr, onclose))"
  unfolding forward_body_def by (auto simp: list_all_iff intro!: prog split: prod.split)

lemma prog_reverse_proxy:
  assumes mod: "\<And>resp. modifies R (modify resp)" and err: "\<And>e. keeps R (on_error e)"
  shows "keeps R (ReverseProxy_ServeHTTP env og modify on_error)"
proof -
  have "keeps R (andthen (modify resp) (\<lambda>r. case r of
      Inl e \<Rightarrow> on_error e | Inr body \<Rightarrow> forward_body env (ur_Status resp) body))" for resp
    by (rule prog_andthen_on)
      (use mod [of resp] in \<open>auto simp: err modifies_def intro: prog_forward modifiesD [OF mod] split: sum.split prod.split\<close>)
  then show ?thesis
    unfolding ReverseProxy_ServeHTTP_def by (auto intro!: prog_also_do prog_send err split: upstream.split)
qed

lemma prog_reconcile [prog]: "keeps R (reconcile h lib env ident pid n k u)"
  by (simp add: reconcile_def Let_def prog)

lemma modifies_ret: "(\<And>cs. keeps R (onclose cs)) \<Longrightarrow> modifies R (ret (Inr (chunks, rerr, onclose)))"
  by (simp add: modifies_def prog ret_def)

lemma modifies_also_do: "keeps R m \<Longrightarrow> modifies R n \<Longrightarrow> modifies R (also_do m n)"
  unfolding modifies_def
  by (auto intro: prog) (auto simp: also_do_def andthen_def split: prod.splits outcome.splits)

lemma modifies_modify_response: "modifies R (modify_response h lib env ident pid pt n streaming k resp)"
proof -
  have err: "modifies R (ret (Inl e))" for e by (simp add: modifies_def prog ret_def)
  have non: "modifies R (handleNonStreamingResponse h lib env resp ident pid pt n k)" for pt
    unfolding handleNonStreamingResponse_def Let_def
    by (auto intro!: modifies_ret modifies_also_do err prog split: option.split sum.split)
  have close: "keeps R (case stream_usage pt taken of None \<Rightarrow> ret ()
      | Some usage \<Rightarrow> reconcile h lib env ident pid n k usage)" for pt taken
    by (simp add: prog split: option.split)
  show ?thesis
    unfolding modify_response_def Let_def
    by (auto intro!: modifies_ret modifies_also_do non close prog)
qed

lemma prog_proxyDirect [prog]: "keeps R (proxyDirect h lib env r)"
  unfolding proxyDirect_def
  by (auto intro!: prog prog_reverse_proxy modifies_ret split: option.split)

lemma prog_outgoing_body [prog]: "keeps R (outgoing_body h pt streaming b)"
  unfolding outgoing_body_def by (auto intro!: prog split: outcome.split option.split)

lemma prog_proxyWithEnforcement [prog]:
  "keeps R (proxyWithEnforcement h lib env r ident pol pt n streaming b k)"
  unfolding proxyWithEnforcement_def
  by (auto intro!: prog prog_reverse_proxy modifies_modify_response split: option.split)

lemma prog_steps [prog]:
  "keeps R (guard_step h lib ident pol nm n)"
  "keeps R (decision_step h lib ident pol nm n bs a)"
  "keeps R (allow_step h lib ident pol nm n streaming)"
  unfolding guard_step_def decision_step_def allow_step_def Let_def
  by (auto intro!: prog split: option.split prod.split)

lemma prog_handleWithPolicy [prog]: "keeps R (handleWithPolicy h lib env r ident pol)"
  unfolding handleWithPolicy_def Let_def by (auto intro!: prog split: prod.split)

lemma prog_rejected [prog]:
  "keeps R (identity_rejected h lib env r)" "keeps R (policy_rejected h lib env r ident)"
  by (simp_all add: identity_rejected_def policy_rejected_def prog)

lemma prog_serve_request [prog]: "keeps R (serve_request h lib env r)"
  unfolding keeps_def serve_request_def
  by (auto intro!: keepsD [of R] prog split: sum.split option.split)

end

text \<open>The handler's progress is such a relation.\<close>

interpretation progress_steps: kept_by_steps progress h for h
proof unfold_locales
  show "progress s u" if "progress s t" "progress t u" for s t u using that by (rule progress_trans)
qed (auto simp: progress_def emitEvent_def Emit_def Let_def reserve_act_def record_act_def split_beta
    impl.reserve_sound impl.record_sound)

abbreviation progresses :: "'a act \<Rightarrow> bool" where
  "progresses \<equiv> keeps progress"

section \<open>Which steps answer the client\<close>

text \<open>A step that, when it returns, has written something to the client.\<close>

definition answers :: "'a act \<Rightarrow> bool" where
  "answers m \<longleftrightarrow> progresses m \<and>
     (\<forall>s x s'. m s = (Returns x, s') \<longrightarrow> length (st_replies s) < length (st_replies s'))"

named_theorems ans \<open>steps that answer\<close>

lemma answersI: "\<lbrakk> progresses m; \<And>s x s'. m s = (Returns x, s') \<Longrightarrow> length (st_replies s) < length (st_replies s') \<rbrakk>
   \<Longrightarrow> answers m"
  by (simp add: answers_def)

lemma progress_replies: "progress s s' \<Longrightarrow> length (st_replies s) \<le> length (st_replies s')"
  by (simp add: progress_def prefix_length_le)

lemma ans_write [ans]: "answers (write_reply r)"
  by (auto intro!: answersI prog simp: write_reply_def)

lemma ans_raise [ans]: "answers (raise p)"
  by (auto intro!: answersI prog simp: raise_def)

lemma ans_andthen_on:
  assumes "progresses m" "\<And>s x s'. m s = (Returns x, s') \<Longrightarrow> answers (f x)"
  shows "answers (andthen m f)"
proof (rule answersI)
  show "progresses (andthen m f)" using assms by (auto simp: answers_def intro: progress_steps.prog_andthen_on)
  fix s x s' assume a: "andthen m f s = (Returns x, s')"
  then obtain y s1 where m: "m s = (Returns y, s1)" and f: "f y s1 = (Returns x, s')"
    by (auto simp: andthen_def split: prod.splits outcome.splits)
  have "length (st_replies s) \<le> length (st_replies s1)"
    using progress_replies [OF keepsD [OF assms(1), of s]] m by simp
  also have "\<dots> < length (st_replies s')" using assms(2) [OF m] f by (auto simp: answers_def)
  finally show "length (st_replies s) < length (st_replies s')" .
qed

lemma ans_andthen_last: "\<lbrakk> progresses m; \<And>x. answers (f x) \<rbrakk> \<Longrightarrow> answers (andthen m f)"
  by (rule ans_andthen_on)

lemma ans_andthen_first:
  assumes "answers m" "\<And>x. progresses (f x)"
  shows "answers (andthen m f)"
proof (rule answersI)
  show "progresses (andthen m f)" using assms by (auto simp: answers_def intro: prog)
  fix s x s' assume a: "andthen m f s = (Returns x, s')"
  then obtain y s1 where m: "m s = (Returns y, s1)" and f: "f y s1 = (Returns x, s')"
    by (auto simp: andthen_def split: prod.splits outcome.splits)
  have "length (st_replies s) < length (st_replies s1)" using assms(1) m by (auto simp: answers_def)
  also have "\<dots> \<le> length (st_replies s')"
    using progress_replies [OF keepsD [OF assms(2), of s1 y]] f by simp
  finally show "length (st_replies s) < length (st_replies s')" .
qed

lemma ans_also_do: "progresses m \<Longrightarrow> answers n \<Longrightarrow> answers (also_do m n)"
  "answers m \<Longrightarrow> progresses n \<Longrightarrow> answers (also_do m n)"
  by (simp_all add: also_do_def ans_andthen_last ans_andthen_first)

lemma ans_replies [ans]:
  "answers (writeErrorResponse a b c d e f)" "answers upstream_missing"
  "dec_Action dec \<noteq> ActionAllow \<Longrightarrow> answers (writeEnforcementResponse dec)"
  by (auto simp: writeErrorResponse_def writeEnforcementResponse_def upstream_missing_def ans split: Action.split)

lemma ans_forward: "(\<And>cs. progresses (onclose cs)) \<Longrightarrow> answers (forward_body env st (chunks, rerr, onclose))"
  unfolding forward_body_def
  by (auto simp: list_all_iff intro!: ans_also_do(2) prog ans split: prod.split)

lemma ans_reverse_proxy:
  assumes mod: "\<And>resp. modifies progress (modify resp)" and err: "\<And>e. answers (on_error e)"
  shows "answers (ReverseProxy_ServeHTTP env og modify on_error)"
proof -
  have "answers (andthen (modify resp) (\<lambda>r. case r of
      Inl e \<Rightarrow> on_error e | Inr body \<Rightarrow> forward_body env (ur_Status resp) body))" for resp
    by (rule ans_andthen_on)
      (use mod [of resp] in \<open>auto simp: err modifies_def intro: ans_forward modifiesD [OF mod] split: sum.split prod.split\<close>)
  then show ?thesis
    unfolding ReverseProxy_ServeHTTP_def by (auto intro!: ans_also_do(1) progress_steps.prog_send err split: upstream.split)
qed

lemma ans_proxyDirect [ans]: "answers (proxyDirect h lib env r)"
  unfolding proxyDirect_def
  by (auto intro!: ans prog ans_reverse_proxy progress_steps.modifies_ret split: option.split)

lemma ans_proxyWithEnforcement [ans]:
  "answers (proxyWithEnforcement h lib env r ident pol pt n streaming b k)"
  unfolding proxyWithEnforcement_def
  by (auto intro!: ans prog ans_andthen_last ans_also_do(1) ans_reverse_proxy progress_steps.modifies_modify_response
      split: option.split)

text \<open>A step that decides whether the request goes on has answered when it says no.\<close>

definition answers_no :: "bool act \<Rightarrow> bool" where
  "answers_no m \<longleftrightarrow> progresses m \<and>
     (\<forall>s s'. m s = (Returns False, s') \<longrightarrow> length (st_replies s) < length (st_replies s'))"

lemma ans_gate:
  assumes "answers_no m" "answers n"
  shows "answers (andthen m (\<lambda>go. if \<not> go then ret () else n))"
proof (rule answersI)
  show "progresses (andthen m (\<lambda>go. if \<not> go then ret () else n))"
    using assms by (auto simp: answers_def answers_no_def intro!: prog)
  fix s x s' assume "andthen m (\<lambda>go. if \<not> go then ret () else n) s = (Returns x, s')"
  then obtain go s1 where m: "m s = (Returns go, s1)"
      and f: "(if \<not> go then ret () else n) s1 = (Returns x, s')"
    by (auto simp: andthen_def split: prod.splits outcome.splits)
  have "length (st_replies s) \<le> length (st_replies s1)"
    using assms(1) m progress_replies [of s s1] keepsD [of progress m s] by (simp add: answers_no_def)
  then show "length (st_replies s) < length (st_replies s')"
    using assms m f by (cases go) (auto simp: answers_no_def answers_def ret_def intro: order_le_less_trans)
qed

lemma answers_no_ret: "answers_no (ret True)"
  by (simp add: answers_no_def prog ret_def)

lemma answers_no_also:
  assumes "progresses m" "answers_no n"
  shows "answers_no (also_do m n)"
  unfolding answers_no_def
proof (intro conjI allI impI)
  show "progresses (also_do m n)" using assms by (simp add: answers_no_def prog)
  fix s s' assume "also_do m n s = (Returns False, s')"
  then obtain y s1 where m: "m s = (Returns y, s1)" and n: "n s1 = (Returns False, s')"
    by (auto simp: also_do_def andthen_def split: prod.splits outcome.splits)
  have "length (st_replies s) \<le> length (st_replies s1)"
    using m progress_replies [of s s1] keepsD [OF assms(1), of s] by simp
  also have "\<dots> < length (st_replies s')" using assms(2) n by (auto simp: answers_no_def)
  finally show "length (st_replies s) < length (st_replies s')" .
qed

lemma answers_no_final: "answers m \<Longrightarrow> answers_no (also_do m (ret False))"
  using ans_also_do(2) [of m "ret False"] by (auto simp: answers_no_def answers_def prog)

lemmas answers_no_intros = answers_no_ret answers_no_final answers_no_also

lemma answers_no_guard: "answers_no (guard_step h lib ident pol nm n)"
proof (cases "CheckPerRequestGuard pol n")
  case (Some dec)
  then have "dec_Action dec \<noteq> ActionAllow" by (auto simp: CheckPerRequestGuard_def split: if_splits)
  with Some show ?thesis
    unfolding guard_step_def by (simp add: answers_no_intros prog ans)
qed (simp add: guard_step_def answers_no_ret)

lemma answers_no_decision: "answers_no (decision_step h lib ident pol nm n bs a)"
  unfolding decision_step_def Let_def by (simp add: answers_no_intros prog ans split: prod.split)

lemma ans_handleWithPolicy [ans]: "answers (handleWithPolicy h lib env r ident pol)"
  unfolding handleWithPolicy_def Let_def
  by (intro ans_gate answers_no_guard ans_andthen_last [OF progress_steps.prog_reserve])
    (auto intro!: ans_gate answers_no_decision ans_also_do(1) ans prog split: prod.split)

lemma ans_rejected [ans]:
  "answers (identity_rejected h lib env r)" "answers (policy_rejected h lib env r ident)"
  by (auto simp: identity_rejected_def policy_rejected_def intro!: ans_also_do(1) ans prog)

lemma ans_serve_request: "answers (serve_request h lib env r)"
proof (rule answersI)
  show "progresses (serve_request h lib env r)" by (rule prog)
  fix s x s' assume a: "serve_request h lib env r s = (Returns x, s')"
  have "answers (also_do (emitEvent h (mk_event ''degraded_passthrough'' '''' ''warn'' [])) (proxyDirect h lib env r))"
    by (intro ans_also_do(1) prog ans)
  note this [unfolded answers_def] ans_handleWithPolicy [unfolded answers_def] ans_rejected [unfolded answers_def]
  then show "length (st_replies s) < length (st_replies s')"
    using a unfolding serve_request_def
    by (simp split: if_split_asm sum.split_asm option.split_asm)
qed

section \<open>Steps that only log and count\<close>

text \<open>
  What the Prometheus client documents of label values: one that is not valid UTF-8 makes
  \<open>WithLabelValues\<close> panic, any other string is taken. The label values of a request are its
  identity, its namespace and the identifier of its policy; the others are literals.
\<close>

definition utf8_labels :: "request_lib \<Rightarrow> bool" where
  "utf8_labels lib \<longleftrightarrow> (\<forall>s. lib_label_panics lib s = (\<not> utf8_valid s))"

definition valid_labels :: "request_lib \<Rightarrow> WorkloadIdentity \<Rightarrow> string \<Rightarrow> bool" where
  "valid_labels lib ident policyID \<longleftrightarrow> utf8_labels lib \<and> utf8_valid (wi_WorkloadID ident) \<and>
     utf8_valid (wi_Namespace ident) \<and> utf8_valid policyID"

lemma utf8_valid_literals [simp]:
  "utf8_valid ''''" "utf8_valid ''allow''" "utf8_valid ''deny''" "utf8_valid ''error''" "utf8_valid ''none''"
  "utf8_valid ''reservation''" "utf8_valid ''refund''" "utf8_valid ''actual''" "utf8_valid ''_default''"
  "utf8_valid ''would_reject''" "utf8_valid ''identity_missing''" "utf8_valid ''policy_not_found''"
  by code_simp+

lemma utf8_valid_shadow [simp]: "utf8_valid (shadow_string d)"
  by (cases d; simp only:; code_simp)

lemma utf8_valid_reason [simp]: "utf8_valid (reason_string c)"
  by (cases c; simp only:; code_simp)

lemma utf8_valid_code [simp]: "utf8_valid (code_string c)"
  by (cases c) (simp_all add: code_string_def)

lemma utf8_valid_provider [simp]: "utf8_valid (provider_name pt)"
  by (cases pt; simp only:; code_simp)

text \<open>
  While the emitter is open, emitting events and counting change nothing else and never
  panic; the values given to counters and labels have to be acceptable to them.
\<close>

definition quiet :: "hstate \<Rightarrow> hstate \<Rightarrow> bool" where
  "quiet s s' \<longleftrightarrow> st_tracker s' = st_tracker s \<and> st_degraded s' = st_degraded s \<and>
     st_replies s' = st_replies s \<and> st_sent s' = st_sent s \<and>
     \<not> le_closed (st_emitter s) \<and> \<not> le_closed (st_emitter s')"

definition quiets :: "unit act \<Rightarrow> bool" where
  "quiets m \<longleftrightarrow> (\<forall>s. \<not> le_closed (st_emitter s) \<longrightarrow> (\<exists>s'. m s = (Returns (), s') \<and> quiet s s'))"

named_theorems quieting \<open>steps that only log and count\<close>

lemma quiet_trans: "quiet s t \<Longrightarrow> quiet t u \<Longrightarrow> quiet s u"
  by (simp add: quiet_def)

lemma quiets_emit [quieting]: "quiets (emitEvent h e)"
  by (auto simp: quiets_def emitEvent_def Emit_def Let_def quiet_def)

lemma quiets_count [quieting]: "quiets (count m)"
  by (simp add: quiets_def count_def quiet_def)

lemma with_labels_valid:
  "utf8_labels lib \<Longrightarrow> list_all utf8_valid (metric_labels m) \<Longrightarrow> with_labels lib m act = act"
  by (auto simp: with_labels_def utf8_labels_def list_ex_iff list_all_iff)

lemma quiets_bump [quieting]:
  "utf8_labels lib \<Longrightarrow> list_all utf8_valid (metric_labels m) \<Longrightarrow> quiets (bump lib m)"
  by (simp add: bump_def with_labels_valid quiets_count)

lemma quiets_ret [quieting]: "quiets (ret ())"
  by (simp add: quiets_def ret_def quiet_def)

lemma quiets_add [quieting]:
  "\<lbrakk> \<not> lib_counter_panics lib v; utf8_labels lib; list_all utf8_valid (metric_labels m) \<rbrakk> \<Longrightarrow>
     quiets (add_tokens lib v m)"
  by (simp add: add_tokens_def with_labels_valid quiets_count)

lemma quiet_then:
  fixes s :: hstate
  assumes "quiets m" "\<not> le_closed (st_emitter s)"
  obtains s' where "quiet s s'" "also_do m n s = n s'"
  using assms by (auto simp: quiets_def also_do_def andthen_def)

lemma quiets_also_do [quieting]:
  assumes "quiets m" "quiets n"
  shows "quiets (also_do m n)"
  unfolding quiets_def
proof (intro allI impI)
  fix s :: hstate assume s: "\<not> le_closed (st_emitter s)"
  obtain s1 where s1: "quiet s s1" "also_do m n s = n s1" by (rule quiet_then [OF assms(1) s])
  then obtain s2 where "n s1 = (Returns (), s2)" "quiet s1 s2" using assms(2) by (auto simp: quiets_def quiet_def)
  with s1 show "\<exists>s'. also_do m n s = (Returns (), s') \<and> quiet s s'" using quiet_trans by fastforce
qed

lemma quiets_allow:
  "\<lbrakk> \<not> lib_counter_panics lib n; valid_labels lib ident (pol_ID pol) \<rbrakk> \<Longrightarrow>
     quiets (allow_step h lib ident pol (provider_name pt) n streaming)"
  by (simp add: allow_step_def quieting valid_labels_def)

text \<open>Running a step.\<close>

lemma run_simps [simp]:
  "ret x s = (Returns x, s)" "raise p s = (Panics p, s)"
  "write_reply r s = (Returns (), s\<lparr> st_replies := st_replies s @ [r] \<rparr>)"
  "send_upstream og s = (Returns (), s\<lparr> st_sent := st_sent s @ [og] \<rparr>)"
  by (simp_all add: ret_def raise_def write_reply_def send_upstream_def)

lemma run_also_do:
  "m s = (Returns (), s') \<Longrightarrow> also_do m n s = n s'" "m s = (Panics p, s') \<Longrightarrow> also_do m n s = (Panics p, s')"
  by (simp_all add: also_do_def andthen_def)

lemma run_andthen:
  "m s = (Returns x, s') \<Longrightarrow> andthen m f s = f x s'" "m s = (Panics p, s') \<Longrightarrow> andthen m f s = (Panics p, s')"
  by (simp_all add: andthen_def)

lemma also_do_assoc: "also_do (also_do m n) k = also_do m (also_do n k)"
  by (auto simp: also_do_def andthen_def fun_eq_iff split: prod.split outcome.split)

lemma run_writes:
  "do_all (map (\<lambda>c. write_reply (UpstreamBody c)) cs) s =
     (Returns (), s\<lparr> st_replies := st_replies s @ map UpstreamBody cs \<rparr>)"
  by (induction cs arbitrary: s) (simp_all add: run_also_do)

lemma run_forward:
  "forward_body env status (chunks, rerr, onclose) s =
     (case copy_body (en_client_takes env) chunks rerr of (written, taken, failed) \<Rightarrow>
        also_do (onclose taken) (if failed then raise AbortHandler else ret ())
          (s\<lparr> st_replies := st_replies s @ UpstreamHeader status # map UpstreamBody written \<rparr>))"
  by (simp add: forward_body_def run_also_do run_writes split: prod.split)

lemma run_reserve:
  "Reserve (en_reserve env) k n (st_tracker s) = (Returns x, t) \<Longrightarrow>
     reserve_act env k n s = (Returns x, s\<lparr> st_tracker := t \<rparr>)"
  by (simp add: reserve_act_def)

lemma recovered_open:
  assumes "\<not> le_closed (st_emitter s)"
  shows "\<exists>s'. recovered h env p s = (Returns (), s') \<and> st_degraded s' \<and> \<not> le_closed (st_emitter s') \<and>
     st_tracker s' = st_tracker s \<and> st_sent s' = st_sent s \<and>
     st_replies s' = st_replies s @ [ErrorReply 500 ''service_degraded'' ''system''
        ''internal_protection_triggered'' ''degraded'' ReasonSystemDegraded]"
proof -
  let ?e = "mk_event ''degraded_panic'' '''' ''error''
         [(''panic'', AStr (en_panic_text env p)), (''stack'', AStr (en_stack env)),
          (''state'', AStr ''degraded''), (''category'', AStr ''system'')]"
  let ?w = "writeErrorResponse 500 ''service_degraded'' ''system'' ''internal_protection_triggered'' ''degraded''
          ReasonSystemDegraded"
  have op: "\<not> le_closed (st_emitter (s\<lparr> st_degraded := True \<rparr>))" using assms by simp
  obtain s1 where s1: "quiet (s\<lparr> st_degraded := True \<rparr>) s1"
      "also_do (emitEvent h ?e) ?w (s\<lparr> st_degraded := True \<rparr>) = ?w s1"
    by (rule quiet_then [OF quiets_emit op])
  then show ?thesis
    unfolding recovered_def by (simp only: writeErrorResponse_def run_simps) (simp add: quiet_def)
qed

section \<open>The path of a request\<close>

lemma serve_enters_handle:
  "\<lbrakk> \<not> st_degraded s; Resolve (hd_resolver h) r = Inr ident; Lookup (hd_policyEngine h) ident = Some pol \<rbrakk>
   \<Longrightarrow> serve_request h lib env r s = handleWithPolicy h lib env r ident pol s"
  by (simp add: serve_request_def)

text \<open>The guard lets the request pass and the tracker has answered.\<close>

definition after_reserve ::
  "Handler \<Rightarrow> request_lib \<Rightarrow> request_env \<Rightarrow> Request \<Rightarrow> WorkloadIdentity \<Rightarrow> Policy \<Rightarrow> BudgetStatus \<times> bool \<times> tracker_error option \<Rightarrow> unit act" where
  "after_reserve h lib env r ident pol x =
     (case x of (budgetStatus, allowed, err) \<Rightarrow>
      if err \<noteq> None \<and> \<not> isListenerMode h then
        also_do (bump lib EnforcementLatency)
       (also_do (bump lib (EnforcementDecisionsTotal ''error'' ''none''))
         (writeErrorResponse 500 ''budget_config_error'' ''system'' ''unregistered_workload'' ''error''
            ReasonBudgetConfigError))
      else andthen (decision_step h lib ident pol (provider_name (DetectProvider (rq_Host r))) (estimate r) budgetStatus allowed)
       (\<lambda>go. if \<not> go then ret ()
        else also_do (allow_step h lib ident pol (provider_name (DetectProvider (rq_Host r))) (estimate r)
            (isStreamingRequest (request_body r)))
          (proxyWithEnforcement h lib env r ident pol (DetectProvider (rq_Host r)) (estimate r)
            (isStreamingRequest (request_body r)) (request_body r) (accountingKey h (wi_WorkloadID ident)))))"

lemma handle_reserved:
  assumes "CheckPerRequestGuard pol (estimate r) = None"
    and "Reserve (en_reserve env) (accountingKey h (wi_WorkloadID ident)) (estimate r) (st_tracker s) = (Returns x, t)"
  shows "handleWithPolicy h lib env r ident pol s =
    after_reserve h lib env r ident pol x (s\<lparr> st_tracker := t \<rparr>)"
  unfolding handleWithPolicy_def Let_def guard_step_def after_reserve_def assms(1)
  by (simp add: andthen_def run_reserve [OF assms(2)] split: prod.split)

lemma decision_goes_on:
  assumes "a \<or> WindowTokensUsed bs \<le> WindowTokensLimit bs"
  shows "decision_step h lib ident pol nm n bs a s = (Returns True, s)"
  using assms by (auto simp: decision_step_def Increment_def Let_def Evaluate_Allow)

text \<open>
  The request is proxied: it passed the guard, and its reservation was granted or the
  decider let it pass.
\<close>

lemma handle_proxied:
  assumes "CheckPerRequestGuard pol (estimate r) = None"
    and "Reserve (en_reserve env) (accountingKey h (wi_WorkloadID ident)) (estimate r) (st_tracker s)
       = (Returns (bs, a, err), t)"
    and "err = None \<or> isListenerMode h" "a \<or> WindowTokensUsed bs \<le> WindowTokensLimit bs"
    and "\<not> le_closed (st_emitter s)" "\<not> lib_counter_panics lib (estimate r)"
    and "valid_labels lib ident (pol_ID pol)"
  obtains s1 where "quiet (s\<lparr> st_tracker := t \<rparr>) s1"
    "handleWithPolicy h lib env r ident pol s =
       proxyWithEnforcement h lib env r ident pol (DetectProvider (rq_Host r)) (estimate r)
         (isStreamingRequest (request_body r)) (request_body r) (accountingKey h (wi_WorkloadID ident)) s1"
proof -
  have op: "\<not> le_closed (st_emitter (s\<lparr> st_tracker := t \<rparr>))" using assms(5) by simp
  show ?thesis
    by (rule quiet_then [OF quiets_allow [OF assms(6,7)] op])
      (rule that, assumption, simp add: handle_reserved [OF assms(1,2)] after_reserve_def
        run_andthen(1) [OF decision_goes_on [OF assms(4)]] assms(3) disj_not1 [symmetric])
qed

text \<open>A streaming request is a JSON object, so injecting the stream options cannot panic.\<close>

lemma streaming_is_object:
  assumes "isStreamingRequest b"
  shows "\<exists>ms. parse_json b = Some (JObj ms)"
proof -
  obtain req where "Unmarshal stream_request_field \<lparr> sr_Stream = None \<rparr> b = Some req" "sr_Stream req = Some True"
    using assms by (auto simp: isStreamingRequest_def split: if_splits option.splits)
  then obtain v where v: "parse_json b = Some v"
      "decode_struct stream_request_field v \<lparr> sr_Stream = None \<rparr> = Some req" "sr_Stream req = Some True"
    by (auto simp: Unmarshal_def bind_eq_Some_conv)
  then show ?thesis by (cases v) (auto simp: decode_struct_def)
qed

definition sent_body :: "Handler \<Rightarrow> Request \<Rightarrow> string" where
  "sent_body h r = (let b = request_body r in
     if isStreamingRequest b \<and> DetectProvider (rq_Host r) = OpenAI \<and> hd_sseExtraction h
     then (case injectStreamOptions b of Returns (Some m) \<Rightarrow> m | _ \<Rightarrow> b) else b)"

lemma run_outgoing_body:
  "outgoing_body h (DetectProvider (rq_Host r)) (isStreamingRequest (request_body r)) (request_body r) s
     = (Returns (sent_body h r), s)"
  using streaming_is_object [of "request_body r"]
  by (auto simp: outgoing_body_def sent_body_def Let_def injectStreamOptions_def)

text \<open>The upstream has answered; what remains is to modify and forward the response.\<close>

lemma proxy_responds:
  assumes "resolveUpstream lib h r = Some u" "en_upstream env (outgoing_to r u (sent_body h r)) = Responds resp"
  shows "proxyWithEnforcement h lib env r ident pol (DetectProvider (rq_Host r)) n
      (isStreamingRequest (request_body r)) (request_body r) k s =
    andthen (modify_response h lib env ident (pol_ID pol) (DetectProvider (rq_Host r)) n
        (isStreamingRequest (request_body r)) k resp)
      (\<lambda>x. case x of
          Inl e \<Rightarrow> also_do (emitEvent h (mk_event ''upstream_timeout'' (wi_WorkloadID ident) ''error'' [(''error'', AStr e)]))
            (writeErrorResponse 504 ''upstream_timeout'' ''system'' ''upstream_did_not_respond'' ''reject''
               ReasonUpstreamTimeout)
        | Inr body \<Rightarrow> forward_body env (ur_Status resp) body)
      (s\<lparr> st_sent := st_sent s @ [outgoing_to r u (sent_body h r)] \<rparr>)"
  unfolding proxyWithEnforcement_def
  by (simp add: assms run_andthen(1) [OF run_outgoing_body] ReverseProxy_ServeHTTP_def run_also_do)

section \<open>Properties\<close>

text \<open>
  C4. Every request is answered and no panic escapes. As long as the emitter is open, for
  every handler, request and behaviour of the upstream, the client and the libraries:
  \<open>ServeHTTP\<close> returns, has written at least one reply after the earlier ones, keeps the
  tracker sound and the registered workloads as they were, and switches to degraded mode
  exactly when something panicked on the way, answering with status 500 then.
\<close>

theorem every_request_answered:
  assumes "\<not> le_closed (st_emitter s)" "tracker_ok (st_tracker s)"
  shows "\<exists>s'. ServeHTTP h lib env r s = (Returns (), s') \<and>
    length (st_replies s) < length (st_replies s') \<and> prefix (st_replies s) (st_replies s') \<and>
    tracker_ok (st_tracker s') \<and> dom (windows (st_tracker s')) = dom (windows (st_tracker s)) \<and>
    st_degraded s' = (st_degraded s \<or> \<not> returned (fst (serve_request h lib env r s))) \<and>
    (\<not> returned (fst (serve_request h lib env r s)) \<longrightarrow>
      last (st_replies s') = ErrorReply 500 ''service_degraded'' ''system''
        ''internal_protection_triggered'' ''degraded'' ReasonSystemDegraded)"
proof -
  obtain res s1 where run: "serve_request h lib env r s = (res, s1)" by fastforce
  have p: "progress s s1" using keepsD [OF progress_steps.prog_serve_request, of s h lib env r] run by simp
  then have s1: "\<not> le_closed (st_emitter s1)" "prefix (st_replies s) (st_replies s1)"
    "tracker_ok (st_tracker s1)" "dom (windows (st_tracker s1)) = dom (windows (st_tracker s))"
    "st_degraded s1 = st_degraded s"
    using assms by (simp_all add: progress_def)
  show ?thesis
  proof (cases res)
    case (Returns x)
    then have "length (st_replies s) < length (st_replies s1)"
      using ans_serve_request run by (auto simp: answers_def)
    with Returns run s1 show ?thesis by (simp add: ServeHTTP_def)
  next
    case (Panics e)
    from recovered_open [OF s1(1), of h env e] obtain s2
      where "recovered h env e s1 = (Returns (), s2)" "st_degraded s2" "st_tracker s2 = st_tracker s1"
        "st_replies s2 = st_replies s1 @ [ErrorReply 500 ''service_degraded'' ''system''
           ''internal_protection_triggered'' ''degraded'' ReasonSystemDegraded]" by blast
    with Panics run s1 prefix_length_le [OF s1(2)] show ?thesis
      by (simp add: ServeHTTP_def prefix_prefix)
  qed
qed

text \<open>
  A concrete handler for the witnesses: the engine of a validated configuration with one
  workload, its requests identified by header, an upstream that always answers, and counters
  that refuse to decrease.
\<close>

definition demo_handler :: "string \<Rightarrow> Handler" where
  "demo_handler mode = NewHandler \<lparr> hd_resolver = ByHeader (NewHeaderResolver ''x-genops-workload-id''),
     hd_policyEngine = MapE (fst (NewMapEngine demo_config)), hd_upstreams = [(''openai'', ''https://api.openai.com'')],
     hd_sseExtraction = True, hd_responseHeaderTimeout = 0, hd_version = ''dev'', hd_genopsSpecVersion = '''',
     hd_mode = mode, hd_listenerAccountingKey = '''' \<rparr>"

definition demo_lib :: request_lib where
  "demo_lib = \<lparr> lib_url_parse = (\<lambda>u. Some \<lparr> url_Scheme = ''https'', url_Host = ''api.openai.com'',
       url_Path = '''', url_RawQuery = '''' \<rparr>),
     lib_counter_panics = (\<lambda>v. v < 0), lib_label_panics = (\<lambda>s. \<not> utf8_valid s) \<rparr>"

lemma demo_labels [simp]: "utf8_labels demo_lib"
  by (simp add: utf8_labels_def demo_lib_def)

definition demo_response :: "int \<Rightarrow> string \<Rightarrow> string list \<Rightarrow> upstream_response" where
  "demo_response status ctype chunks =
     \<lparr> ur_Status = status, ur_ContentType = ctype, ur_Chunks = chunks, ur_ReadError = None \<rparr>"

definition demo_env :: "upstream_response \<Rightarrow> request_env" where
  "demo_env resp = \<lparr> en_reserve = (\<lambda>_. 0), en_record = (\<lambda>_. Second), en_timestamp = Second,
     en_upstream = (\<lambda>_. Responds resp), en_client_takes = None, en_panic_text = (\<lambda>_. ''panic''), en_stack = '''' \<rparr>"

definition demo_request :: "string \<Rightarrow> Request" where
  "demo_request body = blank_request\<lparr> rq_Header := [''X-Genops-Workload-Id'' \<mapsto> [''svc'']], rq_Body := Some body \<rparr>"

definition demo_state :: hstate where
  "demo_state = \<lparr> st_degraded = False, st_tracker = demo_tracker, st_emitter = NewLogEmitter,
     st_metrics = [], st_replies = [], st_sent = [] \<rparr>"

lemma demo_state_simps [simp]:
  "\<not> st_degraded demo_state" "st_tracker demo_state = demo_tracker" "\<not> le_closed (st_emitter demo_state)"
  "st_replies demo_state = []" "st_sent demo_state = []" "tracker_ok demo_tracker"
  by (simp_all add: demo_state_def NewLogEmitter_def demo_tracker_ok)

theorem every_request_answered_witness:
  "\<exists>s'. ServeHTTP (demo_handler ''enforcement'') demo_lib (demo_env (demo_response 200 ''text/plain'' []))
      (demo_request ''hello'') demo_state = (Returns (), s') \<and> 0 < length (st_replies s') \<and>
      tracker_ok (st_tracker s')"
  using every_request_answered [of demo_state "demo_handler ''enforcement''" demo_lib
      "demo_env (demo_response 200 ''text/plain'' [])" "demo_request ''hello''"]
  by auto

text \<open>What the reconciliation does to the tracker.\<close>

lemma run_record:
  assumes "tracker_ok (st_tracker s)"
  shows "record_act env k n s = (Returns (), s\<lparr> st_tracker := snd (Record (en_record env)
     \<lparr> ur_WorkloadID = k, ur_Tokens = n, ur_Timestamp = en_timestamp env, ur_IsEstimate = False \<rparr> (st_tracker s)) \<rparr>)"
  using impl.record_returns [OF assms, of "en_record env" "\<lparr> ur_WorkloadID = k, ur_Tokens = n,
      ur_Timestamp = en_timestamp env, ur_IsEstimate = False \<rparr>"]
  by (simp add: record_act_def split_beta)

definition recorded :: "request_env \<Rightarrow> string \<Rightarrow> int \<Rightarrow> TrackerImpl \<Rightarrow> TrackerImpl" where
  "recorded env k n t = snd (Record (en_record env)
     \<lparr> ur_WorkloadID = k, ur_Tokens = n, ur_Timestamp = en_timestamp env, ur_IsEstimate = False \<rparr> t)"

lemma run_reconcile:
  assumes "tracker_ok (st_tracker s)" "\<not> le_closed (st_emitter s)" "\<not> lib_counter_panics lib (TotalTokens u)"
    and "valid_labels lib ident pid"
  shows "\<exists>s'. reconcile h lib env ident pid n k u s = (Returns (), s') \<and>
     quiet (s\<lparr> st_tracker := recorded env k (wrap64 (TotalTokens u - n)) (st_tracker s) \<rparr>) s'"
proof -
  let ?d = "wrap64 (TotalTokens u - n)"
  let ?s = "s\<lparr> st_tracker := recorded env k ?d (st_tracker s) \<rparr>"
  let ?m = "also_do (if ?d \<noteq> 0 then emitEvent h (reconciled_event (wi_WorkloadID ident) n (TotalTokens u) ?d ''actual'')
      else ret ()) (add_tokens lib (TotalTokens u) (TokensUsedTotal (wi_WorkloadID ident) pid ''actual'' (TotalTokens u)))"
  have eq: "reconcile h lib env ident pid n k u s = ?m ?s"
    using run_record [OF assms(1), of env k ?d]
    by (simp add: reconcile_def Let_def recorded_def run_also_do(1) [of "record_act env k ?d"])
  have "quiets ?m" using assms(3,4) by (simp add: quieting valid_labels_def)
  moreover have "\<not> le_closed (st_emitter ?s)" using assms(2) by simp
  ultimately show ?thesis unfolding eq by (simp add: quiets_def)
qed

text \<open>The usage a complete response reports.\<close>

definition response_usage :: "Handler \<Rightarrow> Request \<Rightarrow> upstream_response \<Rightarrow> UsageData option" where
  "response_usage h r resp =
     (let pt = DetectProvider (rq_Host r) in
      if isSSEResponse (ur_ContentType resp) then
        (if isStreamingRequest (request_body r) \<and> hd_sseExtraction h \<and> pt \<in> {OpenAI, Anthropic}
         then stream_usage pt (ur_Chunks resp) else None)
      else case GetParser pt of None \<Rightarrow> None
           | Some parse \<Rightarrow> (case parse (concat (ur_Chunks resp)) of Inl e \<Rightarrow> None | Inr u \<Rightarrow> u))"

text \<open>The tracker after a complete response.\<close>

definition tracker_after :: "Handler \<Rightarrow> request_env \<Rightarrow> Request \<Rightarrow> string \<Rightarrow> upstream_response \<Rightarrow> TrackerImpl \<Rightarrow> TrackerImpl" where
  "tracker_after h env r k resp t =
     (if ur_Status resp \<ge> 500 then recorded env k (wrap64 (- estimate r)) t
      else case response_usage h r resp of
             None \<Rightarrow> t | Some u \<Rightarrow> recorded env k (wrap64 (TotalTokens u - estimate r)) t)"

text \<open>A response that arrives completely at a client that takes it all.\<close>

definition complete_response :: "request_env \<Rightarrow> upstream_response \<Rightarrow> bool" where
  "complete_response env resp \<longleftrightarrow> ur_ReadError resp = None \<and> en_client_takes env = None"

definition forwarded :: "hstate \<Rightarrow> upstream_response \<Rightarrow> TrackerImpl \<Rightarrow> unit outcome \<times> hstate \<Rightarrow> bool" where
  "forwarded s resp t res \<longleftrightarrow> (\<exists>s' body. res = (Returns (), s') \<and> st_tracker s' = t \<and>
     st_degraded s' = st_degraded s \<and> st_sent s' = st_sent s \<and> \<not> le_closed (st_emitter s') \<and>
     concat body = concat (ur_Chunks resp) \<and>
     st_replies s' = st_replies s @ UpstreamHeader (ur_Status resp) # map UpstreamBody body)"

lemma concat_chunks_of [simp]: "concat (chunks_of s) = s"
proof (induction s rule: chunks_of.induct)
  case (1 s)
  then show ?case by (cases "s = []") (simp_all add: chunks_of.simps [of s] chunks_of.simps [of "[]"])
qed

lemma forwarded_plain:
  assumes "quiet (s\<lparr> st_tracker := t \<rparr>) s1" "concat chunks = concat (ur_Chunks resp)" "en_client_takes env = None"
  shows "forwarded s resp t (forward_body env (ur_Status resp) (chunks, False, \<lambda>_. ret ()) s1)"
proof -
  have "forward_body env (ur_Status resp) (chunks, False, \<lambda>_. ret ()) s1 =
      (Returns (), s1\<lparr> st_replies := st_replies s1 @ UpstreamHeader (ur_Status resp) # map UpstreamBody chunks \<rparr>)"
    using assms(3) by (simp add: run_forward copy_body_def run_also_do)
  then show ?thesis using assms(1,2) unfolding forwarded_def quiet_def by auto
qed

lemma forwarded_quiet:
  "quiet s0 s \<Longrightarrow> forwarded s resp t res \<Longrightarrow> forwarded s0 resp t res"
  by (simp add: forwarded_def quiet_def)

abbreviation response_step where
  "response_step h lib env r ident pol k resp \<equiv>
     andthen (modify_response h lib env ident (pol_ID pol) (DetectProvider (rq_Host r)) (estimate r)
        (isStreamingRequest (request_body r)) k resp)
      (\<lambda>x. case x of
          Inl e \<Rightarrow> also_do (emitEvent h (mk_event ''upstream_timeout'' (wi_WorkloadID ident) ''error'' [(''error'', AStr e)]))
            (writeErrorResponse 504 ''upstream_timeout'' ''system'' ''upstream_did_not_respond'' ''reject''
               ReasonUpstreamTimeout)
        | Inr body \<Rightarrow> forward_body env (ur_Status resp) body)"

lemma response_5xx:
  assumes "tracker_ok (st_tracker s)" "\<not> le_closed (st_emitter s)" "complete_response env resp"
    and "\<not> lib_counter_panics lib (estimate r)" "ur_Status resp \<ge> 500"
    and "valid_labels lib ident (pol_ID pol)"
  shows "forwarded s resp (recorded env k (wrap64 (- estimate r)) (st_tracker s))
     (response_step h lib env r ident pol k resp s)"
proof -
  let ?wid = "wi_WorkloadID ident" and ?plain = "Inr (ur_Chunks resp, False, \<lambda>_. ret ()) :: string + resp_body"
  let ?t = "recorded env k (wrap64 (- estimate r)) (st_tracker s)"
  let ?m = "also_do (emitEvent h (reconciled_event ?wid (estimate r) 0 (wrap64 (- estimate r)) ''refund''))
       (also_do (add_tokens lib (estimate r) (TokensUsedTotal ?wid (pol_ID pol) ''refund'' (estimate r)))
         (emitEvent h (mk_event ''upstream_error'' ?wid ''warn'' [(''status'', AStr (itoa (ur_Status resp)))])))"
  have q: "quiets ?m" using assms(4,6) by (simp add: quieting valid_labels_def)
  have op: "\<not> le_closed (st_emitter (s\<lparr> st_tracker := ?t \<rparr>))" using assms(2) by simp
  obtain s1 where s1: "quiet (s\<lparr> st_tracker := ?t \<rparr>) s1" "also_do ?m (ret ?plain) (s\<lparr> st_tracker := ?t \<rparr>) = ret ?plain s1"
    by (rule quiet_then [OF q op])
  have "modify_response h lib env ident (pol_ID pol) (DetectProvider (rq_Host r)) (estimate r)
      (isStreamingRequest (request_body r)) k resp s = (Returns ?plain, s1)"
    using s1(2) run_record [OF assms(1), of env k "wrap64 (- estimate r)"] assms(3,5)
    by (simp add: modify_response_def Let_def recorded_def complete_response_def also_do_assoc
        run_also_do(1) [of "record_act env k (wrap64 (- estimate r))"])
  then show ?thesis
    using forwarded_plain [OF s1(1), of "ur_Chunks resp" resp env] assms(3)
    by (simp add: andthen_def complete_response_def)
qed

text \<open>A stream goes by and is accounted for when it ends; any other answer is read first.\<close>

lemma response_streamed:
  assumes "tracker_ok (st_tracker s)" "\<not> le_closed (st_emitter s)" "complete_response env resp"
    and "pred_option (\<lambda>u. \<not> lib_counter_panics lib (TotalTokens u)) (response_usage h r resp)" "ur_Status resp < 500"
    and "valid_labels lib ident (pol_ID pol)"
    and sse: "isSSEResponse (ur_ContentType resp)"
  shows "forwarded s resp (tracker_after h env r k resp (st_tracker s)) (response_step h lib env r ident pol k resp s)"
proof -
  let ?t = "tracker_after h env r k resp (st_tracker s)" and ?pt = "DetectProvider (rq_Host r)"
  let ?close = "\<lambda>taken. case stream_usage ?pt taken of None \<Rightarrow> ret ()
      | Some usage \<Rightarrow> reconcile h lib env ident (pol_ID pol) (estimate r) k usage"
  let ?fed = "isStreamingRequest (request_body r) \<and> hd_sseExtraction h \<and> ?pt \<in> {OpenAI, Anthropic}"
  let ?s = "s\<lparr> st_replies := st_replies s @ UpstreamHeader (ur_Status resp) # map UpstreamBody (ur_Chunks resp) \<rparr>"
  have step: "response_step h lib env r ident pol k resp s =
      also_do (if ?fed then ?close (ur_Chunks resp) else ret ()) (ret ()) ?s"
    using sse assms(3,5)
    by (auto simp: modify_response_def Let_def andthen_def run_forward copy_body_def complete_response_def)
  obtain s1 where "(if ?fed then ?close (ur_Chunks resp) else ret ()) ?s = (Returns (), s1)"
    "quiet (?s\<lparr> st_tracker := ?t \<rparr>) s1"
  proof (cases "if ?fed then stream_usage ?pt (ur_Chunks resp) else None")
    case None
    then have "(if ?fed then ?close (ur_Chunks resp) else ret ()) ?s = (Returns (), ?s)"
      by (cases ?fed) auto
    moreover have "?t = st_tracker s"
      using None sse assms(5) by (simp add: tracker_after_def response_usage_def Let_def)
    ultimately show ?thesis using that [of ?s] assms(2) by (simp add: quiet_def)
  next
    case (Some u)
    then have fed: ?fed and u: "stream_usage ?pt (ur_Chunks resp) = Some u" by (simp_all split: if_splits)
    have ru: "response_usage h r resp = Some u"
      unfolding response_usage_def Let_def using sse Some by (simp only: if_True)
    then have t: "?t = recorded env k (wrap64 (TotalTokens u - estimate r)) (st_tracker s)"
      using assms(5) by (simp add: tracker_after_def)
    have "\<exists>s'. reconcile h lib env ident (pol_ID pol) (estimate r) k u ?s = (Returns (), s') \<and>
        quiet (?s\<lparr> st_tracker := recorded env k (wrap64 (TotalTokens u - estimate r)) (st_tracker ?s) \<rparr>) s'"
      by (rule run_reconcile) (use assms(1,2,4,6) ru in simp_all)
    then show ?thesis using that fed u t by auto
  qed
  then show ?thesis unfolding step forwarded_def quiet_def by (auto simp: run_also_do)
qed

lemma response_read:
  assumes "tracker_ok (st_tracker s)" "\<not> le_closed (st_emitter s)" "complete_response env resp"
    and "pred_option (\<lambda>u. \<not> lib_counter_panics lib (TotalTokens u)) (response_usage h r resp)" "ur_Status resp < 500"
    and "valid_labels lib ident (pol_ID pol)"
    and sse: "\<not> isSSEResponse (ur_ContentType resp)"
  shows "forwarded s resp (tracker_after h env r k resp (st_tracker s)) (response_step h lib env r ident pol k resp s)"
proof -
  let ?pt = "DetectProvider (rq_Host r)" and ?body = "(chunks_of (concat (ur_Chunks resp)), False, \<lambda>_. ret ()) :: resp_body"
  obtain s1 where s1: "modify_response h lib env ident (pol_ID pol) ?pt (estimate r)
      (isStreamingRequest (request_body r)) k resp s = (Returns (Inr ?body), s1)"
    "quiet (s\<lparr> st_tracker := tracker_after h env r k resp (st_tracker s) \<rparr>) s1"
  proof (cases "response_usage h r resp")
    case None
    then have "modify_response h lib env ident (pol_ID pol) ?pt (estimate r)
      (isStreamingRequest (request_body r)) k resp s = (Returns (Inr ?body), s)"
      using sse assms(3,5)
      by (auto simp: modify_response_def handleNonStreamingResponse_def response_usage_def Let_def
          complete_response_def split: option.splits sum.splits)
    then show ?thesis using that [of s] None assms(2,5) by (simp add: tracker_after_def quiet_def)
  next
    case (Some u)
    obtain s2 where s2: "reconcile h lib env ident (pol_ID pol) (estimate r) k u s = (Returns (), s2)"
      "quiet (s\<lparr> st_tracker := recorded env k (wrap64 (TotalTokens u - estimate r)) (st_tracker s) \<rparr>) s2"
      using run_reconcile [OF assms(1,2), of lib u ident "pol_ID pol" h env "estimate r" k] assms(4,6) Some by auto
    then have "modify_response h lib env ident (pol_ID pol) ?pt (estimate r)
      (isStreamingRequest (request_body r)) k resp s = (Returns (Inr ?body), s2)"
      using sse assms(3,5) Some
      by (auto simp: modify_response_def handleNonStreamingResponse_def response_usage_def Let_def
          complete_response_def run_also_do split: option.splits sum.splits)
    then show ?thesis using that [of s2] s2 Some assms(5) by (simp add: tracker_after_def)
  qed
  then show ?thesis
    using forwarded_plain [OF s1(2), of "chunks_of (concat (ur_Chunks resp))" resp env] assms(3)
    by (simp add: andthen_def complete_response_def)
qed

lemma response_ok:
  assumes "tracker_ok (st_tracker s)" "\<not> le_closed (st_emitter s)" "complete_response env resp"
    and "pred_option (\<lambda>u. \<not> lib_counter_panics lib (TotalTokens u)) (response_usage h r resp)" "ur_Status resp < 500"
    and "valid_labels lib ident (pol_ID pol)"
  shows "forwarded s resp (tracker_after h env r k resp (st_tracker s)) (response_step h lib env r ident pol k resp s)"
  using response_streamed [OF assms] response_read [OF assms] by blast

end
