(* ===== verification/Request_Properties.thy ===== *)
theory Request_Properties
  imports Proxy_Properties
begin

text \<open>
  What a request does to the budget and to the client, on every path through the handler:
  admitted and reconciled, refused by the guard or by the decider, rejected because the
  workload is not registered, passed through in degraded mode, and the paths on which a panic
  switches enforcement off.
\<close>

section \<open>Admitted requests\<close>

lemma response_forwarded:
  assumes "tracker_ok (st_tracker s)" "\<not> le_closed (st_emitter s)" "complete_response env resp"
    and "\<not> lib_counter_panics lib (estimate r)"
    and "pred_option (\<lambda>u. \<not> lib_counter_panics lib (TotalTokens u)) (response_usage h r resp)"
    and "valid_labels lib ident (pol_ID pol)"
  shows "forwarded s resp (tracker_after h env r k resp (st_tracker s)) (response_step h lib env r ident pol k resp s)"
proof (cases "ur_Status resp \<ge> 500")
  case True
  then show ?thesis using response_5xx [OF assms(1-4) True assms(6)] by (simp add: tracker_after_def)
next
  case False
  then show ?thesis by (intro response_ok assms) simp
qed

text \<open>The request reaches the upstream and its response the client.\<close>

lemma request_forwarded:
  assumes "\<not> st_degraded s" "tracker_ok (st_tracker s)" "\<not> le_closed (st_emitter s)"
    and "Resolve (hd_resolver h) r = Inr ident" "Lookup (hd_policyEngine h) ident = Some pol"
    and "CheckPerRequestGuard pol (estimate r) = None"
    and "Reserve (en_reserve env) (accountingKey h (wi_WorkloadID ident)) (estimate r) (st_tracker s)
       = (Returns (bs, a, err), t)"
    and "err = None \<or> isListenerMode h" "a \<or> WindowTokensUsed bs \<le> WindowTokensLimit bs"
    and "resolveUpstream lib h r = Some u"
    and "en_upstream env (outgoing_to r u (sent_body h r)) = Responds resp"
    and "complete_response env resp" "\<not> lib_counter_panics lib (estimate r)"
    and "pred_option (\<lambda>u. \<not> lib_counter_panics lib (TotalTokens u)) (response_usage h r resp)"
    and "valid_labels lib ident (pol_ID pol)"
  shows "\<exists>s' body. ServeHTTP h lib env r s = (Returns (), s') \<and> \<not> st_degraded s' \<and>
     st_tracker s' = tracker_after h env r (accountingKey h (wi_WorkloadID ident)) resp t \<and>
     st_sent s' = st_sent s @ [outgoing_to r u (sent_body h r)] \<and>
     concat body = concat (ur_Chunks resp) \<and>
     st_replies s' = st_replies s @ UpstreamHeader (ur_Status resp) # map UpstreamBody body"
proof -
  let ?k = "accountingKey h (wi_WorkloadID ident)" and ?og = "(outgoing_to r u (sent_body h r))"
  obtain s1 where s1: "quiet (s\<lparr> st_tracker := t \<rparr>) s1"
    "handleWithPolicy h lib env r ident pol s =
       proxyWithEnforcement h lib env r ident pol (DetectProvider (rq_Host r)) (estimate r)
         (isStreamingRequest (request_body r)) (request_body r) ?k s1"
    by (rule handle_proxied [OF assms(6,7,8,9,3,13,15)])
  let ?s2 = "s1\<lparr> st_sent := st_sent s1 @ [?og] \<rparr>"
  have serve: "serve_request h lib env r s = response_step h lib env r ident pol ?k resp ?s2"
    unfolding serve_enters_handle [OF assms(1,4,5)] s1(2) by (rule proxy_responds [OF assms(10,11)])
  have t: "tracker_ok t"
    using impl.reserve_sound [OF assms(2), of "en_reserve env" ?k "estimate r"] assms(7) by simp
  have s2: "st_tracker ?s2 = t" "\<not> le_closed (st_emitter ?s2)" "\<not> st_degraded ?s2"
    "st_sent ?s2 = st_sent s @ [?og]" "st_replies ?s2 = st_replies s"
    using s1(1) assms(1) by (simp_all add: quiet_def)
  have "forwarded ?s2 resp (tracker_after h env r ?k resp (st_tracker ?s2)) (response_step h lib env r ident pol ?k resp ?s2)"
    by (rule response_forwarded) (use s2 t assms(12-15) in simp_all)
  then show ?thesis
    unfolding forwarded_def ServeHTTP_def serve by (auto simp: s2)
qed

text \<open>
  A request the handler admits with a granted reservation, whose upstream answers with a
  response that arrives completely at a client that takes it, and metrics that accept the
  amounts of the request and the response and the request's labels.
\<close>

definition admitted ::
  "Handler \<Rightarrow> request_lib \<Rightarrow> request_env \<Rightarrow> Request \<Rightarrow> WorkloadIdentity \<Rightarrow> Policy \<Rightarrow> URL \<Rightarrow> upstream_response \<Rightarrow>
     hstate \<Rightarrow> bool" where
  "admitted h lib env r ident pol u resp s \<longleftrightarrow>
     \<not> st_degraded s \<and> \<not> le_closed (st_emitter s) \<and>
     Resolve (hd_resolver h) r = Inr ident \<and> Lookup (hd_policyEngine h) ident = Some pol \<and>
     CheckPerRequestGuard pol (estimate r) = None \<and>
     (case fst (Reserve (en_reserve env) (accountingKey h (wi_WorkloadID ident)) (estimate r) (st_tracker s)) of
        Returns (bs, a, err) \<Rightarrow> a \<and> err = None | Panics p \<Rightarrow> False) \<and>
     resolveUpstream lib h r = Some u \<and>
     en_upstream env (outgoing_to r u (sent_body h r)) = Responds resp \<and>
     complete_response env resp \<and> \<not> lib_counter_panics lib (estimate r) \<and>
     pred_option (\<lambda>u. \<not> lib_counter_panics lib (TotalTokens u)) (response_usage h r resp) \<and>
     valid_labels lib ident (pol_ID pol)"

text \<open>The tokens a request costs in the end.\<close>

definition cost :: "Handler \<Rightarrow> Request \<Rightarrow> upstream_response \<Rightarrow> int" where
  "cost h r resp = (if ur_Status resp \<ge> 500 then 0
     else case response_usage h r resp of None \<Rightarrow> estimate r | Some u \<Rightarrow> TotalTokens u)"

lemma tracker_after_status:
  assumes "tracker_ok t" "windows t k = Some ws" "numBuckets (window ws) \<le> 9223372036"
    and "same_second (en_reserve env) t0" "same_second (en_record env) t1"
    and "sec (headTime (window ws)) \<le> sec t0" "sec t0 \<le> sec t1" "sec t1 \<le> sec t2"
    and "sec t2 - numBuckets (window ws) < sec t0" "0 \<le> estimate r" "0 \<le> cost h r resp"
    and "room_for (estimate r + cost h r resp) k (read_at [t0] k t)"
    and "room_for (estimate r + cost h r resp) k (read_at [t0, t1] k t)"
    and "room_for (estimate r + cost h r resp) k (read_at [t0, t1, t2] k t)"
    and "fst (Reserve (en_reserve env) k (estimate r) t) = Returns (st, True, None)"
  shows "used t2 k (tracker_after h env r k resp (snd (Reserve (en_reserve env) k (estimate r) t))) =
     used t2 k (read_at [t0, t1] k t) + cost h r resp"
proof -
  have less: "room_for n k v" if "room_for m k v" "n \<le> m" for n m v
    using that by (auto simp: room_for_def split: option.splits)
  have "in64 (cost h r resp - estimate r)"
    using assms(2,10,11,12) by (auto simp: in64_def room_for_def read_at_def status_reads)
  then have report: "used t2 k (recorded env k (wrap64 (cost h r resp - estimate r))
       (snd (Reserve (en_reserve env) k (estimate r) t))) = used t2 k (read_at [t0, t1] k t) + cost h r resp"
    unfolding recorded_def by (intro reservation_then_report [OF assms]) simp_all
  have stands: "used t2 k (snd (Reserve (en_reserve env) k (estimate r) t)) =
      used t2 k (read_at [t0, t1] k t) + estimate r"
    by (rule reservation_stands [OF assms(1-4,6-10) _ _ _ assms(15)]) (use assms(11-14) in \<open>auto elim!: less\<close>)
  show ?thesis
  proof (cases "ur_Status resp \<ge> 500")
    case True
    then show ?thesis using report by (simp add: tracker_after_def cost_def)
  next
    case False
    then show ?thesis
      using report stands by (cases "response_usage h r resp") (simp_all add: tracker_after_def cost_def)
  qed
qed

section \<open>Properties\<close>

text \<open>
  C1. An admitted request costs its workload exactly what it used. Take a request the handler
  admits (\<open>admitted\<close>: not degraded, a granted reservation, a response that arrives completely,
  metrics that accept the amounts and the labels), whose reservation reads the clock within one
  second and whose reconciliation does too. Then \<open>ServeHTTP\<close> returns without degrading, exactly
  one request has been sent upstream, the client has received the upstream's status and its body
  byte for byte; and as long as the second of the reservation is in the window, the workload's
  status is the cost of the request above what it would be if the request had only read the
  status at those times. The cost is nothing when the upstream failed with a status of 500 or
  more, the usage of the response when it reports one, and the estimate otherwise. The earlier
  traffic may have been anything, refunds that outlive their charge included, as long as the cached sum
  it left is not negative at the three readings and leaves room for the new tokens in an
  \<open>int64\<close>.
\<close>

theorem admitted_request_charges_actual:
  fixes s :: hstate and ident :: WorkloadIdentity and h :: Handler
  defines "k \<equiv> accountingKey h (wi_WorkloadID ident)"
  assumes "admitted h lib env r ident pol u resp s"
    and "tracker_ok (st_tracker s)" "windows (st_tracker s) k = Some ws" "numBuckets (window ws) \<le> 9223372036"
    and "same_second (en_reserve env) t0" "same_second (en_record env) t1"
    and "sec (headTime (window ws)) \<le> sec t0" "sec t0 \<le> sec t1" "sec t1 \<le> sec t2"
    and "sec t2 - numBuckets (window ws) < sec t0" "0 \<le> estimate r" "0 \<le> cost h r resp"
    and "room_for (estimate r + cost h r resp) k (read_at [t0] k (st_tracker s))"
    and "room_for (estimate r + cost h r resp) k (read_at [t0, t1] k (st_tracker s))"
    and "room_for (estimate r + cost h r resp) k (read_at [t0, t1, t2] k (st_tracker s))"
  shows "\<exists>s' body. ServeHTTP h lib env r s = (Returns (), s') \<and> \<not> st_degraded s' \<and>
     st_sent s' = st_sent s @ [outgoing_to r u (sent_body h r)] \<and>
     concat body = concat (ur_Chunks resp) \<and>
     st_replies s' = st_replies s @ UpstreamHeader (ur_Status resp) # map UpstreamBody body \<and>
     used t2 k (st_tracker s') = used t2 k (read_at [t0, t1] k (st_tracker s)) + cost h r resp"
proof -
  note a = assms(2) [unfolded admitted_def, folded k_def]
  obtain st where st: "fst (Reserve (en_reserve env) k (estimate r) (st_tracker s)) = Returns (st, True, None)"
    using a by (auto split: outcome.splits)
  then have R: "Reserve (en_reserve env) (accountingKey h (wi_WorkloadID ident)) (estimate r) (st_tracker s) =
      (Returns (st, True, None), snd (Reserve (en_reserve env) k (estimate r) (st_tracker s)))"
    unfolding k_def by (metis prod.collapse)
  have "\<exists>s' body. ServeHTTP h lib env r s = (Returns (), s') \<and> \<not> st_degraded s' \<and>
     st_tracker s' = tracker_after h env r k resp (snd (Reserve (en_reserve env) k (estimate r) (st_tracker s))) \<and>
     st_sent s' = st_sent s @ [outgoing_to r u (sent_body h r)] \<and>
     concat body = concat (ur_Chunks resp) \<and>
     st_replies s' = st_replies s @ UpstreamHeader (ur_Status resp) # map UpstreamBody body"
    unfolding k_def
    by (rule request_forwarded [OF _ assms(3) _ _ _ _ R [folded k_def, unfolded k_def], where pol = pol]) (use a in simp_all)
  moreover note tracker_after_status [OF assms(3-16) st]
  ultimately show ?thesis by fastforce
qed

definition demo_identity :: WorkloadIdentity where
  "demo_identity = no_identity\<lparr> wi_WorkloadID := ''svc'' \<rparr>"

definition demo_policy :: Policy where
  "demo_policy = mk_policy ''sidecar-strict'' 3600 25000 2500 2048 ''throttle'' ''kill_workload''"

definition demo_url :: URL where
  "demo_url = \<lparr> url_Scheme = ''https'', url_Host = ''api.openai.com'', url_Path = ''/v1/chat/completions'',
     url_RawQuery = '''' \<rparr>"

definition demo_answer :: upstream_response where
  "demo_answer = demo_response 200 ''application/json'' [jtext ''{`usage`:{`total_'', jtext ''tokens`:42}}'']"

definition demo_ask :: Request where
  "demo_ask = demo_request (jtext ''{`max_tokens`:100}'')"

lemma demo_valid_labels: "valid_labels demo_lib demo_identity (pol_ID demo_policy)"
proof -
  have "utf8_valid (wi_WorkloadID demo_identity)" "utf8_valid (wi_Namespace demo_identity)" "utf8_valid (pol_ID demo_policy)"
    by code_simp+
  then show ?thesis by (simp add: valid_labels_def)
qed

lemma demo_admitted:
  "admitted (demo_handler ''enforcement'') demo_lib (demo_env demo_answer) demo_ask demo_identity demo_policy
     demo_url demo_answer demo_state"
proof -
  let ?h = "demo_handler ''enforcement''" and ?env = "demo_env demo_answer"
  have "Resolve (hd_resolver ?h) demo_ask = Inr demo_identity" "Lookup (hd_policyEngine ?h) demo_identity = Some demo_policy"
    "CheckPerRequestGuard demo_policy (estimate demo_ask) = None"
    "case fst (Reserve (en_reserve ?env) (accountingKey ?h (wi_WorkloadID demo_identity)) (estimate demo_ask)
        (st_tracker demo_state)) of
       Returns (bs, a, err) \<Rightarrow> a \<and> err = None | Panics p \<Rightarrow> False"
    "resolveUpstream demo_lib ?h demo_ask = Some demo_url"
    "en_upstream ?env (outgoing_to demo_ask demo_url (sent_body ?h demo_ask)) = Responds demo_answer"
    "complete_response ?env demo_answer" "\<not> lib_counter_panics demo_lib (estimate demo_ask)"
    "pred_option (\<lambda>u. \<not> lib_counter_panics demo_lib (TotalTokens u)) (response_usage ?h demo_ask demo_answer)"
    by (code_simp; simp)+
  then show ?thesis unfolding admitted_def using demo_valid_labels by simp
qed

lemma demo_estimate: "estimate demo_ask = 100" "cost (demo_handler ''enforcement'') demo_ask demo_answer = 42"
  by code_simp+

lemma demo_window:
  "numBuckets (window (fresh_state 0 demo_params)) = 60"
  "sec (headTime (window (fresh_state 0 demo_params))) = 0"
  by (simp_all add: fresh_state_def demo_params_def sec_def truncate_second_def)

lemma demo_key: "windows demo_tracker (accountingKey (demo_handler ''enforcement'') (wi_WorkloadID demo_identity)) =
    Some (fresh_state 0 demo_params)"
  by (simp add: accountingKey_def isListenerMode_def demo_handler_def NewHandler_def demo_identity_def no_identity_def
      demo_tracker_window)

theorem admitted_request_charges_actual_witness:
  "\<exists>s'. ServeHTTP (demo_handler ''enforcement'') demo_lib (demo_env demo_answer) demo_ask demo_state = (Returns (), s') \<and>
     used (5 * Second) (accountingKey (demo_handler ''enforcement'') (wi_WorkloadID demo_identity)) (st_tracker s') = 42"
proof -
  let ?k = "accountingKey (demo_handler ''enforcement'') (wi_WorkloadID demo_identity)"
  have clk: "same_second (en_reserve (demo_env demo_answer)) 0" "same_second (en_record (demo_env demo_answer)) Second"
    by (simp_all add: demo_env_def same_second_def)
  have secs: "sec 0 = 0" "sec Second = 1" "sec (5 * Second) = 5" by (simp_all add: sec_def Second_def)
  have reads: "room_for 142 ?k (read_at [0] ?k demo_tracker)" "room_for 142 ?k (read_at [0, Second] ?k demo_tracker)"
    "room_for 142 ?k (read_at [0, Second, 5 * Second] ?k demo_tracker)"
    "used (5 * Second) ?k (read_at [0, Second] ?k demo_tracker) = 0"
    by code_simp+
  show ?thesis
    using admitted_request_charges_actual [OF demo_admitted _ _ _ clk, of "fresh_state 0 demo_params" "5 * Second"]
    by (simp add: demo_key demo_estimate demo_window secs reads) blast
qed

section \<open>Denied requests\<close>

lemma guard_denies:
  assumes "CheckPerRequestGuard pol n = Some dec" "\<not> isListenerMode h" "\<not> le_closed (st_emitter s)"
    and "valid_labels lib ident (pol_ID pol)"
  shows "\<exists>s1. guard_step h lib ident pol nm n s = (Returns False, s1) \<and> quiet (s\<lparr> st_replies := st_replies s @
     [ThrottleReply None (dec_Reason dec) (Some ReasonGuardMaxTokens) 0 0] \<rparr>) s1"
proof -
  let ?m = "also_do (bump lib EnforcementLatency)
     (also_do (emitEvent h (mk_event ''guard_rejected'' (wi_WorkloadID ident) ''warn''
         [(''reason'', AStr (dec_Reason dec)), (''reason_code'', AStr (code_string (dec_ReasonCode dec)))]))
     (also_do (bump lib (RequestsTotal (wi_WorkloadID ident) (pol_ID pol) ''deny''))
       (bump lib (EnforcementDecisionsTotal ''deny'' (pol_ID pol)))))"
  have q: "quiets ?m" using assms(4) by (simp add: quieting valid_labels_def)
  have dec: "dec_Action dec = ActionThrottle" "dec_RetryAfter dec = 0" "dec_ReasonCode dec = Some ReasonGuardMaxTokens"
    "dec_TokensUsed dec = 0" "dec_TokensLimit dec = 0"
    using assms(1) by (auto simp: CheckPerRequestGuard_def allow_decision_def split: if_splits)
  let ?k = "also_do (writeEnforcementResponse dec) (ret False)"
  have "guard_step h lib ident pol nm n = also_do ?m ?k"
    using assms(1,2) by (simp add: guard_step_def also_do_assoc)
  moreover obtain s1 where "quiet s s1" "also_do ?m ?k s = ?k s1" by (rule quiet_then [OF q assms(3)])
  ultimately show ?thesis
    by (simp add: writeEnforcementResponse_def dec run_also_do quiet_def)
qed

lemma decision_denies:
  assumes "\<not> a" "WindowTokensLimit bs < WindowTokensUsed bs" "\<not> isListenerMode h" "\<not> le_closed (st_emitter s)"
    and "valid_labels lib ident (pol_ID pol)"
  shows "\<exists>s1. decision_step h lib ident pol nm n bs a s = (Returns False, s1) \<and> quiet (s\<lparr> st_replies := st_replies s @
     [if ta_Action (Tier3Platform (pol_DecisionTiers pol)) = ''kill_workload''
      then KillReply ''budget exceeded, kill_workload configured'' (Some ReasonBudgetExhaustedKill)
        (WindowTokensUsed bs) (WindowTokensLimit bs)
      else let wait = wrap64 (rb_WindowSeconds (RollingTokens (pol_Budgets pol)) sdiv 2 * Second) in
        ThrottleReply (if wait > 0 then Some (wait sdiv Second) else None) ''budget exceeded, no burst remaining''
          (Some ReasonBudgetExhaustedThrottle) (WindowTokensUsed bs) (WindowTokensLimit bs)] \<rparr>) s1"
proof -
  obtain fs where inc: "Increment '''' 0 = (fs, True)" by (simp add: Increment_def)
  define dec where "dec = Evaluate pol bs fs"
  let ?m = "also_do (bump lib EnforcementLatency)
     (also_do (emitEvent h (mk_event ''enforcement'' (wi_WorkloadID ident) ''warn''
         [(''action'', AStr (actionName (dec_Action dec))), (''decision'', AStr (actionName (dec_Action dec))),
          (''category'', AStr ''enforcement''), (''tier'', AStr (itoa (dec_Tier dec))),
          (''reason'', AStr (dec_Reason dec)), (''reason_code'', AStr (code_string (dec_ReasonCode dec))),
          (''tokens_used'', AInt (WindowTokensUsed bs)), (''tokens_limit'', AInt (WindowTokensLimit bs)),
          (''burst_remaining'', AInt (bs_BurstRemaining bs)), (''reserved_tokens'', AInt n)]))
     (also_do (bump lib (RequestsTotal (wi_WorkloadID ident) (pol_ID pol) ''deny''))
       (bump lib (EnforcementDecisionsTotal ''deny'' (pol_ID pol)))))"
  let ?k = "also_do (writeEnforcementResponse (dec\<lparr> dec_TokensUsed := WindowTokensUsed bs,
      dec_TokensLimit := WindowTokensLimit bs \<rparr>)) (ret False)"
  have q: "quiets ?m" using assms(5) by (simp add: quieting valid_labels_def)
  have "dec_Action dec \<noteq> ActionAllow" using assms(2) by (simp add: dec_def Evaluate_Allow)
  then have "decision_step h lib ident pol nm n bs a = also_do ?m ?k"
    using assms(1,3) by (simp add: decision_step_def inc also_do_assoc dec_def Let_def)
  moreover obtain s1 where s1: "quiet s s1" "also_do ?m ?k s = ?k s1" by (rule quiet_then [OF q assms(4)])
  ultimately have run: "decision_step h lib ident pol nm n bs a s = ?k s1" by simp
  show ?thesis
    unfolding run using s1(1) assms(2)
    by (simp add: writeEnforcementResponse_def dec_def Evaluate_def allow_decision_def Let_def run_also_do quiet_def)
qed

lemma half_window_reply:
  assumes "0 < n" "n \<le> 9223372036"
  shows "(let wait = wrap64 (n sdiv 2 * Second) in if wait > 0 then Some (wait sdiv Second) else None) =
     (if 2 \<le> n then Some (n div 2) else None)"
proof -
  have "n div 2 * Second sdiv Second = n div 2" if "2 \<le> n"
    using that by (simp add: signed_divide_int_def Second_def)
  moreover have "n div 2 * Second > 0 \<longleftrightarrow> 2 \<le> n" by (auto simp: Second_def)
  ultimately show ?thesis using half_window(1) [OF assms] by (simp add: Let_def)
qed

text \<open>
  C11. A workload that is over its budget is denied. In enforcement mode, when the reservation is
  refused, the window already holds more than the limit and the labels of the request are valid
  UTF-8: nothing is sent upstream, the
  tracker is as the refused reservation left it, the handler stays in operation, and the client
  gets exactly one reply, which carries the usage and the limit: status 503 when the policy's
  third tier says \<open>kill_workload\<close>, otherwise 429 with half the window as the time to wait.
\<close>

theorem over_budget_request_denied:
  assumes "\<not> st_degraded s" "\<not> le_closed (st_emitter s)" "\<not> isListenerMode h"
    and "Resolve (hd_resolver h) r = Inr ident" "Lookup (hd_policyEngine h) ident = Some pol"
    and "policy_valid pol" "rb_WindowSeconds (RollingTokens (pol_Budgets pol)) \<le> 9223372036"
    and "CheckPerRequestGuard pol (estimate r) = None"
    and "Reserve (en_reserve env) (wi_WorkloadID ident) (estimate r) (st_tracker s) = (Returns (bs, False, None), t)"
    and "WindowTokensLimit bs < WindowTokensUsed bs" "valid_labels lib ident (pol_ID pol)"
  shows "\<exists>s'. ServeHTTP h lib env r s = (Returns (), s') \<and> \<not> st_degraded s' \<and>
     st_sent s' = st_sent s \<and> st_tracker s' = t \<and>
     st_replies s' = st_replies s @
       [if ta_Action (Tier3Platform (pol_DecisionTiers pol)) = ''kill_workload''
        then KillReply ''budget exceeded, kill_workload configured'' (Some ReasonBudgetExhaustedKill)
          (WindowTokensUsed bs) (WindowTokensLimit bs)
        else ThrottleReply
          (let n = rb_WindowSeconds (RollingTokens (pol_Budgets pol)) in if 2 \<le> n then Some (n div 2) else None)
          ''budget exceeded, no burst remaining'' (Some ReasonBudgetExhaustedThrottle)
          (WindowTokensUsed bs) (WindowTokensLimit bs)]"
proof -
  have key: "accountingKey h (wi_WorkloadID ident) = wi_WorkloadID ident"
    using assms(3) by (simp add: accountingKey_def)
  have pos: "0 < rb_WindowSeconds (RollingTokens (pol_Budgets pol))"
    using assms(6) by (simp add: policy_valid_def Let_def)
  have "\<not> le_closed (st_emitter (s\<lparr> st_tracker := t \<rparr>))" using assms(2) by simp
  from decision_denies [of False, OF _ assms(10,3) this assms(11), of
      "provider_name (DetectProvider (rq_Host r))" "estimate r"] obtain s1
    where s1: "decision_step h lib ident pol (provider_name (DetectProvider (rq_Host r))) (estimate r) bs False
        (s\<lparr> st_tracker := t \<rparr>) = (Returns False, s1)"
      "quiet (s\<lparr> st_tracker := t, st_replies := st_replies s @
        [if ta_Action (Tier3Platform (pol_DecisionTiers pol)) = ''kill_workload''
         then KillReply ''budget exceeded, kill_workload configured'' (Some ReasonBudgetExhaustedKill)
           (WindowTokensUsed bs) (WindowTokensLimit bs)
         else let wait = wrap64 (rb_WindowSeconds (RollingTokens (pol_Budgets pol)) sdiv 2 * Second) in
           ThrottleReply (if wait > 0 then Some (wait sdiv Second) else None) ''budget exceeded, no burst remaining''
             (Some ReasonBudgetExhaustedThrottle) (WindowTokensUsed bs) (WindowTokensLimit bs)] \<rparr>) s1"
    by auto
  have "ServeHTTP h lib env r s = (Returns (), s1)"
    using assms(9) by (simp add: ServeHTTP_def serve_enters_handle [OF assms(1,4,5)] after_reserve_def s1(1)
        handle_reserved [OF assms(8), of env h ident s "(bs, False, None)" t] key andthen_def)
  with s1(2) assms(1) show ?thesis
    using half_window_reply [OF pos assms(7)] by (simp add: quiet_def Let_def)
qed

text \<open>A state in which the demo workload has used some tokens already.\<close>

definition used_state :: "int \<Rightarrow> hstate" where
  "used_state n = demo_state\<lparr> st_tracker := snd (Record (\<lambda>_. 0)
     \<lparr> ur_WorkloadID = ''svc'', ur_Tokens = n, ur_Timestamp = 0, ur_IsEstimate = False \<rparr> demo_tracker) \<rparr>"

lemma used_state_simps [simp]:
  "\<not> st_degraded (used_state n)" "\<not> le_closed (st_emitter (used_state n))" "st_replies (used_state n) = []"
  "st_sent (used_state n) = []" "tracker_ok (st_tracker (used_state n))"
  by (simp_all add: used_state_def Record_tracker_ok)

lemma demo_path:
  "Resolve (hd_resolver (demo_handler ''enforcement'')) demo_ask = Inr demo_identity"
  "Lookup (hd_policyEngine (demo_handler ''enforcement'')) demo_identity = Some demo_policy"
  "\<not> isListenerMode (demo_handler ''enforcement'')" "policy_valid demo_policy"
  "rb_WindowSeconds (RollingTokens (pol_Budgets demo_policy)) \<le> 9223372036"
  "CheckPerRequestGuard demo_policy (estimate demo_ask) = None"
  by code_simp+

theorem over_budget_request_denied_witness:
  "\<exists>s'. ServeHTTP (demo_handler ''enforcement'') demo_lib (demo_env demo_answer) demo_ask (used_state 6000) =
       (Returns (), s') \<and> st_sent s' = [] \<and>
     st_replies s' = [KillReply ''budget exceeded, kill_workload configured'' (Some ReasonBudgetExhaustedKill) 6000 5000]"
proof -
  let ?R = "Reserve (en_reserve (demo_env demo_answer)) (wi_WorkloadID demo_identity) (estimate demo_ask)
      (st_tracker (used_state 6000))"
  let ?bs = "\<lparr> WindowTokensUsed = 6000, WindowTokensLimit = 5000, bs_BurstRemaining = 0 \<rparr>"
  have "fst ?R = Returns (?bs, False, None)" by code_simp
  then have R: "?R = (Returns (?bs, False, None), snd ?R)" by (metis prod.collapse)
  have "ta_Action (Tier3Platform (pol_DecisionTiers demo_policy)) = ''kill_workload''"
    by (simp add: demo_policy_def mk_policy_def)
  then show ?thesis
    using over_budget_request_denied [OF _ _ demo_path(3,1,2,4,5,6) R _ demo_valid_labels] by auto
qed

text \<open>
  C29. A request above the per-request guard is denied. In enforcement mode, when the policy has
  a guard, the estimate exceeds it and the labels of the request are valid UTF-8:
  status 429 with the guard's reason code, nothing is sent upstream and the budget is not touched.
\<close>

theorem oversized_request_denied:
  assumes "\<not> st_degraded s" "\<not> le_closed (st_emitter s)" "\<not> isListenerMode h"
    and "Resolve (hd_resolver h) r = Inr ident" "Lookup (hd_policyEngine h) ident = Some pol"
    and "0 < MaxTokensPerRequest (pol_Guards pol)" "MaxTokensPerRequest (pol_Guards pol) < estimate r"
    and "valid_labels lib ident (pol_ID pol)"
  shows "\<exists>s'. ServeHTTP h lib env r s = (Returns (), s') \<and> \<not> st_degraded s' \<and>
     st_sent s' = st_sent s \<and> st_tracker s' = st_tracker s \<and>
     st_replies s' = st_replies s @ [ThrottleReply None ''max_tokens exceeds per-request guard''
       (Some ReasonGuardMaxTokens) 0 0]"
proof -
  obtain dec where dec: "CheckPerRequestGuard pol (estimate r) = Some dec"
      "dec_Reason dec = ''max_tokens exceeds per-request guard''"
    using assms(6,7) by (simp add: CheckPerRequestGuard_def)
  obtain s1 where s1: "guard_step h lib ident pol (provider_name (DetectProvider (rq_Host r))) (estimate r) s = (Returns False, s1)"
    "quiet (s\<lparr> st_replies := st_replies s @ [ThrottleReply None (dec_Reason dec) (Some ReasonGuardMaxTokens) 0 0] \<rparr>) s1"
    using guard_denies [OF dec(1) assms(3,2,8)] by blast
  have "ServeHTTP h lib env r s = (Returns (), s1)"
    by (simp add: ServeHTTP_def serve_enters_handle [OF assms(1,4,5)] handleWithPolicy_def Let_def andthen_def s1(1))
  with s1(2) assms(1) show ?thesis by (simp add: quiet_def dec(2))
qed

theorem oversized_request_denied_witness:
  "\<exists>s'. ServeHTTP (demo_handler ''enforcement'') demo_lib (demo_env demo_answer)
       (demo_request (jtext ''{`max_tokens`:2049}'')) demo_state = (Returns (), s') \<and> st_sent s' = []"
proof -
  let ?r = "demo_request (jtext ''{`max_tokens`:2049}'')"
  have r: "Resolve (hd_resolver (demo_handler ''enforcement'')) ?r = Inr demo_identity"
    "0 < MaxTokensPerRequest (pol_Guards demo_policy)" "MaxTokensPerRequest (pol_Guards demo_policy) < estimate ?r"
    by code_simp+
  show ?thesis
    using oversized_request_denied [OF _ _ demo_path(3) r(1) demo_path(2) r(2,3) demo_valid_labels, of demo_state] by auto
qed

text \<open>
  C30. A workload without a registered budget is denied, default policy or not. In enforcement
  mode an identified workload that the policy engine accepts but that was never registered with
  the tracker, and whose request passes the guard, gets status 500 with
  \<open>budget_config_error\<close>; nothing is sent upstream. (The labels this is counted under are
  literals, which Prometheus takes.)
\<close>

theorem unregistered_workload_denied:
  assumes "\<not> st_degraded s" "\<not> le_closed (st_emitter s)" "\<not> isListenerMode h"
    and "Resolve (hd_resolver h) r = Inr ident" "Lookup (hd_policyEngine h) ident = Some pol"
    and "CheckPerRequestGuard pol (estimate r) = None"
    and "windows (st_tracker s) (wi_WorkloadID ident) = None" "utf8_labels lib"
  shows "\<exists>s'. ServeHTTP h lib env r s = (Returns (), s') \<and> \<not> st_degraded s' \<and>
     st_sent s' = st_sent s \<and> st_tracker s' = st_tracker s \<and>
     st_replies s' = st_replies s @ [ErrorReply 500 ''budget_config_error'' ''system'' ''unregistered_workload''
       ''error'' ReasonBudgetConfigError]"
proof -
  have key: "accountingKey h (wi_WorkloadID ident) = wi_WorkloadID ident"
    using assms(3) by (simp add: accountingKey_def)
  have "serve_request h lib env r s = after_reserve h lib env r ident pol (zero_status, False, Some ErrUnknownWorkload) s"
    using handle_reserved [OF assms(6), of env h ident s "(zero_status, False, Some ErrUnknownWorkload)" "st_tracker s" lib]
    by (simp add: serve_enters_handle [OF assms(1,4,5)] key Reserve_unknown [OF assms(7)])
  then show ?thesis
    using assms(1,3,8) by (simp add: ServeHTTP_def after_reserve_def bump_def with_labels_valid count_def run_also_do
        writeErrorResponse_def)
qed

theorem unregistered_workload_denied_witness:
  "\<exists>s'. ServeHTTP (demo_handler ''enforcement'') demo_lib (demo_env demo_answer) demo_ask
       (demo_state\<lparr> st_tracker := NewTracker \<rparr>) = (Returns (), s') \<and> st_sent s' = []"
  using unregistered_workload_denied [OF _ _ demo_path(3,1,2,6) _ demo_labels, of "demo_state\<lparr> st_tracker := NewTracker \<rparr>"]
  by (auto simp: NewTracker_def)

end
