(* ===== verification/Request_Failures.thy ===== *)
theory Request_Failures
  imports Request_Properties
begin

text \<open>
  The handler where it does not do what its interface suggests: requests whose reservation was
  refused and that are sent nevertheless, the pass-through of degraded mode, and the ordinary
  inputs (a negative estimate, a client that leaves, a missing upstream) that leave the budget
  changed or switch enforcement off. The last section is about listener mode.
\<close>

section \<open>Requests that are sent although their reservation was refused\<close>

lemma reserve_refused:
  assumes "tracker_ok t" "windows t k = Some ws" "same_second clk now" "0 \<le> est"
    and "0 \<le> totalTokens (advance now (window ws))" "in64 (totalTokens (advance now (window ws)) + est)"
    and "limitTokens ws + burstRemaining (window ws) < totalTokens (advance now (window ws)) + est"
  shows "Reserve clk k est t = (Returns (\<lparr> WindowTokensUsed = totalTokens (advance now (window ws)),
      WindowTokensLimit = limitTokens ws, bs_BurstRemaining = burstRemaining (window ws) \<rparr>, False, None),
      put_window k ws (advance now (window ws)) t)"
proof -
  note ws = workload_okD [OF tracker_okD [OF assms(1,2)]]
  have "0 \<le> burstRemaining (window ws)" using ws(2) by (simp add: burst_ok_def)
  then show ?thesis
    using reserve_window_spec [OF ws(1,2) assms(3,5,4,6) ws(3,4)] assms(2,7)
    by (simp add: Reserve_def tracker_get_def Let_def)
qed

lemma recorded_status:
  assumes "windows t k = Some ws" "window_ok (window ws)" "same_second (en_record env) now"
    and "in64 n" "in64 (totalTokens (advance now (window ws)) + n)"
  shows "map_sum id WindowTokensUsed (fst (Status now k (recorded env k n t))) =
     Inr (max 0 (totalTokens (advance now (window ws)) + n))"
proof -
  let ?w = "charged (en_record env) n (window ws)"
  have adv: "advance (en_record env i) = advance now" for i
    using assms(3) by (auto simp: same_second_def intro: advance_cong_sec)
  have c: "?w = charge n (advance now (window ws))"
    by (simp add: charged_def adv headTime_advance)
  obtain b where "snd (record_window (en_record env) n (limitTokens ws) (window ws)) = ?w\<lparr>burstRemaining := b\<rparr>"
    using record_charges [OF assms(2), of "en_record env" n "limitTokens ws"] by blast
  moreover have "advance now (?w\<lparr>burstRemaining := b\<rparr>) = ?w\<lparr>burstRemaining := b\<rparr>"
    by (rule advance_same) (simp add: c headTime_advance)
  ultimately show ?thesis
    using assms(1,5) by (simp add: recorded_def Record_def Status_def split_beta Total_eq Let_def c)
qed

text \<open>
  C22. A request that does not fit into the budget is sent, and lowers the recorded usage. When
  the metrics take the request's numbers and labels, and
  the window holds \<open>T\<close> tokens, at most the limit, and the estimate is more than what limit and
  burst allowance leave, the reservation is refused and undone; the decider then sees a usage of
  \<open>T\<close>, within the limit, and lets the request pass. Nothing has been reserved for it, yet the
  reconciliation still charges the difference between usage and estimate: the workload's
  recorded usage goes from \<open>T\<close> down to \<open>T + usage - estimate\<close>, or to zero.
\<close>

theorem refused_request_lowers_usage:
  fixes s :: hstate and ws :: workloadState and now :: gotime
  defines "T \<equiv> totalTokens (advance now (window ws))"
  assumes "\<not> st_degraded s" "\<not> le_closed (st_emitter s)" "tracker_ok (st_tracker s)"
    and "Resolve (hd_resolver h) r = Inr ident" "Lookup (hd_policyEngine h) ident = Some pol"
    and "CheckPerRequestGuard pol (estimate r) = None"
    and "windows (st_tracker s) (accountingKey h (wi_WorkloadID ident)) = Some ws"
    and "same_second (en_reserve env) now" "same_second (en_record env) now"
    and "0 \<le> T" "T \<le> limitTokens ws" "limitTokens ws + burstRemaining (window ws) < T + estimate r"
    and "0 \<le> estimate r" "in64 (T + estimate r)"
    and "resolveUpstream lib h r = Some u"
    and "en_upstream env (outgoing_to r u (sent_body h r)) = Responds resp"
    and "complete_response env resp" "\<not> lib_counter_panics lib (estimate r)"
    and "ur_Status resp < 500" "response_usage h r resp = Some usage"
    and "0 \<le> TotalTokens usage" "TotalTokens usage < estimate r" "\<not> lib_counter_panics lib (TotalTokens usage)"
    and "valid_labels lib ident (pol_ID pol)"
  shows "\<exists>s' body. ServeHTTP h lib env r s = (Returns (), s') \<and> \<not> st_degraded s' \<and>
     st_sent s' = st_sent s @ [outgoing_to r u (sent_body h r)] \<and>
     concat body = concat (ur_Chunks resp) \<and>
     st_replies s' = st_replies s @ UpstreamHeader (ur_Status resp) # map UpstreamBody body \<and>
     map_sum id WindowTokensUsed (fst (Status now (accountingKey h (wi_WorkloadID ident)) (st_tracker s'))) =
       Inr (max 0 (T + TotalTokens usage - estimate r))"
proof -
  let ?k = "accountingKey h (wi_WorkloadID ident)" and ?v = "advance now (window ws)"
  let ?bs = "\<lparr> WindowTokensUsed = T, WindowTokensLimit = limitTokens ws, bs_BurstRemaining = burstRemaining (window ws) \<rparr>"
  let ?t = "put_window ?k ws ?v (st_tracker s)" and ?d = "TotalTokens usage - estimate r"
  have R: "Reserve (en_reserve env) ?k (estimate r) (st_tracker s) = (Returns (?bs, False, None), ?t)"
    using reserve_refused [OF assms(4,8,9,14)] assms(11,13,15) by (simp add: T_def)
  have ok: "window_ok ?v"
    by (intro window_ok_advance workload_okD(1) [OF tracker_okD [OF assms(4,8)]])
  have range: "in64 ?d" "in64 (T + ?d)"
    using assms(11,14,15,22,23) by (auto simp: in64_def)
  have "map_sum id WindowTokensUsed (fst (Status now ?k (recorded env ?k ?d ?t))) = Inr (max 0 (T + ?d))"
    using recorded_status [of ?t ?k "ws\<lparr>window := ?v\<rparr>" env now ?d] ok assms(10) range by (simp add: T_def)
  moreover have "tracker_after h env r ?k resp ?t = recorded env ?k ?d ?t"
    using assms(20,21) range(1) by (simp add: tracker_after_def)
  ultimately have st: "map_sum id WindowTokensUsed (fst (Status now ?k (tracker_after h env r ?k resp ?t))) =
      Inr (max 0 (T + TotalTokens usage - estimate r))"
    by (simp add: algebra_simps)
  have "\<exists>s' body. ServeHTTP h lib env r s = (Returns (), s') \<and> \<not> st_degraded s' \<and>
     st_tracker s' = tracker_after h env r ?k resp ?t \<and>
     st_sent s' = st_sent s @ [outgoing_to r u (sent_body h r)] \<and>
     concat body = concat (ur_Chunks resp) \<and>
     st_replies s' = st_replies s @ UpstreamHeader (ur_Status resp) # map UpstreamBody body"
    by (rule request_forwarded [OF assms(2,4,3,5-7) R _ _ assms(16-19)]) (use assms(12,21,24,25) in simp_all)
  then show ?thesis using st by fastforce
qed

text \<open>The witness: 4000 of 5000 tokens used, a request for 2000, an answer that used 42.\<close>

definition demo_big :: Request where
  "demo_big = demo_request (jtext ''{`max_tokens`:2000}'')"

definition demo_now :: "upstream_response \<Rightarrow> request_env" where
  "demo_now resp = (demo_env resp)\<lparr> en_record := (\<lambda>_. 0) \<rparr>"

definition demo_used :: workloadState where
  "demo_used = the (windows (st_tracker (used_state 4000)) ''svc'')"

lemma demo_used: "windows (st_tracker (used_state 4000)) (accountingKey (demo_handler ''enforcement'')
    (wi_WorkloadID demo_identity)) = Some demo_used"
  "totalTokens (advance 0 (window demo_used)) = 4000" "limitTokens demo_used = 5000"
  "burstRemaining (window demo_used) = 0"
proof -
  have "windows (st_tracker (used_state 4000)) ''svc'' \<noteq> None"
    by (simp add: used_state_def Record_def demo_tracker_window split: prod.split)
  then show "windows (st_tracker (used_state 4000)) (accountingKey (demo_handler ''enforcement'')
      (wi_WorkloadID demo_identity)) = Some demo_used"
    using demo_path(3) by (simp add: demo_used_def accountingKey_def demo_identity_def)
qed code_simp+

lemma demo_big_path:
  "Resolve (hd_resolver (demo_handler ''enforcement'')) demo_big = Inr demo_identity" "estimate demo_big = 2000"
  "CheckPerRequestGuard demo_policy (estimate demo_big) = None"
  "resolveUpstream demo_lib (demo_handler ''enforcement'') demo_big = Some demo_url"
  "en_upstream (demo_now demo_answer) (outgoing_to demo_big demo_url (sent_body (demo_handler ''enforcement'') demo_big))
     = Responds demo_answer"
  "complete_response (demo_now demo_answer) demo_answer" "\<not> lib_counter_panics demo_lib (estimate demo_big)"
  "ur_Status demo_answer < 500" "response_usage (demo_handler ''enforcement'') demo_big demo_answer =
     Some \<lparr> InputTokens = 0, OutputTokens = 0, TotalTokens = 42 \<rparr>"
  by code_simp+

theorem refused_request_lowers_usage_witness:
  "\<exists>s'. ServeHTTP (demo_handler ''enforcement'') demo_lib (demo_now demo_answer) demo_big (used_state 4000) =
       (Returns (), s') \<and> length (st_sent s') = 1 \<and>
     map_sum id WindowTokensUsed (fst (Status 0 (accountingKey (demo_handler ''enforcement'')
       (wi_WorkloadID demo_identity)) (st_tracker s'))) = Inr 2042"
proof -
  have clk: "same_second (en_reserve (demo_now demo_answer)) 0" "same_second (en_record (demo_now demo_answer)) 0"
    by (simp_all add: demo_now_def demo_env_def same_second_def)
  have lib_42: "\<not> lib_counter_panics demo_lib 42" by (simp add: demo_lib_def)
  show ?thesis
    using refused_request_lowers_usage [OF _ _ _ demo_big_path(1) demo_path(2) demo_big_path(3) demo_used(1) clk
        _ _ _ _ _ demo_big_path(4-9)]
    by (simp add: demo_used(2-4) demo_big_path(2) in64_def lib_42 demo_valid_labels) (metis One_nat_def length_Cons list.size(3))
qed

section \<open>Degraded mode\<close>

lemma run_proxyDirect:
  "proxyDirect h lib env r s = (case resolveUpstream lib h r of
     None \<Rightarrow> (Returns (), s\<lparr> st_replies := st_replies s @ [ErrorReply 502 ''upstream_not_configured'' ''system''
       ''no_upstream_for_provider'' ''reject'' ReasonUpstreamNotConfigured] \<rparr>)
   | Some u \<Rightarrow>
      (let og = (outgoing_to r u (request_body r)); s = s\<lparr> st_sent := st_sent s @ [og] \<rparr> in
       case en_upstream env og of
         RoundTripFails e \<Rightarrow> (Returns (), s\<lparr> st_replies := st_replies s @ [BadGateway] \<rparr>)
       | Responds resp \<Rightarrow>
          (case copy_body (en_client_takes env) (ur_Chunks resp) (ur_ReadError resp \<noteq> None) of (written, taken, failed) \<Rightarrow>
            (if failed then Panics AbortHandler else Returns (),
             s\<lparr> st_replies := st_replies s @ UpstreamHeader (ur_Status resp) # map UpstreamBody written \<rparr>))))"
  by (simp add: proxyDirect_def upstream_missing_def writeErrorResponse_def ReverseProxy_ServeHTTP_def run_also_do
      andthen_def run_forward Let_def split: option.split upstream.split prod.split)

text \<open>The handler serves a list of requests, one after the other.\<close>

definition serve_all :: "Handler \<Rightarrow> (request_lib \<times> request_env \<times> Request) list \<Rightarrow> hstate \<Rightarrow> hstate" where
  "serve_all h reqs = fold (\<lambda>(lib, env, r) s. snd (ServeHTTP h lib env r s)) reqs"

lemma degraded_step:
  assumes "st_degraded s" "\<not> le_closed (st_emitter s)"
  shows "let s' = snd (ServeHTTP h lib env r s) in
     st_degraded s' \<and> \<not> le_closed (st_emitter s') \<and> st_tracker s' = st_tracker s"
proof -
  obtain s1 where s1: "quiet s s1" "serve_request h lib env r s = proxyDirect h lib env r s1"
    by (rule quiet_then [OF quiets_emit assms(2)]) (use assms(1) in \<open>auto simp: serve_request_def\<close>)
  obtain x s2 where s2: "proxyDirect h lib env r s1 = (x, s2)" by fastforce
  then have k: "st_tracker s2 = st_tracker s" "st_degraded s2" "\<not> le_closed (st_emitter s2)"
    using s1(1) assms(1)
    by (auto simp: run_proxyDirect Let_def quiet_def split: option.splits upstream.splits prod.splits)
  show ?thesis
  proof (cases x)
    case (Panics p)
    then show ?thesis
      using recovered_open [OF k(3), of h env p] s1(2) s2 k by (auto simp: ServeHTTP_def Let_def)
  qed (use s1(2) s2 k in \<open>simp add: ServeHTTP_def\<close>)
qed

lemma degraded_all:
  "st_degraded s \<Longrightarrow> \<not> le_closed (st_emitter s) \<Longrightarrow>
     st_degraded (serve_all h reqs s) \<and> \<not> le_closed (st_emitter (serve_all h reqs s)) \<and>
     st_tracker (serve_all h reqs s) = st_tracker s"
proof (induction reqs arbitrary: s)
  case (Cons x reqs)
  obtain lib env r where x: "x = (lib, env, r)" by (cases x)
  show ?case
    using degraded_step [OF Cons.prems, of h lib env r] Cons.IH [of "snd (ServeHTTP h lib env r s)"]
    by (simp add: x serve_all_def Let_def)
qed (simp add: serve_all_def)

text \<open>
  C27. Degraded mode is final and switches enforcement off. Once the handler is degraded it stays
  so and never touches a budget again, whatever requests it serves; and every later request
  whose upstream answers completely is forwarded unchanged, without any identity, policy, guard
  or budget check, and its answer returned to the client.
\<close>

theorem degraded_mode_passes_through:
  assumes "st_degraded s" "\<not> le_closed (st_emitter s)"
    and "resolveUpstream lib h r = Some u"
    and "en_upstream env (outgoing_to r u (request_body r)) = Responds resp" "complete_response env resp"
  shows "let s1 = serve_all h reqs s in st_degraded s1 \<and> st_tracker s1 = st_tracker s \<and>
     (\<exists>s'. ServeHTTP h lib env r s1 = (Returns (), s') \<and> st_degraded s' \<and> st_tracker s' = st_tracker s \<and>
       st_sent s' = st_sent s1 @ [outgoing_to r u (request_body r)] \<and>
       st_replies s' = st_replies s1 @ UpstreamHeader (ur_Status resp) # map UpstreamBody (ur_Chunks resp))"
proof -
  define s1 where "s1 = serve_all h reqs s"
  have k: "st_degraded s1" "\<not> le_closed (st_emitter s1)" "st_tracker s1 = st_tracker s"
    using degraded_all [OF assms(1,2)] by (simp_all add: s1_def)
  obtain s2 where s2: "quiet s1 s2" "serve_request h lib env r s1 = proxyDirect h lib env r s2"
    by (rule quiet_then [OF quiets_emit k(2)]) (use k(1) in \<open>auto simp: serve_request_def\<close>)
  have "ServeHTTP h lib env r s1 = (Returns (), s2\<lparr> st_sent := st_sent s2 @ [outgoing_to r u (request_body r)],
      st_replies := st_replies s2 @ UpstreamHeader (ur_Status resp) # map UpstreamBody (ur_Chunks resp) \<rparr>)"
    using assms(3-5) by (simp add: ServeHTTP_def s2(2) run_proxyDirect copy_body_def complete_response_def Let_def)
  with k s2(1) show ?thesis unfolding s1_def [symmetric] Let_def by (simp add: quiet_def)
qed

theorem degraded_mode_passes_through_witness:
  "\<exists>s'. ServeHTTP (demo_handler ''enforcement'') demo_lib (demo_env demo_answer) blank_request
       (demo_state\<lparr> st_degraded := True \<rparr>) = (Returns (), s') \<and> st_degraded s' \<and> length (st_sent s') = 1"
proof -
  have r: "resolveUpstream demo_lib (demo_handler ''enforcement'') blank_request = Some demo_url"
    "en_upstream (demo_env demo_answer) (outgoing_to blank_request demo_url (request_body blank_request)) = Responds demo_answer"
    "complete_response (demo_env demo_answer) demo_answer"
    by code_simp+
  show ?thesis
    using degraded_mode_passes_through [of "demo_state\<lparr> st_degraded := True \<rparr>", OF _ _ r, of "[]"]
    by (auto simp: serve_all_def)
qed

section \<open>Ordinary inputs that switch enforcement off\<close>

lemma quiet_also_do:
  assumes "quiets m" "\<not> le_closed (st_emitter s)" "\<And>s1. quiet s s1 \<Longrightarrow> \<exists>s2. n s1 = (x, s2) \<and> quiet s1 s2"
  shows "\<exists>s2. also_do m n s = (x, s2) \<and> quiet s s2"
proof -
  obtain s1 where s1: "quiet s s1" "also_do m n s = n s1" by (rule quiet_then [OF assms(1,2)])
  then show ?thesis using assms(3) [OF s1(1)] quiet_trans by (metis (no_types))
qed

lemma quiet_three:
  assumes "quiets m" "quiets m'" "quiets m''" "\<not> le_closed (st_emitter s)"
    and "\<And>s1. quiet s s1 \<Longrightarrow> \<exists>s2. k s1 = (x, s2) \<and> quiet s1 s2"
  shows "\<exists>s2. also_do m (also_do m' (also_do m'' k)) s = (x, s2) \<and> quiet s s2"
  using quiet_also_do [of "also_do m (also_do m' m'')" s k] assms by (simp add: also_do_assoc quieting)

text \<open>
  Steps that panic and change nothing that the client, the upstream or the tracker sees, and
  steps that may do so.
\<close>

definition sinks :: "'a act \<Rightarrow> bool" where
  "sinks m \<longleftrightarrow> (\<forall>s. \<not> le_closed (st_emitter s) \<longrightarrow> (\<exists>p s'. m s = (Panics p, s') \<and> quiet s s'))"

definition calm :: "unit act \<Rightarrow> bool" where
  "calm m \<longleftrightarrow> (\<forall>s. \<not> le_closed (st_emitter s) \<longrightarrow> (\<exists>r s'. m s = (r, s') \<and> quiet s s'))"

lemma sinks_raise: "sinks (raise p)"
  by (simp add: sinks_def quiet_def)

lemma calm_steps: "calm (emitEvent h e)" "calm (bump lib m)"
proof -
  show "calm (emitEvent h e)" using quiets_emit [of h e] by (auto simp: calm_def quiets_def)
  show "calm (bump lib m)"
    using quiets_count [of m] by (auto simp: calm_def bump_def with_labels_def quiets_def quiet_def)
qed

lemma sinks_first: "sinks m \<Longrightarrow> sinks (also_do m n)"
  unfolding sinks_def by (metis run_also_do(2))

lemma sinks_then:
  assumes "calm m" "sinks n"
  shows "sinks (also_do m n)"
  unfolding sinks_def
proof (intro allI impI)
  fix s :: hstate assume s: "\<not> le_closed (st_emitter s)"
  obtain r s1 where m: "m s = (r, s1)" "quiet s s1" using assms(1) s unfolding calm_def by metis
  show "\<exists>p s'. also_do m n s = (Panics p, s') \<and> quiet s s'"
  proof (cases r)
    case (Returns x)
    have "\<not> le_closed (st_emitter s1)" using m(2) by (simp add: quiet_def)
    then obtain p s2 where "n s1 = (Panics p, s2)" "quiet s1 s2" using assms(2) unfolding sinks_def by metis
    then show ?thesis using m Returns quiet_trans [of s s1 s2] by (auto simp: run_also_do)
  next
    case (Panics p)
    then show ?thesis using m by (auto simp: run_also_do)
  qed
qed

lemma sinks_add_tokens: "lib_counter_panics lib n \<Longrightarrow> sinks (add_tokens lib n m)"
  by (simp add: add_tokens_def with_labels_def sinks_raise)

lemma sinks_bump: "utf8_labels lib \<Longrightarrow> \<not> list_all utf8_valid (metric_labels m) \<Longrightarrow> sinks (bump lib m)"
  by (auto simp: bump_def with_labels_def utf8_labels_def list_ex_iff list_all_iff sinks_raise)

lemma sinks_if: "sinks m \<Longrightarrow> sinks n \<Longrightarrow> sinks (if b then m else n)"
  by simp

lemmas sinking = sinks_if sinks_add_tokens sinks_bump sinks_first sinks_then calm_steps

lemma sinks_serve:
  assumes "serve_request h lib env r s = m s0" "sinks m" "\<not> le_closed (st_emitter s0)"
  shows "\<exists>s'. ServeHTTP h lib env r s = (Returns (), s') \<and> st_degraded s' \<and> st_tracker s' = st_tracker s0 \<and>
     st_sent s' = st_sent s0 \<and> st_replies s' = st_replies s0 @ [ErrorReply 500 ''service_degraded'' ''system''
       ''internal_protection_triggered'' ''degraded'' ReasonSystemDegraded]"
proof -
  obtain p s1 where p: "m s0 = (Panics p, s1)" "quiet s0 s1" using assms(2,3) unfolding sinks_def by metis
  then have "\<not> le_closed (st_emitter s1)" by (simp add: quiet_def)
  then show ?thesis
    using recovered_open [of s1 h env p] p by (auto simp: ServeHTTP_def assms(1) quiet_def)
qed

text \<open>
  C19. One request whose workload identity is not valid UTF-8 switches enforcement off. The
  identity is a request header, and it becomes a metric label. In enforcement mode, when no
  policy matches the identity, or its policy's guard refuses the request, the denial is counted
  under that label and \<open>WithLabelValues\<close> panics: the client gets status 500 instead of 403 or
  429, nothing is sent upstream and no budget changes, but from then on the handler is degraded
  and forwards every request of every workload unchecked.
\<close>

theorem invalid_identity_disables_enforcement:
  assumes "\<not> st_degraded s" "\<not> le_closed (st_emitter s)" "\<not> isListenerMode h" "utf8_labels lib"
    and "Resolve (hd_resolver h) r = Inr ident" "\<not> utf8_valid (wi_WorkloadID ident)"
    and "\<And>pol. Lookup (hd_policyEngine h) ident = Some pol \<Longrightarrow> CheckPerRequestGuard pol (estimate r) \<noteq> None"
  shows "\<exists>s'. ServeHTTP h lib env r s = (Returns (), s') \<and> st_degraded s' \<and>
     st_sent s' = st_sent s \<and> st_tracker s' = st_tracker s \<and>
     st_replies s' = st_replies s @ [ErrorReply 500 ''service_degraded'' ''system''
       ''internal_protection_triggered'' ''degraded'' ReasonSystemDegraded]"
proof (cases "Lookup (hd_policyEngine h) ident")
  case None
  have "serve_request h lib env r s = policy_rejected h lib env r ident s"
    using assms(1,5) None by (simp add: serve_request_def)
  moreover have "sinks (policy_rejected h lib env r ident)"
    using assms(3,4,6) by (simp add: policy_rejected_def sinking)
  ultimately show ?thesis using sinks_serve [of h lib env r s _ s] assms(2) by auto
next
  case (Some pol)
  then obtain dec where dec: "CheckPerRequestGuard pol (estimate r) = Some dec" using assms(7) by blast
  let ?g = "guard_step h lib ident pol (provider_name (DetectProvider (rq_Host r))) (estimate r)"
  have g: "sinks ?g" using assms(3,4,6) dec by (simp add: guard_step_def sinking)
  have "sinks (andthen ?g f)" for f :: "bool \<Rightarrow> unit act"
    using g unfolding sinks_def by (metis run_andthen(2))
  then have "sinks (handleWithPolicy h lib env r ident pol)"
    unfolding handleWithPolicy_def Let_def .
  from sinks_serve [OF serve_enters_handle [OF assms(1,5) Some] this assms(2)] show ?thesis by auto
qed

definition strict_handler :: Handler where
  "strict_handler = (demo_handler ''enforcement'')\<lparr> hd_policyEngine :=
     MapE (fst (NewMapEngine (demo_config\<lparr> cfg_DefaultPolicy := None \<rparr>))) \<rparr>"

definition demo_intruder :: Request where
  "demo_intruder = (demo_request ''hello'')\<lparr> rq_Header := [''X-Genops-Workload-Id'' \<mapsto> [[CHR 0xFF]]] \<rparr>"

theorem invalid_identity_disables_enforcement_witness:
  "\<exists>s'. ServeHTTP strict_handler demo_lib (demo_env demo_answer) demo_intruder demo_state = (Returns (), s') \<and>
     st_degraded s' \<and> st_sent s' = []"
proof -
  have r: "\<not> isListenerMode strict_handler"
    "Resolve (hd_resolver strict_handler) demo_intruder = Inr (no_identity\<lparr> wi_WorkloadID := [CHR 0xFF] \<rparr>)"
    "\<not> utf8_valid (wi_WorkloadID (no_identity\<lparr> wi_WorkloadID := [CHR 0xFF] \<rparr>))"
    "Lookup (hd_policyEngine strict_handler) (no_identity\<lparr> wi_WorkloadID := [CHR 0xFF] \<rparr>) = None"
    by code_simp+
  show ?thesis
    using invalid_identity_disables_enforcement [OF _ _ r(1) demo_labels r(2,3), of demo_state] r(4) by auto
qed

lemma sinks_allow: "lib_counter_panics lib n \<Longrightarrow> sinks (allow_step h lib ident pol nm n streaming)"
  by (simp add: allow_step_def sinking)

lemma reserve_negative:
  assumes "tracker_ok t" "windows t k = Some ws" "same_second clk now" "n < 0" "in64 n"
    and "0 \<le> totalTokens (advance now (window ws))" "totalTokens (advance now (window ws)) \<le> limitTokens ws"
  shows "\<exists>bs. Reserve clk k n t = (Returns (bs, True, None), put_window k ws (charge n (advance now (window ws))) t)"
proof -
  note ws = workload_okD [OF tracker_okD [OF assms(1,2)]]
  have adv: "advance (clk i) = advance now" for i
    using assms(3) by (auto simp: same_second_def intro: advance_cong_sec)
  have c: "charged clk n (window ws) = charge n (advance now (window ws))"
    by (simp add: charged_def adv headTime_advance)
  have "in64 (totalTokens (advance now (window ws)) + n)"
    using assms(4-7) ws(4) by (simp add: in64_def)
  then have "max 0 (totalTokens (charged clk n (window ws))) \<le> limitTokens ws"
    using assms(4,7) ws(3) by (simp add: c)
  then show ?thesis
    using reserve_window_eq [OF ws(1-4), of clk n] assms(2) by (simp add: Reserve_def tracker_get_def c)
qed

lemma estimate_range: "estimate r < 0 \<Longrightarrow> in64 (estimate r)"
  using extractMaxTokens_range [of "request_body r"]
  by (cases "DetectProvider (rq_Host r)") (auto simp: estimate_def Let_def)

text \<open>
  C23. One request with a negative \<open>max_tokens\<close> frees budget and switches enforcement off. The
  guard does not stop it, the reservation is granted and lowers the workload's usage from \<open>T\<close>
  to \<open>T\<close> plus the negative estimate (or to zero), and counting the reserved tokens panics,
  because a Prometheus counter refuses to decrease. The deferred function recovers: the client
  gets status 500, nothing is sent upstream, and from then on the handler is degraded. This
  holds in enforcement and in listener mode.
\<close>

theorem negative_estimate_disables_enforcement:
  fixes s :: hstate and ws :: workloadState and now :: gotime
  defines "T \<equiv> totalTokens (advance now (window ws))"
  assumes "\<not> st_degraded s" "\<not> le_closed (st_emitter s)" "tracker_ok (st_tracker s)"
    and "Resolve (hd_resolver h) r = Inr ident" "Lookup (hd_policyEngine h) ident = Some pol"
    and "windows (st_tracker s) (accountingKey h (wi_WorkloadID ident)) = Some ws"
    and "same_second (en_reserve env) now" "0 \<le> T" "T \<le> limitTokens ws"
    and "estimate r < 0" "\<And>v. v < 0 \<Longrightarrow> lib_counter_panics lib v"
  shows "\<exists>s'. ServeHTTP h lib env r s = (Returns (), s') \<and> st_degraded s' \<and> st_sent s' = st_sent s \<and>
     st_replies s' = st_replies s @ [ErrorReply 500 ''service_degraded'' ''system''
       ''internal_protection_triggered'' ''degraded'' ReasonSystemDegraded] \<and>
     map_sum id WindowTokensUsed (fst (Status now (accountingKey h (wi_WorkloadID ident)) (st_tracker s'))) =
       Inr (max 0 (T + estimate r))"
proof -
  let ?k = "accountingKey h (wi_WorkloadID ident)" and ?v = "advance now (window ws)"
  let ?t = "put_window ?k ws (charge (estimate r) ?v) (st_tracker s)"
  have guard: "CheckPerRequestGuard pol (estimate r) = None" using assms(11) by (auto simp: guard_None)
  obtain bs where R: "Reserve (en_reserve env) ?k (estimate r) (st_tracker s) = (Returns (bs, True, None), ?t)"
    using reserve_negative [OF assms(4,7,8,11) estimate_range [OF assms(11)]] assms(9,10) by (auto simp: T_def)
  have op: "\<not> le_closed (st_emitter (s\<lparr> st_tracker := ?t \<rparr>))" using assms(3) by simp
  let ?m = "allow_step h lib ident pol (provider_name (DetectProvider (rq_Host r))) (estimate r)
        (isStreamingRequest (request_body r))"
  let ?p = "proxyWithEnforcement h lib env r ident pol (DetectProvider (rq_Host r)) (estimate r)
            (isStreamingRequest (request_body r)) (request_body r) ?k"
  have sink: "sinks (also_do ?m ?p)"
    by (rule sinks_first [OF sinks_allow [OF assms(12) [OF assms(11)]]])
  have "decision_step h lib ident pol (provider_name (DetectProvider (rq_Host r))) (estimate r) bs True
      (s\<lparr> st_tracker := ?t \<rparr>) = (Returns True, s\<lparr> st_tracker := ?t \<rparr>)"
    by (rule decision_goes_on) simp
  then have serve: "serve_request h lib env r s = also_do ?m ?p (s\<lparr> st_tracker := ?t \<rparr>)"
    by (simp add: serve_enters_handle [OF assms(2,5,6)] handle_reserved [OF guard R] after_reserve_def
        run_andthen(1))
  have "in64 (T + estimate r)"
    using estimate_range [OF assms(11)] assms(9-11) workload_okD(4) [OF tracker_okD [OF assms(4,7)]]
    by (simp add: in64_def)
  then have "map_sum id WindowTokensUsed (fst (Status now ?k ?t)) = Inr (max 0 (T + estimate r))"
    by (simp add: Status_def Total_eq Let_def headTime_advance T_def)
  then show ?thesis using sinks_serve [OF serve sink op] by auto
qed

theorem negative_estimate_disables_enforcement_witness:
  "\<exists>s'. ServeHTTP (demo_handler ''enforcement'') demo_lib (demo_now demo_answer)
       (demo_request (jtext ''{`max_tokens`:-1000}'')) (used_state 4000) = (Returns (), s') \<and> st_degraded s' \<and>
     map_sum id WindowTokensUsed (fst (Status 0 (accountingKey (demo_handler ''enforcement'')
       (wi_WorkloadID demo_identity)) (st_tracker s'))) = Inr 3000"
proof -
  let ?r = "demo_request (jtext ''{`max_tokens`:-1000}'')"
  have r: "Resolve (hd_resolver (demo_handler ''enforcement'')) ?r = Inr demo_identity" "estimate ?r = - 1000"
    by code_simp+
  have clk: "same_second (en_reserve (demo_now demo_answer)) 0"
    by (simp add: demo_now_def demo_env_def same_second_def)
  have "\<And>v. v < 0 \<Longrightarrow> lib_counter_panics demo_lib v" by (simp add: demo_lib_def)
  then show ?thesis
    using negative_estimate_disables_enforcement [OF _ _ _ r(1) demo_path(2) demo_used(1) clk]
    by (simp add: demo_used(2,3) r(2)) blast
qed

lemma serve_panics:
  assumes "serve_request h lib env r s = (Panics p, s1)" "\<not> le_closed (st_emitter s1)"
  shows "\<exists>s2. ServeHTTP h lib env r s = (Returns (), s2) \<and> st_degraded s2 \<and> st_tracker s2 = st_tracker s1 \<and>
     st_sent s2 = st_sent s1 \<and> st_replies s2 = st_replies s1 @ [ErrorReply 500 ''service_degraded'' ''system''
       ''internal_protection_triggered'' ''degraded'' ReasonSystemDegraded]"
  using recovered_open [OF assms(2), of h env p] by (auto simp: ServeHTTP_def assms(1))

text \<open>
  C24. A client that leaves in the middle of a stream switches enforcement off. When an admitted
  request, whose estimate and labels the metrics take, is answered by an event stream and the client stops taking it before its end, the
  reverse proxy aborts the handler with a panic; the deferred function takes it for an internal
  failure, and from then on the handler is degraded. The reservation stands when the part of the
  stream that was read has not reported its usage.
\<close>

theorem client_disconnect_disables_enforcement:
  assumes "\<not> st_degraded s" "\<not> le_closed (st_emitter s)"
    and "Resolve (hd_resolver h) r = Inr ident" "Lookup (hd_policyEngine h) ident = Some pol"
    and "CheckPerRequestGuard pol (estimate r) = None"
    and "Reserve (en_reserve env) (accountingKey h (wi_WorkloadID ident)) (estimate r) (st_tracker s)
       = (Returns (bs, True, None), t)"
    and "\<not> lib_counter_panics lib (estimate r)" "resolveUpstream lib h r = Some u"
    and "en_upstream env (outgoing_to r u (sent_body h r)) = Responds resp"
    and "ur_Status resp < 500" "isSSEResponse (ur_ContentType resp)"
    and "en_client_takes env = Some n" "n < length (ur_Chunks resp)"
    and "stream_usage (DetectProvider (rq_Host r)) (take (Suc n) (ur_Chunks resp)) = None"
    and "valid_labels lib ident (pol_ID pol)"
  shows "\<exists>s'. ServeHTTP h lib env r s = (Returns (), s') \<and> st_degraded s' \<and> st_tracker s' = t \<and>
     st_replies s' = st_replies s @ UpstreamHeader (ur_Status resp) # map UpstreamBody (take n (ur_Chunks resp)) @
       [ErrorReply 500 ''service_degraded'' ''system'' ''internal_protection_triggered'' ''degraded'' ReasonSystemDegraded]"
proof -
  let ?k = "accountingKey h (wi_WorkloadID ident)"
  obtain s1 where s1: "quiet (s\<lparr> st_tracker := t \<rparr>) s1"
    "handleWithPolicy h lib env r ident pol s =
       proxyWithEnforcement h lib env r ident pol (DetectProvider (rq_Host r)) (estimate r)
         (isStreamingRequest (request_body r)) (request_body r) ?k s1"
    by (rule handle_proxied [OF assms(5,6) _ _ assms(2,7,15)]) simp_all
  let ?s2 = "s1\<lparr> st_sent := st_sent s1 @ [outgoing_to r u (sent_body h r)] \<rparr>"
  let ?s3 = "?s2\<lparr> st_replies := st_replies s1 @ UpstreamHeader (ur_Status resp) # map UpstreamBody (take n (ur_Chunks resp)) \<rparr>"
  have "response_step h lib env r ident pol ?k resp ?s2 = (Panics AbortHandler, ?s3)"
    using assms(10-14)
    by (simp add: modify_response_def Let_def andthen_def run_forward copy_body_def also_do_def)
  then have "serve_request h lib env r s = (Panics AbortHandler, ?s3)"
    unfolding serve_enters_handle [OF assms(1,3,4)] s1(2) proxy_responds [OF assms(8,9)] .
  then show ?thesis using serve_panics [of h lib env r s AbortHandler ?s3] s1(1) by (auto simp: quiet_def)
qed

definition demo_stream_answer :: upstream_response where
  "demo_stream_answer = demo_response 200 ''text/event-stream'' [''data: a'', ''data: b'', ''data: c'']"

definition demo_leaver :: request_env where
  "demo_leaver = (demo_env demo_stream_answer)\<lparr> en_client_takes := Some 1 \<rparr>"

theorem client_disconnect_disables_enforcement_witness:
  "\<exists>s'. ServeHTTP (demo_handler ''enforcement'') demo_lib demo_leaver demo_ask demo_state = (Returns (), s') \<and>
     st_degraded s'"
proof -
  let ?h = "demo_handler ''enforcement''"
  let ?R = "Reserve (en_reserve demo_leaver) (accountingKey ?h (wi_WorkloadID demo_identity)) (estimate demo_ask)
      (st_tracker demo_state)"
  let ?bs = "\<lparr> WindowTokensUsed = 100, WindowTokensLimit = 5000, bs_BurstRemaining = 0 \<rparr>"
  have "fst ?R = Returns (?bs, True, None)" by code_simp
  then have R: "?R = (Returns (?bs, True, None), snd ?R)" by (metis prod.collapse)
  have w: "\<not> lib_counter_panics demo_lib (estimate demo_ask)" "resolveUpstream demo_lib ?h demo_ask = Some demo_url"
    "en_upstream demo_leaver (outgoing_to demo_ask demo_url (sent_body ?h demo_ask)) = Responds demo_stream_answer"
    "ur_Status demo_stream_answer < 500" "isSSEResponse (ur_ContentType demo_stream_answer)"
    "en_client_takes demo_leaver = Some 1" "1 < length (ur_Chunks demo_stream_answer)"
    "stream_usage (DetectProvider (rq_Host demo_ask)) (take (Suc 1) (ur_Chunks demo_stream_answer)) = None"
    by code_simp+
  show ?thesis
    using client_disconnect_disables_enforcement [OF _ _ demo_path(1,2,6) R w demo_valid_labels] by auto
qed

section \<open>Upstream failures\<close>

text \<open>
  C28. A request that never reaches an upstream keeps its reservation. When no upstream is
  configured for the provider of an admitted request, whose estimate and labels the metrics take, or the round trip to it fails, the client
  gets status 502 or 504 and the tracker stays as the granted reservation left it: the estimate
  remains charged although no token can have been used.
\<close>

theorem failed_round_trip_keeps_reservation:
  assumes "\<not> st_degraded s" "\<not> le_closed (st_emitter s)"
    and "Resolve (hd_resolver h) r = Inr ident" "Lookup (hd_policyEngine h) ident = Some pol"
    and "CheckPerRequestGuard pol (estimate r) = None"
    and "Reserve (en_reserve env) (accountingKey h (wi_WorkloadID ident)) (estimate r) (st_tracker s)
       = (Returns (bs, True, None), t)"
    and "\<not> lib_counter_panics lib (estimate r)"
    and "\<And>u. resolveUpstream lib h r = Some u \<Longrightarrow>
       \<exists>e. en_upstream env (outgoing_to r u (sent_body h r)) = RoundTripFails e"
    and "valid_labels lib ident (pol_ID pol)"
  shows "\<exists>s'. ServeHTTP h lib env r s = (Returns (), s') \<and> \<not> st_degraded s' \<and> st_tracker s' = t \<and>
     st_replies s' = st_replies s @ [if resolveUpstream lib h r = None
       then ErrorReply 502 ''upstream_not_configured'' ''system'' ''no_upstream_for_provider'' ''reject''
         ReasonUpstreamNotConfigured
       else ErrorReply 504 ''upstream_timeout'' ''system'' ''upstream_did_not_respond'' ''reject''
         ReasonUpstreamTimeout]"
proof -
  let ?k = "accountingKey h (wi_WorkloadID ident)"
  obtain s1 where s1: "quiet (s\<lparr> st_tracker := t \<rparr>) s1"
    "handleWithPolicy h lib env r ident pol s =
       proxyWithEnforcement h lib env r ident pol (DetectProvider (rq_Host r)) (estimate r)
         (isStreamingRequest (request_body r)) (request_body r) ?k s1"
    by (rule handle_proxied [OF assms(5,6) _ _ assms(2,7,9)]) simp_all
  show ?thesis
  proof (cases "resolveUpstream lib h r")
    case None
    then show ?thesis
      using s1(1) assms(1) unfolding ServeHTTP_def serve_enters_handle [OF assms(1,3,4)] s1(2)
      by (simp add: proxyWithEnforcement_def upstream_missing_def writeErrorResponse_def quiet_def)
  next
    case (Some u)
    let ?og = "(outgoing_to r u (sent_body h r))" and ?w = "write_reply (ErrorReply 504 ''upstream_timeout'' ''system''
        ''upstream_did_not_respond'' ''reject'' ReasonUpstreamTimeout)"
    obtain e where e: "en_upstream env ?og = RoundTripFails e" using assms(8) [OF Some] by blast
    let ?e = "mk_event ''upstream_timeout'' (wi_WorkloadID ident) ''error'' [(''error'', AStr e)]"
    let ?s2 = "s1\<lparr> st_sent := st_sent s1 @ [?og] \<rparr>"
    have op: "\<not> le_closed (st_emitter ?s2)" using s1(1) by (simp add: quiet_def)
    obtain s3 where s3: "quiet ?s2 s3" "also_do (emitEvent h ?e) ?w ?s2 = ?w s3"
      by (rule quiet_then [OF quiets_emit op])
    have "serve_request h lib env r s = ?w s3"
      unfolding serve_enters_handle [OF assms(1,3,4)] s1(2)
      by (simp add: proxyWithEnforcement_def Some run_andthen(1) [OF run_outgoing_body] ReverseProxy_ServeHTTP_def
          run_also_do e writeErrorResponse_def s3(2) del: run_simps(3))
    then show ?thesis using s1(1) s3(1) assms(1) Some by (simp add: ServeHTTP_def quiet_def)
  qed
qed

theorem failed_round_trip_keeps_reservation_witness:
  "\<exists>s'. ServeHTTP (demo_handler ''enforcement'') demo_lib
       ((demo_env demo_answer)\<lparr> en_upstream := (\<lambda>_. RoundTripFails ''refused'') \<rparr>) demo_ask demo_state = (Returns (), s') \<and>
     map_sum id WindowTokensUsed (fst (Status 0 ''svc'' (st_tracker s'))) = Inr 100"
proof -
  let ?h = "demo_handler ''enforcement''" and ?env = "(demo_env demo_answer)\<lparr> en_upstream := (\<lambda>_. RoundTripFails ''refused'') \<rparr>"
  let ?R = "Reserve (en_reserve ?env) (accountingKey ?h (wi_WorkloadID demo_identity)) (estimate demo_ask)
      (st_tracker demo_state)"
  let ?bs = "\<lparr> WindowTokensUsed = 100, WindowTokensLimit = 5000, bs_BurstRemaining = 0 \<rparr>"
  have "fst ?R = Returns (?bs, True, None)" by code_simp
  then have R: "?R = (Returns (?bs, True, None), snd ?R)" by (metis prod.collapse)
  have w: "\<not> lib_counter_panics demo_lib (estimate demo_ask)"
    and st: "map_sum id WindowTokensUsed (fst (Status 0 ''svc'' (snd ?R))) = Inr 100" by code_simp+
  show ?thesis
    using failed_round_trip_keeps_reservation [OF _ _ demo_path(1,2,6) R w _ demo_valid_labels] st by auto
qed

end
