(* ===== verification/Listener_Mode.thy ===== *)
theory Listener_Mode
  imports Request_Failures
begin

text \<open>
  Listener mode observes and never interferes: what the handler would have denied is logged and
  counted, and the request is forwarded all the same.
\<close>

section \<open>The steps of a request in listener mode\<close>

lemma quiet_ret: "\<not> le_closed (st_emitter s) \<Longrightarrow> \<exists>s1. ret x s = (Returns x, s1) \<and> quiet s s1"
  "quiet s s1 \<Longrightarrow> \<exists>s2. ret x s1 = (Returns x, s2) \<and> quiet s1 s2"
  by (simp_all add: quiet_def)

lemma listener_guard:
  assumes "isListenerMode h" "\<not> le_closed (st_emitter s)" "utf8_labels lib" "utf8_valid (wi_Namespace ident)"
  shows "\<exists>s1. guard_step h lib ident pol nm n s = (Returns True, s1) \<and> quiet s s1"
  unfolding guard_step_def
  by (cases "CheckPerRequestGuard pol n")
    (simp_all only: option.case assms if_True quiet_ret quiet_three quieting not_False_eq_True
      metric_labels.simps list.pred_inject utf8_valid_shadow utf8_valid_code simp_thms)

lemma listener_decision:
  assumes "isListenerMode h" "\<not> le_closed (st_emitter s)" "utf8_labels lib" "utf8_valid (wi_Namespace ident)"
  shows "\<exists>s1. decision_step h lib ident pol nm n bs a s = (Returns True, s1) \<and> quiet s s1"
proof -
  obtain fs fa where inc: "Increment '''' 0 = (fs, fa)" by fastforce
  show ?thesis
    unfolding decision_step_def Let_def inc
    by (auto simp only: prod.case assms if_True quiet_ret quiet_three quieting not_False_eq_True
        metric_labels.simps list.pred_inject utf8_valid_shadow utf8_valid_code simp_thms split: if_split)
qed

lemma listener_handles:
  assumes "isListenerMode h" "\<not> le_closed (st_emitter s)" "tracker_ok (st_tracker s)"
    and "\<not> lib_counter_panics lib (estimate r)" "valid_labels lib ident (pol_ID pol)"
  obtains s1 where
    "quiet (s\<lparr> st_tracker := snd (Reserve (en_reserve env) (accountingKey h (wi_WorkloadID ident)) (estimate r) (st_tracker s)) \<rparr>) s1"
    "handleWithPolicy h lib env r ident pol s =
       proxyWithEnforcement h lib env r ident pol (DetectProvider (rq_Host r)) (estimate r)
         (isStreamingRequest (request_body r)) (request_body r) (accountingKey h (wi_WorkloadID ident)) s1"
proof -
  let ?R = "Reserve (en_reserve env) (accountingKey h (wi_WorkloadID ident)) (estimate r) (st_tracker s)"
  let ?nm = "provider_name (DetectProvider (rq_Host r))"
  have lab: "utf8_labels lib" "utf8_valid (wi_Namespace ident)" using assms(5) by (simp_all add: valid_labels_def)
  obtain s1 where s1: "guard_step h lib ident pol ?nm (estimate r) s = (Returns True, s1)" "quiet s s1"
    using listener_guard [OF assms(1,2) lab] by blast
  obtain x where "fst ?R = Returns x"
    using impl.reserve_returns [OF assms(3), of "en_reserve env" "accountingKey h (wi_WorkloadID ident)" "estimate r"]
    by (cases "fst ?R") auto
  then obtain bs a err where R: "?R = (Returns (bs, a, err), snd ?R)" by (metis prod.collapse)
  let ?s2 = "s1\<lparr> st_tracker := snd ?R \<rparr>"
  have op: "\<not> le_closed (st_emitter ?s2)" using s1(2) by (simp add: quiet_def)
  obtain s3 where s3: "decision_step h lib ident pol ?nm (estimate r) bs a ?s2 = (Returns True, s3)" "quiet ?s2 s3"
    using listener_decision [OF assms(1) op lab] by blast
  have op3: "\<not> le_closed (st_emitter s3)" using s3(2) by (simp add: quiet_def)
  let ?p = "proxyWithEnforcement h lib env r ident pol (DetectProvider (rq_Host r)) (estimate r)
         (isStreamingRequest (request_body r)) (request_body r) (accountingKey h (wi_WorkloadID ident))"
  obtain s4 where s4: "quiet s3 s4" "also_do (allow_step h lib ident pol ?nm (estimate r)
      (isStreamingRequest (request_body r))) ?p s3 = ?p s4"
    by (rule quiet_then [OF quiets_allow [OF assms(4,5)] op3])
  have "reserve_act env (accountingKey h (wi_WorkloadID ident)) (estimate r) s1 = (Returns (bs, a, err), ?s2)"
    using run_reserve [of env "accountingKey h (wi_WorkloadID ident)" "estimate r" s1 "(bs, a, err)" "snd ?R"] R s1(2)
    by (simp add: quiet_def)
  then have "handleWithPolicy h lib env r ident pol s = ?p s4"
    using assms(1) by (simp add: handleWithPolicy_def Let_def andthen_def s1(1) s3(1) s4(2))
  moreover have "quiet (s\<lparr> st_tracker := snd ?R \<rparr>) s4"
    using s1(2) s3(2) s4(1) by (simp add: quiet_def)
  ultimately show thesis by (rule that [rotated])
qed

section \<open>Every request is forwarded\<close>

text \<open>
  What every path of a request in listener mode ends with: the response has been forwarded to
  the client and one request with the given body has been sent.
\<close>

definition observed :: "hstate \<Rightarrow> outgoing \<Rightarrow> upstream_response \<Rightarrow> unit outcome \<times> hstate \<Rightarrow> bool" where
  "observed s og resp res \<longleftrightarrow> (\<exists>s' body. res = (Returns (), s') \<and> st_degraded s' = st_degraded s \<and>
     st_sent s' = st_sent s @ [og] \<and> concat body = concat (ur_Chunks resp) \<and>
     st_replies s' = st_replies s @ UpstreamHeader (ur_Status resp) # map UpstreamBody body)"

lemma direct_observed:
  assumes "\<not> le_closed (st_emitter s)" "quiets m" "resolveUpstream lib h r = Some u"
    and "en_upstream env (outgoing_to r u (request_body r)) = Responds resp" "complete_response env resp"
  shows "observed s (outgoing_to r u (request_body r)) resp (also_do m (proxyDirect h lib env r) s)"
proof -
  obtain s1 where s1: "quiet s s1" "also_do m (proxyDirect h lib env r) s = proxyDirect h lib env r s1"
    by (rule quiet_then [OF assms(2,1)])
  then show ?thesis
    using assms(3-5)
    by (auto simp: observed_def run_proxyDirect copy_body_def complete_response_def Let_def quiet_def)
qed

lemma handled_observed:
  assumes "isListenerMode h" "\<not> le_closed (st_emitter s)" "tracker_ok (st_tracker s)"
    and "resolveUpstream lib h r = Some u"
    and "en_upstream env (outgoing_to r u (sent_body h r)) = Responds resp" "complete_response env resp"
    and "\<not> lib_counter_panics lib (estimate r)"
    and "pred_option (\<lambda>u. \<not> lib_counter_panics lib (TotalTokens u)) (response_usage h r resp)"
    and "valid_labels lib ident (pol_ID pol)"
  shows "observed s (outgoing_to r u (sent_body h r)) resp (handleWithPolicy h lib env r ident pol s)"
proof -
  let ?k = "accountingKey h (wi_WorkloadID ident)" and ?og = "(outgoing_to r u (sent_body h r))"
  let ?t = "snd (Reserve (en_reserve env) ?k (estimate r) (st_tracker s))"
  obtain s1 where s1: "quiet (s\<lparr> st_tracker := ?t \<rparr>) s1"
    "handleWithPolicy h lib env r ident pol s =
       proxyWithEnforcement h lib env r ident pol (DetectProvider (rq_Host r)) (estimate r)
         (isStreamingRequest (request_body r)) (request_body r) ?k s1"
    by (rule listener_handles [OF assms(1-3,7,9)])
  let ?s2 = "s1\<lparr> st_sent := st_sent s1 @ [?og] \<rparr>"
  have "tracker_ok ?t" by (rule impl.reserve_sound [OF assms(3)])
  then have s2: "tracker_ok (st_tracker ?s2)" "\<not> le_closed (st_emitter ?s2)" using s1(1) by (simp_all add: quiet_def)
  have "forwarded ?s2 resp (tracker_after h env r ?k resp (st_tracker ?s2)) (response_step h lib env r ident pol ?k resp ?s2)"
    by (rule response_forwarded [OF s2 assms(6-9)])
  then show ?thesis
    using s1(1) unfolding s1(2) proxy_responds [OF assms(4,5)]
    by (auto simp: forwarded_def observed_def quiet_def)
qed

text \<open>
  The labels a request is counted under are valid UTF-8: those of the identity it resolves to,
  and of the policy that identity, or an unidentified request, gets.
\<close>

definition labels_fit :: "request_lib \<Rightarrow> Handler \<Rightarrow> Request \<Rightarrow> bool" where
  "labels_fit lib h r \<longleftrightarrow> utf8_labels lib \<and>
     (case Resolve (hd_resolver h) r of
        Inl e \<Rightarrow> pred_option (\<lambda>p. utf8_valid (pol_ID p)) (Lookup (hd_policyEngine h) no_identity)
      | Inr ident \<Rightarrow> utf8_valid (wi_WorkloadID ident) \<and> utf8_valid (wi_Namespace ident) \<and>
          pred_option (\<lambda>p. utf8_valid (pol_ID p)) (Lookup (hd_policyEngine h) ident))"

text \<open>
  C16. Listener mode never blocks a request whose numbers and labels the metrics take. For every
  request (identified or not, with or without a policy, above the guard or not, within its
  budget, over it or not registered at all) whose estimate, and whose response's reported usage,
  the Prometheus counters accept and whose labels are valid UTF-8, when the upstream answers
  completely: the handler sends it to the upstream exactly once, changed at most by the injected
  stream options, and the client receives exactly the upstream's status and body; the handler
  does not degrade. (A negative estimate degrades it in listener mode too.)
\<close>

theorem listener_never_blocks:
  assumes "isListenerMode h" "\<not> st_degraded s" "\<not> le_closed (st_emitter s)" "tracker_ok (st_tracker s)"
    and "resolveUpstream lib h r = Some u" "\<And>b. en_upstream env (outgoing_to r u b) = Responds resp"
    and "complete_response env resp" "\<not> lib_counter_panics lib (estimate r)"
    and "pred_option (\<lambda>u. \<not> lib_counter_panics lib (TotalTokens u)) (response_usage h r resp)"
    and "labels_fit lib h r"
  shows "\<exists>s' b body. ServeHTTP h lib env r s = (Returns (), s') \<and> \<not> st_degraded s' \<and>
     b \<in> {request_body r, sent_body h r} \<and> st_sent s' = st_sent s @ [outgoing_to r u b] \<and>
     concat body = concat (ur_Chunks resp) \<and>
     st_replies s' = st_replies s @ UpstreamHeader (ur_Status resp) # map UpstreamBody body"
proof -
  have lab: "utf8_labels lib" using assms(10) by (simp add: labels_fit_def)
  note dir = direct_observed [OF assms(3) _ assms(5) assms(6) assms(7)]
  note hnd = handled_observed [OF assms(1,3,4,5) assms(6) assms(7-9)]
  have q: "quiets (also_do (emitEvent h e) (bump lib m))" if "list_all utf8_valid (metric_labels m)" for e m
    using lab that by (simp add: quieting)
  have rej: "observed s (outgoing_to r u (request_body r)) resp (identity_rejected h lib env r s)"
    "utf8_valid (wi_Namespace ident) \<Longrightarrow>
      observed s (outgoing_to r u (request_body r)) resp (policy_rejected h lib env r ident s)" for ident
    using assms(1) dir [OF q] by (simp_all add: identity_rejected_def policy_rejected_def also_do_assoc)
  have "\<exists>b \<in> {request_body r, sent_body h r}. observed s (outgoing_to r u b) resp (serve_request h lib env r s)"
  proof (cases "Resolve (hd_resolver h) r")
    case (Inl e)
    have "observed s (outgoing_to r u (sent_body h r)) resp
        (handleWithPolicy h lib env r (no_identity\<lparr> wi_WorkloadID := ''_default'' \<rparr>) pol s)"
      if "Lookup (hd_policyEngine h) no_identity = Some pol" for pol
      by (rule hnd) (use assms(10) Inl that in \<open>simp add: labels_fit_def valid_labels_def no_identity_def\<close>)
    then show ?thesis using assms(2) Inl rej(1) by (auto simp: serve_request_def split: option.split)
  next
    case (Inr ident)
    have "observed s (outgoing_to r u (sent_body h r)) resp (handleWithPolicy h lib env r ident pol s)"
      if "Lookup (hd_policyEngine h) ident = Some pol" for pol
      by (rule hnd) (use assms(10) Inr that in \<open>simp add: labels_fit_def valid_labels_def\<close>)
    moreover have "utf8_valid (wi_Namespace ident)" using assms(10) Inr by (simp add: labels_fit_def)
    ultimately show ?thesis using assms(2) Inr rej(2) by (auto simp: serve_request_def split: option.split)
  qed
  then show ?thesis using assms(2) unfolding observed_def ServeHTTP_def by fastforce
qed

theorem listener_never_blocks_witness:
  "\<exists>s'. ServeHTTP (demo_handler ''listener'') demo_lib (demo_env demo_answer) (demo_request (jtext ''{`max_tokens`:9000}''))
       (used_state 6000) = (Returns (), s') \<and> length (st_sent s') = 1 \<and> \<not> st_degraded s'"
proof -
  let ?h = "demo_handler ''listener''" and ?r = "demo_request (jtext ''{`max_tokens`:9000}'')"
  have r: "isListenerMode ?h" "resolveUpstream demo_lib ?h ?r = Some demo_url" "complete_response (demo_env demo_answer) demo_answer"
    "\<not> lib_counter_panics demo_lib (estimate ?r)"
    "response_usage ?h ?r demo_answer = Some \<lparr> InputTokens = 0, OutputTokens = 0, TotalTokens = 42 \<rparr>"
    "Resolve (hd_resolver ?h) ?r = Inr demo_identity" "Lookup (hd_policyEngine ?h) demo_identity = Some demo_policy"
    by code_simp+
  have env: "en_upstream (demo_env demo_answer) og = Responds demo_answer" for og by (simp add: demo_env_def)
  have "labels_fit demo_lib ?h ?r" using demo_valid_labels by (simp add: labels_fit_def r(6,7) valid_labels_def)
  then show ?thesis
    using listener_never_blocks [OF r(1) _ _ _ r(2) env r(3,4), of "used_state 6000"]
    by (auto simp: r(5) demo_lib_def)
qed

end
