(* ===== verification/Startup.thy ===== *)
theory Startup
  imports Listener_Mode
begin

text \<open>
  \<^verbatim>\<open>cmd/koshi/main.go\<close>: from the environment of the process to a running handler. The role
  dispatch, the choice of the configuration, the synthesised workload of a sidecar, the wiring of
  resolver, engine and tracker, the health endpoints and the listen address. \<^verbatim>\<open>os.Exit(1)\<close> is an
  error value; a panic during start-up is a panic. The environment, the file system and the YAML
  decoder are arguments. Routing is in
  theory \<open>Serving\<close>, the server and its shutdown in \<open>Lifecycle\<close>.
\<close>

section \<open>Choosing the configuration\<close>

datatype role = RunInjector | RunCertgenSecret | RunCertgenCABundle | RunProxy

definition dispatch :: "environment \<Rightarrow> role" where
  "dispatch env =
     (let r = env ''KOSHI_ROLE'' in
      if r = ''injector'' then RunInjector
      else if r = ''certgen-secret'' then RunCertgenSecret
      else if r = ''certgen-cabundle'' then RunCertgenCABundle
      else RunProxy)"

datatype startup_error =
    SidecarParseFailed config_error
  | SidecarConfigInvalid config_error
  | SidecarNeedsIdentity string string
  | SidecarNeedsPolicy
  | SidecarPolicyUnknown string
  | LoadFailed config_error
  | EnforcementNeedsIdentity string string string
  | BuiltinPolicyUnknown string
  | UnsupportedMode string
  | OverridePolicyUnknown string
  | NoResolvablePolicy string

definition knows_policy :: "Config \<Rightarrow> string \<Rightarrow> bool" where
  "knows_policy cfg i \<longleftrightarrow> list_ex (\<lambda>p. pol_ID p = i) (cfg_Policies cfg)"

text \<open>The workload a sidecar makes up from the identity of its pod.\<close>

definition pod_workload :: "string \<Rightarrow> string \<Rightarrow> string \<Rightarrow> string \<Rightarrow> Workload" where
  "pod_workload ns wKind wName policyID =
     \<lparr> wl_ID = ns @ ''/'' @ wKind @ ''/'' @ wName, wl_Type = ''sidecar'', wl_OwnerTeam = '''', wl_Environment = '''',
       wl_Identity = \<lparr> idn_Mode = ''pod'', idn_Key = '''' \<rparr>, wl_ModelTargets = [], wl_PolicyRefs = [policyID] \<rparr>"

definition sidecar_file_config :: "environment \<Rightarrow> Config \<Rightarrow> startup_error + Config" where
  "sidecar_file_config env cfg =
     (case ValidateSidecarConfig cfg of Some e \<Rightarrow> Inl (SidecarConfigInvalid e) | None \<Rightarrow>
      let ns = env ''KOSHI_POD_NAMESPACE''; wKind = env ''KOSHI_WORKLOAD_KIND''; wName = env ''KOSHI_WORKLOAD_NAME'';
          resolvedMode = (if env ''KOSHI_MODE'' = ''enforcement'' then ''enforcement'' else ''listener'');
          policyOverride = env ''KOSHI_POLICY_OVERRIDE'' in
      if wKind = '''' \<or> wName = '''' then Inl (SidecarNeedsIdentity wKind wName)
      else if policyOverride = '''' then Inl SidecarNeedsPolicy
      else if \<not> knows_policy cfg policyOverride then Inl (SidecarPolicyUnknown policyOverride)
      else Inr (default_listen (cfg\<lparr> cfg_Mode := \<lparr> md_Type = resolvedMode \<rparr>,
             cfg_Workloads := cfg_Workloads cfg @ [pod_workload ns wKind wName policyOverride] \<rparr>)))"

definition sidecar_builtin_config :: "environment \<Rightarrow> startup_error + Config" where
  "sidecar_builtin_config env =
     (let cfg = DefaultEnforcementSidecarConfig; ns = env ''KOSHI_POD_NAMESPACE'';
          wKind = env ''KOSHI_WORKLOAD_KIND''; wName = env ''KOSHI_WORKLOAD_NAME'';
          override = env ''KOSHI_POLICY_OVERRIDE'' in
      if ns = '''' \<or> wKind = '''' \<or> wName = '''' then Inl (EnforcementNeedsIdentity ns wKind wName)
      else if override \<noteq> '''' \<and> \<not> knows_policy cfg override then Inl (BuiltinPolicyUnknown override)
      else Inr (cfg\<lparr> cfg_Workloads := cfg_Workloads cfg @
             [pod_workload ns wKind wName (if override \<noteq> '''' then override else DefaultSidecarPolicyID)] \<rparr>))"

definition choose_config ::
  "environment \<Rightarrow> (string \<Rightarrow> string + string) \<Rightarrow> (string \<Rightarrow> string + Config) \<Rightarrow> startup_error + Config" where
  "choose_config env read_file unmarshal =
     (let configPath = env ''KOSHI_CONFIG_PATH''; koshiMode = env ''KOSHI_MODE'' in
      if configPath \<noteq> '''' \<and> env ''KOSHI_POD_NAMESPACE'' \<noteq> '''' then
        (case Parse read_file unmarshal configPath of
           Inl e \<Rightarrow> Inl (SidecarParseFailed e) | Inr cfg \<Rightarrow> sidecar_file_config env cfg)
      else if configPath \<noteq> '''' then
        (case Load read_file unmarshal configPath of Inl e \<Rightarrow> Inl (LoadFailed e) | Inr cfg \<Rightarrow> Inr cfg)
      else if koshiMode = ''enforcement'' then sidecar_builtin_config env
      else if koshiMode = '''' then Inr DefaultListenerConfig
      else Inl (UnsupportedMode koshiMode))"

section \<open>Wiring\<close>

definition budget_params :: "Policy \<Rightarrow> BudgetParams" where
  "budget_params pol = (let rt = RollingTokens (pol_Budgets pol) in
     \<lparr> bp_WindowSeconds = rb_WindowSeconds rt, bp_LimitTokens = rb_LimitTokens rt, bp_BurstTokens = rb_BurstTokens rt \<rparr>)"

text \<open>
  A start-up step returns an error value when the process exits and panics when it panics.
  \<open>clk k\<close> is the time at which the window of \<open>k\<close> is made.
\<close>

type_synonym 'a startup = "(startup_error + 'a) outcome"

definition register_policy :: "(string \<Rightarrow> gotime) \<Rightarrow> string \<Rightarrow> Policy \<Rightarrow> TrackerImpl \<Rightarrow> TrackerImpl outcome" where
  "register_policy clk k pol t =
     (case Register (clk k) k (budget_params pol) t of
        (Panics p, _) \<Rightarrow> Panics p | (Returns _, t) \<Rightarrow> Returns t)"

fun register_workloads :: "(string \<Rightarrow> gotime) \<Rightarrow> Engine \<Rightarrow> Workload list \<Rightarrow> TrackerImpl \<Rightarrow> TrackerImpl startup" where
  "register_workloads clk eng [] t = Returns (Inr t)"
| "register_workloads clk eng (w # ws) t =
     (case Lookup eng (no_identity\<lparr> wi_WorkloadID := wl_ID w \<rparr>) of
        None \<Rightarrow> Returns (Inl (NoResolvablePolicy (wl_ID w)))
      | Some pol \<Rightarrow>
          (case register_policy clk (wl_ID w) pol t of
             Panics p \<Rightarrow> Panics p | Returns t \<Rightarrow> register_workloads clk eng ws t))"

definition register_default :: "(string \<Rightarrow> gotime) \<Rightarrow> Config \<Rightarrow> TrackerImpl \<Rightarrow> TrackerImpl outcome" where
  "register_default clk cfg t =
     (case cfg_DefaultPolicy cfg of None \<Rightarrow> Returns t | Some pol \<Rightarrow> register_policy clk ''_default'' pol t)"

definition wire_listener ::
  "environment \<Rightarrow> (string \<Rightarrow> gotime) \<Rightarrow> Config \<Rightarrow> (Resolver \<times> Engine \<times> string \<times> TrackerImpl) startup" where
  "wire_listener env clk cfg =
     (let resolver = ByPod (NewPodResolver env); policyOverride = env ''KOSHI_POLICY_OVERRIDE'' in
      if policyOverride \<noteq> '''' then
        (case List.find (\<lambda>p. pol_ID p = policyOverride) (cfg_Policies cfg) of
           None \<Rightarrow> Returns (Inl (OverridePolicyUnknown policyOverride))
         | Some pol \<Rightarrow>
             let key = ''listener_policy/'' @ policyOverride in
             (case register_policy clk key pol NewTracker of
                Panics p \<Rightarrow> Panics p
              | Returns t \<Rightarrow> Returns (Inr (resolver, OverrideE (NewOverrideEngine pol), key, t))))
      else
        (case register_default clk cfg NewTracker of
           Panics p \<Rightarrow> Panics p
         | Returns t \<Rightarrow> Returns (Inr (resolver, MapE (fst (NewMapEngine cfg)), ''_default'', t))))"

definition choose_resolver :: "environment \<Rightarrow> Workload list \<Rightarrow> Resolver" where
  "choose_resolver env workloads =
     (case workloads of
        [] \<Rightarrow> ByHeader (NewHeaderResolver ''x-genops-workload-id'')
      | w # ws \<Rightarrow>
          if idn_Mode (wl_Identity w) = ''pod'' then ByPod (NewPodResolver env)
          else ByHeader (NewHeaderResolver (if idn_Key (wl_Identity w) \<noteq> '''' then idn_Key (wl_Identity w)
                 else ''x-genops-workload-id'')))"

definition wire_enforcement ::
  "environment \<Rightarrow> (string \<Rightarrow> gotime) \<Rightarrow> Config \<Rightarrow> (Resolver \<times> Engine \<times> string \<times> TrackerImpl) startup" where
  "wire_enforcement env clk cfg =
     (let eng = MapE (fst (NewMapEngine cfg)) in
      case register_workloads clk eng (cfg_Workloads cfg) NewTracker of
        Panics p \<Rightarrow> Panics p
      | Returns (Inl e) \<Rightarrow> Returns (Inl e)
      | Returns (Inr t) \<Rightarrow>
          (case register_default clk cfg t of
             Panics p \<Rightarrow> Panics p
           | Returns t \<Rightarrow> Returns (Inr (choose_resolver env (cfg_Workloads cfg), eng, '''', t))))"

text \<open>The state of a new handler with its tracker.\<close>

definition start_state :: "TrackerImpl \<Rightarrow> hstate" where
  "start_state t = \<lparr> st_degraded = False, st_tracker = t, st_emitter = NewLogEmitter, st_metrics = [],
     st_replies = [], st_sent = [] \<rparr>"

definition wire :: "environment \<Rightarrow> (string \<Rightarrow> gotime) \<Rightarrow> string \<Rightarrow> Config \<Rightarrow> (Handler \<times> hstate) startup" where
  "wire env clk version cfg =
     (case (if md_Type (cfg_Mode cfg) = ''listener'' then wire_listener env clk cfg else wire_enforcement env clk cfg) of
        Panics p \<Rightarrow> Panics p
      | Returns (Inl e) \<Rightarrow> Returns (Inl e)
      | Returns (Inr (resolver, eng, key, t)) \<Rightarrow>
          Returns (Inr
            (NewHandler \<lparr> hd_resolver = resolver, hd_policyEngine = eng, hd_upstreams = cfg_Upstreams cfg,
               hd_sseExtraction = SSEExtractionEnabled cfg,
               hd_responseHeaderTimeout = wrap64 (cfg_ResponseHeaderTimeout cfg * Second),
               hd_version = version, hd_genopsSpecVersion = SpecVersion, hd_mode = md_Type (cfg_Mode cfg),
               hd_listenerAccountingKey = key \<rparr>,
             start_state t)))"

text \<open>The version, unless the linker is given another one.\<close>

definition Version :: string where
  "Version = ''v1.0.0''"

text \<open>The start of the proxy role up to the point where the server begins to listen.\<close>

definition boot ::
  "environment \<Rightarrow> (string \<Rightarrow> string + string) \<Rightarrow> (string \<Rightarrow> string + Config) \<Rightarrow> (string \<Rightarrow> gotime) \<Rightarrow> string \<Rightarrow>
     (Handler \<times> hstate) startup" where
  "boot env read_file unmarshal clk version =
     (case choose_config env read_file unmarshal of
        Inl e \<Rightarrow> Returns (Inl e) | Inr cfg \<Rightarrow> wire env clk version cfg)"

section \<open>Serving\<close>

definition IsDegraded :: "hstate \<Rightarrow> bool" where
  "IsDegraded s = st_degraded s"

definition healthz :: "hstate \<Rightarrow> int \<times> string" where
  "healthz s = (if IsDegraded s then (503, ''degraded'') else (200, ''ok''))"

definition readyz :: "hstate \<Rightarrow> int \<times> string" where
  "readyz s = (if IsDegraded s then (503, ''degraded'') else (200, ''ready''))"

definition resolveListenAddr :: "string \<Rightarrow> string \<Rightarrow> string" where
  "resolveListenAddr cfgAddr envOverride =
     (if envOverride \<noteq> '''' then envOverride else if cfgAddr \<noteq> '''' then cfgAddr else '':8080'')"

section \<open>What is registered\<close>

definition budget_fits :: "Policy \<Rightarrow> bool" where
  "budget_fits p \<longleftrightarrow> bp_WindowSeconds (budget_params p) \<le> max_buckets \<and>
     in64 (bp_LimitTokens (budget_params p) + bp_BurstTokens (budget_params p))"

lemma params_ok_policy: "policy_valid p \<Longrightarrow> budget_fits p \<Longrightarrow> params_ok (budget_params p)"
  by (simp add: policy_valid_def params_ok_def budget_params_def budget_fits_def Let_def)

lemma register_policy_ok:
  "params_ok (budget_params pol) \<Longrightarrow> register_policy clk k pol t = Returns
     (if windows t k = None then t\<lparr> windows := (windows t)(k \<mapsto> fresh_state (clk k) (budget_params pol)) \<rparr> else t)"
  by (simp add: register_policy_def Register_ok)

lemma register_policy_sound:
  "params_ok (budget_params pol) \<Longrightarrow> tracker_ok t \<Longrightarrow> \<exists>t'. register_policy clk k pol t = Returns t' \<and> tracker_ok t'"
  by (simp add: register_policy_ok tracker_ok_def workload_ok_fresh)

text \<open>The tracker after the loop over the workloads: one new window for each of them.\<close>

lemma register_workloads_ok:
  assumes "\<forall>w \<in> set ws. \<exists>p. Lookup eng (no_identity\<lparr> wi_WorkloadID := wl_ID w \<rparr>) = Some p \<and> params_ok (budget_params p)"
    and "tracker_ok t"
  shows "\<exists>t'. register_workloads clk eng ws t = Returns (Inr t') \<and> tracker_ok t' \<and>
     (\<forall>k. windows t' k = (case windows t k of Some x \<Rightarrow> Some x | None \<Rightarrow>
        if k \<in> wl_ID ` set ws
        then Some (fresh_state (clk k) (budget_params (the (Lookup eng (no_identity\<lparr> wi_WorkloadID := k \<rparr>)))))
        else None))"
  using assms
proof (induction ws arbitrary: t)
  case (Cons w ws)
  obtain p where p: "Lookup eng (no_identity\<lparr> wi_WorkloadID := wl_ID w \<rparr>) = Some p" "params_ok (budget_params p)"
    using Cons.prems(1) by auto
  define t1 where "t1 = (if windows t (wl_ID w) = None
      then t\<lparr> windows := (windows t)(wl_ID w \<mapsto> fresh_state (clk (wl_ID w)) (budget_params p)) \<rparr> else t)"
  have reg: "register_policy clk (wl_ID w) p t = Returns t1" by (simp add: register_policy_ok [OF p(2)] t1_def)
  have "tracker_ok t1" using register_policy_sound [OF p(2) Cons.prems(2), of clk "wl_ID w"] reg by simp
  then obtain t' where t': "register_workloads clk eng ws t1 = Returns (Inr t')" "tracker_ok t'"
      "\<forall>k. windows t' k = (case windows t1 k of Some x \<Rightarrow> Some x | None \<Rightarrow>
        if k \<in> wl_ID ` set ws
        then Some (fresh_state (clk k) (budget_params (the (Lookup eng (no_identity\<lparr> wi_WorkloadID := k \<rparr>)))))
        else None)"
    using Cons.IH [of t1] Cons.prems(1) by auto
  moreover have "register_workloads clk eng (w # ws) t = Returns (Inr t')" by (simp add: p(1) reg t'(1))
  ultimately show ?case
    by (auto simp: t1_def p(1) split: option.split if_splits)
qed (simp split: option.split)

lemma register_default_ok:
  assumes "pred_option (\<lambda>p. params_ok (budget_params p)) (cfg_DefaultPolicy cfg)" "tracker_ok t"
  shows "\<exists>t'. register_default clk cfg t = Returns t' \<and> tracker_ok t' \<and>
     windows t' = (case cfg_DefaultPolicy cfg of None \<Rightarrow> windows t
       | Some p \<Rightarrow> if windows t ''_default'' = None
           then (windows t)(''_default'' \<mapsto> fresh_state (clk ''_default'') (budget_params p)) else windows t)"
proof (cases "cfg_DefaultPolicy cfg")
  case (Some p)
  then have p: "params_ok (budget_params p)" using assms(1) by simp
  show ?thesis
    using register_policy_sound [OF p assms(2), of clk "''_default''"]
    by (auto simp: register_default_def Some register_policy_ok [OF p])
qed (simp add: register_default_def assms(2))

lemma NewHandler_simps [simp]:
  "hd_resolver (NewHandler cfg) = hd_resolver cfg" "hd_policyEngine (NewHandler cfg) = hd_policyEngine cfg"
  "hd_listenerAccountingKey (NewHandler cfg) = hd_listenerAccountingKey cfg"
  "isListenerMode (NewHandler cfg) = isListenerMode cfg"
  by (auto simp: NewHandler_def isListenerMode_def)

lemma Lookup_id_only:
  "wi_WorkloadID i = wi_WorkloadID j \<Longrightarrow> Lookup (MapE e) i = Lookup (MapE e) j"
  by (simp add: Lookup_def MapEngine_Lookup_def)

lemma start_state_simps [simp]:
  "st_tracker (start_state t) = t" "\<not> st_degraded (start_state t)" "\<not> IsDegraded (start_state t)"
  "\<not> le_closed (st_emitter (start_state t))" "st_sent (start_state t) = []" "st_replies (start_state t) = []"
  by (simp_all add: start_state_def IsDegraded_def NewLogEmitter_def)

lemma boot_wired:
  assumes "choose_config env read_file unmarshal = Inr c"
    and "(if md_Type (cfg_Mode c) = ''listener'' then wire_listener env clk c else wire_enforcement env clk c) =
       Returns (Inr (res, eng, key, t))"
  shows "\<exists>h. boot env read_file unmarshal clk version = Returns (Inr (h, start_state t)) \<and>
     isListenerMode h = (md_Type (cfg_Mode c) = ''listener'') \<and> hd_resolver h = res \<and> hd_policyEngine h = eng \<and>
     hd_listenerAccountingKey h = key"
  using assms by (simp add: boot_def wire_def) (simp add: isListenerMode_def)

text \<open>Everything about a start in enforcement mode on a valid configuration.\<close>

text \<open>What the tracker holds after the workloads and the default policy are registered.\<close>

lemma registered_windows:
  assumes "\<forall>k. windows t k = (if k \<in> ids then Some (st k) else None)"
    and "windows t' = (case d of None \<Rightarrow> windows t
       | Some p \<Rightarrow> if windows t ''_default'' = None then (windows t)(''_default'' \<mapsto> f p) else windows t)"
  shows "k \<in> ids \<Longrightarrow> windows t' k = Some (st k)"
    "dom (windows t') = ids \<union> (if d = None then {} else {''_default''})"
proof -
  have t: "windows t k = (if k \<in> ids then Some (st k) else None)" for k using assms(1) by blast
  then have d: "dom (windows t) = ids" by (auto simp: dom_def)
  show "windows t' k = Some (st k)" if "k \<in> ids"
    using assms(2) t [of k] that by (cases d) (auto split: if_splits)
  show "dom (windows t') = ids \<union> (if d = None then {} else {''_default''})"
    using d assms(2) by (cases d) (auto split: if_splits)
qed

lemma wire_enforcement_ok:
  assumes "config_valid c" "\<forall>p \<in> set (cfg_Policies c) \<union> set_option (cfg_DefaultPolicy c). budget_fits p"
  shows "\<exists>t. wire_enforcement env clk c = Returns (Inr
      (choose_resolver env (cfg_Workloads c), MapE (fst (NewMapEngine c)), '''', t)) \<and> tracker_ok t \<and>
     (\<forall>w \<in> set (cfg_Workloads c). \<exists>p. Lookup (MapE (fst (NewMapEngine c))) (no_identity\<lparr> wi_WorkloadID := wl_ID w \<rparr>) = Some p \<and>
        pol_ID p = hd (wl_PolicyRefs w) \<and> windows t (wl_ID w) = Some (fresh_state (clk (wl_ID w)) (budget_params p))) \<and>
     dom (windows t) = wl_ID ` set (cfg_Workloads c) \<union> (if cfg_DefaultPolicy c = None then {} else {''_default''})"
proof -
  let ?eng = "MapE (fst (NewMapEngine c))" and ?ws = "cfg_Workloads c"
  have look: "\<exists>p. Lookup ?eng (no_identity\<lparr> wi_WorkloadID := wl_ID w \<rparr>) = Some p \<and> params_ok (budget_params p) \<and>
      pol_ID p = hd (wl_PolicyRefs w)" if "w \<in> set ?ws" for w
    using lookup_configured [OF assms(1) that, of "no_identity\<lparr> wi_WorkloadID := wl_ID w \<rparr>"] assms(2)
    by (auto intro: params_ok_policy)
  then have pre: "\<forall>w \<in> set ?ws. \<exists>p. Lookup ?eng (no_identity\<lparr> wi_WorkloadID := wl_ID w \<rparr>) = Some p \<and> params_ok (budget_params p)"
    by blast
  have new: "windows NewTracker k = None" for k by (simp add: NewTracker_def)
  obtain t where t: "register_workloads clk ?eng ?ws NewTracker = Returns (Inr t)" "tracker_ok t"
      "\<forall>k. windows t k = (if k \<in> wl_ID ` set ?ws
        then Some (fresh_state (clk k) (budget_params (the (Lookup ?eng (no_identity\<lparr> wi_WorkloadID := k \<rparr>)))))
        else None)"
    using register_workloads_ok [OF pre tracker_ok_new, of clk] by (simp only: new option.case) blast
  have "pred_option (\<lambda>p. params_ok (budget_params p)) (cfg_DefaultPolicy c)"
    using assms(2) config_validD(6) [OF assms(1)] by (cases "cfg_DefaultPolicy c") (auto intro: params_ok_policy)
  from register_default_ok [OF this t(2), of clk] obtain t' where t': "register_default clk c t = Returns t'" "tracker_ok t'"
      "windows t' = (case cfg_DefaultPolicy c of None \<Rightarrow> windows t
       | Some p \<Rightarrow> if windows t ''_default'' = None
           then (windows t)(''_default'' \<mapsto> fresh_state (clk ''_default'') (budget_params p)) else windows t)"
    by blast
  note reg = registered_windows [OF t(3) t'(3)]
  have w: "windows t' (wl_ID w) = Some (fresh_state (clk (wl_ID w)) (budget_params p))"
    if "w \<in> set ?ws" "Lookup ?eng (no_identity\<lparr> wi_WorkloadID := wl_ID w \<rparr>) = Some p" for w p
    using reg(1) [of "wl_ID w"] that by simp
  note reg(2)
  moreover have "wire_enforcement env clk c = Returns (Inr (choose_resolver env ?ws, ?eng, '''', t'))"
    by (simp add: wire_enforcement_def t(1) t'(1) Let_def)
  moreover have "\<exists>p. Lookup ?eng (no_identity\<lparr> wi_WorkloadID := wl_ID w \<rparr>) = Some p \<and>
        pol_ID p = hd (wl_PolicyRefs w) \<and> windows t' (wl_ID w) = Some (fresh_state (clk (wl_ID w)) (budget_params p))"
    if "w \<in> set ?ws" for w
    using look [OF that] w [OF that] by blast
  ultimately show ?thesis using t'(2) by simp
qed

section \<open>Properties\<close>

text \<open>
  C12. A validated configuration starts, and every workload in it is enforceable. In enforcement
  mode, on a configuration that validation accepts, whose limits plus burst allowances fit into
  64 bits and whose windows have at most 2^45 seconds (\<open>budget_fits\<close>; validation checks neither,
  see \<open>huge_window_panics\<close>): start-up neither exits nor panics, the handler is not degraded, the tracker is
  sound, and every configured workload has a policy, the one its first reference names, and a
  fresh window with exactly the budget of that policy. The registered accounts are the
  configured workloads and, with a default policy, \<open>_default\<close>, and no others.
\<close>

theorem startup_registers_every_workload:
  assumes "config_valid c" "md_Type (cfg_Mode c) \<noteq> ''listener''"
    and "\<forall>p \<in> set (cfg_Policies c) \<union> set_option (cfg_DefaultPolicy c). budget_fits p"
  shows "\<exists>h s. wire env clk version c = Returns (Inr (h, s)) \<and> tracker_ok (st_tracker s) \<and> \<not> IsDegraded s \<and>
     (\<forall>w \<in> set (cfg_Workloads c). \<forall>ident. wi_WorkloadID ident = wl_ID w \<longrightarrow>
       (\<exists>p. Lookup (hd_policyEngine h) ident = Some p \<and> pol_ID p = hd (wl_PolicyRefs w) \<and>
         windows (st_tracker s) (accountingKey h (wl_ID w)) = Some (fresh_state (clk (wl_ID w)) (budget_params p)))) \<and>
     dom (windows (st_tracker s)) = wl_ID ` set (cfg_Workloads c) \<union>
       (if cfg_DefaultPolicy c = None then {} else {''_default''})"
proof -
  let ?eng = "MapE (fst (NewMapEngine c))"
  obtain t where t: "wire_enforcement env clk c = Returns (Inr (choose_resolver env (cfg_Workloads c), ?eng, '''', t))"
      "tracker_ok t"
      "\<forall>w \<in> set (cfg_Workloads c). \<exists>p. Lookup ?eng (no_identity\<lparr> wi_WorkloadID := wl_ID w \<rparr>) = Some p \<and>
        pol_ID p = hd (wl_PolicyRefs w) \<and> windows t (wl_ID w) = Some (fresh_state (clk (wl_ID w)) (budget_params p))"
      "dom (windows t) = wl_ID ` set (cfg_Workloads c) \<union> (if cfg_DefaultPolicy c = None then {} else {''_default''})"
    using wire_enforcement_ok [OF assms(1,3)] by blast
  have look: "Lookup ?eng ident = Lookup ?eng (no_identity\<lparr> wi_WorkloadID := wi_WorkloadID ident \<rparr>)" for ident
    by (rule Lookup_id_only) simp
  have "\<exists>p. Lookup ?eng ident = Some p \<and> pol_ID p = hd (wl_PolicyRefs w) \<and>
      windows t (wl_ID w) = Some (fresh_state (clk (wl_ID w)) (budget_params p))"
    if "w \<in> set (cfg_Workloads c)" "wi_WorkloadID ident = wl_ID w" for w ident
    using t(3) that(1) look [of ident] that(2) by simp
  then show ?thesis
    using t(1,2,4) assms(2) by (simp add: wire_def accountingKey_def isListenerMode_def)
qed

theorem startup_registers_every_workload_witness:
  "\<exists>h s. wire (\<lambda>_. '''') (\<lambda>_. 0) Version demo_config = Returns (Inr (h, s)) \<and>
     dom (windows (st_tracker s)) = {''svc'', ''_default''}"
proof -
  have "md_Type (cfg_Mode demo_config) \<noteq> ''listener''"
    "list_all budget_fits (cfg_Policies demo_config)" "pred_option budget_fits (cfg_DefaultPolicy demo_config)"
    by (simp_all add: demo_config_def DefaultEnforcementSidecarConfig_def SidecarPolicyCatalog_def mk_policy_def
        budget_fits_def budget_params_def in64_def max_buckets_def)
  then have "\<forall>p \<in> set (cfg_Policies demo_config) \<union> set_option (cfg_DefaultPolicy demo_config). budget_fits p"
    by (auto simp: list_all_iff pred_option_def)
  from startup_registers_every_workload [OF demo_config_valid \<open>md_Type (cfg_Mode demo_config) \<noteq> ''listener''\<close> this,
      of "\<lambda>_. ''''" "\<lambda>_. 0" Version]
  show ?thesis by (auto simp: demo_config_def demo_workload_def)
qed

text \<open>
  Validation puts no upper bound on the length of a window: with a window of 10^15 seconds a
  configuration is valid, and registering its default account panics at start-up.
\<close>

definition huge_config :: Config where
  "huge_config = demo_config\<lparr>
     cfg_DefaultPolicy := Some (mk_policy ''fallback'' 1000000000000000 5000 0 0 ''throttle'' '''') \<rparr>"

lemma huge_window_panics:
  "config_valid huge_config" "wire (\<lambda>_. '''') (\<lambda>_. 0) Version huge_config = Panics MakeSliceLenOutOfRange"
proof -
  show "config_valid huge_config" by (simp add: Validate_iff [symmetric]) code_simp
  have "case wire (\<lambda>_. '''') (\<lambda>_. 0) Version huge_config of
      Panics p \<Rightarrow> p = MakeSliceLenOutOfRange | Returns x \<Rightarrow> False" by code_simp
  then show "wire (\<lambda>_. '''') (\<lambda>_. 0) Version huge_config = Panics MakeSliceLenOutOfRange"
    by (simp split: outcome.splits)
qed

lemma catalog_facts:
  "policies_valid SidecarPolicyCatalog" "\<forall>p \<in> set SidecarPolicyCatalog. budget_fits p"
  "upstreams_valid default_upstreams" "DefaultSidecarPolicyID \<in> pol_ID ` set SidecarPolicyCatalog"
  by (simp_all add: SidecarPolicyCatalog_def mk_policy_def policies_valid_def policy_valid_def budget_fits_def
      budget_params_def in64_def max_buckets_def default_upstreams_def upstreams_valid_def DefaultSidecarPolicyID_def)

lemma knows_policy_iff: "knows_policy c i \<longleftrightarrow> i \<in> pol_ID ` set (cfg_Policies c)"
  by (auto simp: knows_policy_def list_ex_iff)

lemma builtin_sidecar_valid:
  assumes "pid \<in> pol_ID ` set SidecarPolicyCatalog"
  shows "config_valid (DefaultEnforcementSidecarConfig\<lparr> cfg_Workloads := [pod_workload ns k n pid] \<rparr>)"
  using assms catalog_facts(1,3)
  by (simp add: config_valid_def DefaultEnforcementSidecarConfig_def workloads_valid_def workload_valid_def
      pod_workload_def by_header_def)

text \<open>The identity that the pod resolver reads from clean environment variables.\<close>

lemma pod_resolves:
  assumes "trim_space (env ''KOSHI_POD_NAMESPACE'') = ns" "trim_space (env ''KOSHI_WORKLOAD_KIND'') = k"
    and "trim_space (env ''KOSHI_WORKLOAD_NAME'') = n" "ns \<noteq> ''''" "k \<noteq> ''''" "n \<noteq> ''''"
  shows "Resolve (ByPod (NewPodResolver env)) r = Inr \<lparr> wi_WorkloadID = ns @ ''/'' @ k @ ''/'' @ n,
     wi_Namespace = ns, wi_WorkloadKind = k, wi_WorkloadName = n \<rparr>"
  using assms by (simp add: Resolve_def PodResolver_Resolve_def NewPodResolver_def workload_path_def Let_def)

text \<open>
  An enforcement sidecar enforces its pod's policy on every request. With the built-in
  configuration, environment variables that carry the pod's namespace, kind and name without
  surrounding white space, and a policy override that is empty or names a built-in policy: the
  process starts, and whatever request arrives, the resolver identifies it as the workload that
  start-up made up from the same variables, the engine gives it the selected policy (or
  \<open>sidecar-baseline\<close>), and its account is registered with exactly that policy's budget.
\<close>

lemma sidecar_enforces_pod_policy:
  fixes env :: environment
  defines "ns \<equiv> env ''KOSHI_POD_NAMESPACE''" and "k \<equiv> env ''KOSHI_WORKLOAD_KIND''"
    and "n \<equiv> env ''KOSHI_WORKLOAD_NAME''" and "override \<equiv> env ''KOSHI_POLICY_OVERRIDE''"
  assumes "env ''KOSHI_CONFIG_PATH'' = ''''" "env ''KOSHI_MODE'' = ''enforcement''"
    and "ns \<noteq> ''''" "k \<noteq> ''''" "n \<noteq> ''''" "trim_space ns = ns" "trim_space k = k" "trim_space n = n"
    and "override = '''' \<or> knows_policy DefaultEnforcementSidecarConfig override"
  shows "\<exists>h s. boot env read_file unmarshal clk version = Returns (Inr (h, s)) \<and>
     tracker_ok (st_tracker s) \<and> \<not> IsDegraded s \<and> \<not> isListenerMode h \<and>
     (\<forall>r. \<exists>ident p. Resolve (hd_resolver h) r = Inr ident \<and> wi_WorkloadID ident = ns @ ''/'' @ k @ ''/'' @ n \<and>
       Lookup (hd_policyEngine h) ident = Some p \<and> pol_ID p = (if override \<noteq> '''' then override else ''sidecar-baseline'') \<and>
       windows (st_tracker s) (accountingKey h (wi_WorkloadID ident)) =
         Some (fresh_state (clk (wi_WorkloadID ident)) (budget_params p)))"
proof -
  let ?pid = "if override \<noteq> '''' then override else DefaultSidecarPolicyID"
  let ?c = "DefaultEnforcementSidecarConfig\<lparr> cfg_Workloads := [pod_workload ns k n ?pid] \<rparr>"
  let ?eng = "MapE (fst (NewMapEngine ?c))" and ?id = "ns @ ''/'' @ k @ ''/'' @ n"
  have pols: "cfg_Policies ?c = SidecarPolicyCatalog" "cfg_DefaultPolicy ?c = None"
    "md_Type (cfg_Mode ?c) = ''enforcement''" "cfg_Workloads ?c = [pod_workload ns k n ?pid]"
    "cfg_Policies DefaultEnforcementSidecarConfig = SidecarPolicyCatalog" "cfg_Workloads DefaultEnforcementSidecarConfig = []"
    by (simp_all add: DefaultEnforcementSidecarConfig_def)
  have "?pid \<in> pol_ID ` set SidecarPolicyCatalog"
    using assms(13) catalog_facts(4) by (auto simp: knows_policy_iff pols(5))
  then have valid: "config_valid ?c" by (rule builtin_sidecar_valid)
  have fits: "\<forall>p \<in> set (cfg_Policies ?c) \<union> set_option (cfg_DefaultPolicy ?c). budget_fits p"
    using catalog_facts(2) by (simp add: pols(1,2))
  obtain t where t: "wire_enforcement env clk ?c = Returns (Inr (choose_resolver env (cfg_Workloads ?c), ?eng, '''', t))"
      "tracker_ok t"
      "\<forall>w \<in> set (cfg_Workloads ?c). \<exists>p. Lookup ?eng (no_identity\<lparr> wi_WorkloadID := wl_ID w \<rparr>) = Some p \<and>
        pol_ID p = hd (wl_PolicyRefs w) \<and> windows t (wl_ID w) = Some (fresh_state (clk (wl_ID w)) (budget_params p))"
    using wire_enforcement_ok [OF valid fits, of env clk] by blast
  have w: "wl_ID (pod_workload ns k n ?pid) = ?id" "hd (wl_PolicyRefs (pod_workload ns k n ?pid)) = ?pid"
    "idn_Mode (wl_Identity (pod_workload ns k n ?pid)) = ''pod''"
    by (simp_all add: pod_workload_def)
  then obtain p where p: "Lookup ?eng (no_identity\<lparr> wi_WorkloadID := ?id \<rparr>) = Some p" "pol_ID p = ?pid"
      "windows t ?id = Some (fresh_state (clk ?id) (budget_params p))"
    using t(3) by (auto simp: pols(4))
  let ?i = "\<lparr> wi_WorkloadID = ?id, wi_Namespace = ns, wi_WorkloadKind = k, wi_WorkloadName = n \<rparr>"
  have res: "Resolve (ByPod (NewPodResolver env)) r = Inr ?i" for r
    by (rule pod_resolves) (use assms(7-12) in \<open>simp_all add: ns_def k_def n_def\<close>)
  have look: "Lookup ?eng ?i = Some p" using p(1) by (subst Lookup_id_only [of _ "no_identity\<lparr> wi_WorkloadID := ?id \<rparr>"]) simp_all
  have "choose_config env read_file unmarshal = Inr ?c"
    using assms(5-9,13)
    by (auto simp: choose_config_def sidecar_builtin_config_def Let_def pols(6) ns_def k_def n_def override_def)
  moreover have "choose_resolver env (cfg_Workloads ?c) = ByPod (NewPodResolver env)"
    unfolding pols(4) using w(3) by (simp add: choose_resolver_def)
  moreover have "md_Type (cfg_Mode ?c) \<noteq> ''listener''" unfolding pols(3) by simp
  ultimately obtain h where h: "boot env read_file unmarshal clk version = Returns (Inr (h, start_state t))"
      "\<not> isListenerMode h" "hd_resolver h = ByPod (NewPodResolver env)" "hd_policyEngine h = ?eng"
    using boot_wired [of env read_file unmarshal ?c clk _ ?eng "''''" t version] t(1) by auto
  have "pol_ID p = (if override \<noteq> '''' then override else ''sidecar-baseline'')"
    using p(2) by (simp add: DefaultSidecarPolicyID_def)
  then show ?thesis
    using h t(2) res look p(3) by (simp add: accountingKey_def)
qed

lemma DefaultListenerConfig_policies:
  "md_Type (cfg_Mode DefaultListenerConfig) = ''listener''" "cfg_Policies DefaultListenerConfig = SidecarPolicyCatalog"
  by (simp_all add: DefaultListenerConfig_def)

text \<open>The wiring of a sidecar in listener mode on the built-in configuration.\<close>

lemma wire_listener_default:
  fixes env :: environment
  defines "override \<equiv> env ''KOSHI_POLICY_OVERRIDE''"
  assumes "override = '''' \<or> knows_policy DefaultListenerConfig override"
  obtains eng key t p where "wire_listener env clk DefaultListenerConfig = Returns (Inr (ByPod (NewPodResolver env), eng, key, t))"
    "key \<noteq> ''''" "tracker_ok t" "\<And>ident. Lookup eng ident = Some p" "policy_valid p"
    "pol_ID p = (if override \<noteq> '''' then override else ''_listener_default'')"
    "windows t key = Some (fresh_state (clk key) (budget_params p))"
proof (cases "override = ''''")
  case True
  let ?p = "mk_policy ''_listener_default'' 3600 1000000 0 32768 ''throttle'' ''''"
  have p: "cfg_DefaultPolicy DefaultListenerConfig = Some ?p" "policy_valid ?p" "budget_fits ?p" "pol_ID ?p = ''_listener_default''"
    by (simp_all add: DefaultListenerConfig_def policy_valid_def mk_policy_def budget_fits_def budget_params_def in64_def max_buckets_def)
  have look: "Lookup (MapE (fst (NewMapEngine DefaultListenerConfig))) ident = Some ?p" for ident
    using p(1) by (simp add: Lookup_def MapEngine_Lookup_def NewMapEngine_def DefaultListenerConfig_def)
  obtain t where t: "register_default clk DefaultListenerConfig NewTracker = Returns t" "tracker_ok t"
      "windows t = (windows NewTracker)(''_default'' \<mapsto> fresh_state (clk ''_default'') (budget_params ?p))"
    using register_default_ok [OF _ tracker_ok_new, of DefaultListenerConfig clk] p params_ok_policy [OF p(2,3)] by (auto simp: NewTracker_def)
  show ?thesis
    by (rule that [of "MapE (fst (NewMapEngine DefaultListenerConfig))" "''_default''" t ?p])
      (use True t look p in \<open>simp_all add: wire_listener_def override_def\<close>)
next
  case False
  then have "override \<in> pol_ID ` set SidecarPolicyCatalog"
    using assms(2) by (simp add: knows_policy_iff DefaultListenerConfig_policies)
  then obtain q where "q \<in> set SidecarPolicyCatalog" "pol_ID q = override" by auto
  then obtain p where p: "List.find (\<lambda>p. pol_ID p = override) SidecarPolicyCatalog = Some p" "pol_ID p = override"
      "p \<in> set SidecarPolicyCatalog" using find_key_Some [of q SidecarPolicyCatalog pol_ID] by metis
  have ok: "policy_valid p" "budget_fits p" using p(3) catalog_facts(1,2) by (auto simp: policies_valid_def)
  let ?key = "''listener_policy/'' @ override"
  obtain t where t: "register_policy clk ?key p NewTracker = Returns t" "tracker_ok t"
      "windows t ?key = Some (fresh_state (clk ?key) (budget_params p))"
    using register_policy_ok [OF params_ok_policy [OF ok], of clk ?key NewTracker]
      register_policy_sound [OF params_ok_policy [OF ok] tracker_ok_new, of clk ?key]
    by (auto simp: NewTracker_def)
  have look: "Lookup (OverrideE (NewOverrideEngine p)) ident = Some p" for ident
    by (simp add: Lookup_def OverrideEngine_Lookup_def NewOverrideEngine_def)
  show ?thesis
    by (rule that [of "OverrideE (NewOverrideEngine p)" ?key t p])
      (use False t look p ok in \<open>simp_all add: wire_listener_def override_def DefaultListenerConfig_policies\<close>)
qed

text \<open>
  C31. A listener sidecar accounts for every request. With no configuration file and no mode set,
  and a policy override that is empty or names a built-in policy: the process starts in listener
  mode, and whatever identity a request has, the engine finds a valid policy for it and the
  account its tokens are charged to is registered with that policy's budget.
\<close>

theorem listener_accounts_every_request:
  fixes env :: environment
  defines "override \<equiv> env ''KOSHI_POLICY_OVERRIDE''"
  assumes "env ''KOSHI_CONFIG_PATH'' = ''''" "env ''KOSHI_MODE'' = ''''"
    and "override = '''' \<or> knows_policy DefaultListenerConfig override"
  shows "\<exists>h s. boot env read_file unmarshal clk version = Returns (Inr (h, s)) \<and>
     tracker_ok (st_tracker s) \<and> \<not> IsDegraded s \<and> isListenerMode h \<and>
     (\<forall>ident. \<exists>p. Lookup (hd_policyEngine h) ident = Some p \<and> policy_valid p \<and>
       pol_ID p = (if override \<noteq> '''' then override else ''_listener_default'') \<and>
       windows (st_tracker s) (accountingKey h (wi_WorkloadID ident)) =
         Some (fresh_state (clk (accountingKey h (wi_WorkloadID ident))) (budget_params p)))"
proof -
  let ?c = DefaultListenerConfig
  have c: "choose_config env read_file unmarshal = Inr ?c" using assms(2,3) by (simp add: choose_config_def)
  note mode = DefaultListenerConfig_policies
  obtain eng key t p where w: "wire_listener env clk ?c = Returns (Inr (ByPod (NewPodResolver env), eng, key, t))"
      "key \<noteq> ''''" "tracker_ok t" "\<And>ident. Lookup eng ident = Some p" "policy_valid p"
      "pol_ID p = (if override \<noteq> '''' then override else ''_listener_default'')"
      "windows t key = Some (fresh_state (clk key) (budget_params p))"
    using assms(4) by (rule wire_listener_default [of env clk, folded override_def]) (rule that)
  have "(if md_Type (cfg_Mode ?c) = ''listener'' then wire_listener env clk ?c else wire_enforcement env clk ?c) =
      Returns (Inr (ByPod (NewPodResolver env), eng, key, t))"
    using mode(1) w(1) by simp
  from boot_wired [OF c this, of version] obtain h where "boot env read_file unmarshal clk version = Returns (Inr (h, start_state t))"
      "isListenerMode h" "hd_policyEngine h = eng" "hd_listenerAccountingKey h = key"
    using mode(1) by blast
  then show ?thesis using w(2-7) by (simp add: accountingKey_def)
qed

theorem listener_accounts_every_request_witness:
  "\<exists>h s. boot (\<lambda>_. '''') (\<lambda>_. Inl ''none'') (\<lambda>_. Inl ''none'') (\<lambda>_. 0) Version = Returns (Inr (h, s)) \<and>
     isListenerMode h \<and> windows (st_tracker s) (accountingKey h ''anyone'') \<noteq> None"
  using listener_accounts_every_request [of "\<lambda>_. ''''" "\<lambda>_. Inl ''none''" "\<lambda>_. Inl ''none''" "\<lambda>_. 0" Version]
  by (metis (no_types, lifting) WorkloadIdentity.select_convs(1) option.discI)

end
