(* ===== verification/Inject.thy ===== *)
theory Inject
  imports Json "HOL-Library.AList"
begin

text \<open>
  \<^verbatim>\<open>internal/inject\<close>: the admission webhook that adds the sidecar to pods, as a list of JSON
  Patch operations, and the normalisation of a pod's owner to a workload.

  The Kubernetes types are records of the fields the webhook reads or writes; decoding an
  admission review and a pod and encoding the patches (library code) are arguments. A field that
  may be missing in the document (\<^verbatim>\<open>volumes\<close>, \<^verbatim>\<open>env\<close>, \<^verbatim>\<open>annotations\<close>) is an option, because
  a patch can only append to what is there. Go iterates its maps in any order: the order is an
  argument. To state what the patches do, RFC 6902 and RFC 6901 (what the API server does with
  them) are given as \<open>apply_op\<close> and \<open>pointer_tokens\<close>.
\<close>

section \<open>Data\<close>

record OwnerReference =
  or_Kind :: string
  or_Name :: string

record EnvVar =
  ev_Name :: string
  ev_Value :: string

record VolumeMount =
  vm_Name :: string
  vm_MountPath :: string
  vm_ReadOnly :: bool

record Container =
  ct_Name :: string
  ct_Image :: string
  ct_ImagePullPolicy :: string
  ct_Resources :: string
  ct_Ports :: "int list"
  ct_Env :: "EnvVar list option"
  ct_VolumeMounts :: "VolumeMount list"

record Volume =
  vol_Name :: string
  vol_ConfigMap :: string

record Pod =
  pod_Name :: string
  pod_GenerateName :: string
  pod_Labels :: "string \<rightharpoonup> string"
  pod_Annotations :: "(string \<rightharpoonup> string) option"
  pod_OwnerReferences :: "OwnerReference list"
  pod_Containers :: "Container list"
  pod_Volumes :: "Volume list option"

record WebhookConfig =
  wc_SidecarImage :: string
  wc_SidecarPullPolicy :: string
  wc_SidecarPort :: int
  wc_SidecarResources :: string
  wc_ConfigPath :: string
  wc_ScrapeAnnotations :: "(string \<times> string) list" \<comment> \<open>in the order the map is iterated\<close>

datatype patch_value =
    VVolumes "Volume list"
  | VVolume Volume
  | VContainer Container
  | VEnvs "EnvVar list"
  | VEnv EnvVar
  | VAnnotations
  | VString string

record JSONPatchOp =
  jp_Op :: string
  jp_Path :: string
  jp_Value :: patch_value

section \<open>Workload identity of a pod\<close>

definition NormalizeOwner :: "OwnerReference list \<Rightarrow> (string \<rightharpoonup> string) \<Rightarrow> string \<Rightarrow> string \<times> string" where
  "NormalizeOwner ownerRefs labels podName =
     (case ownerRefs of
        [] \<Rightarrow> (''Pod'', podName)
      | owner # _ \<Rightarrow>
          if or_Kind owner \<in> {''StatefulSet'', ''DaemonSet'', ''Job'', ''CronJob''} then (or_Kind owner, or_Name owner)
          else if or_Kind owner = ''ReplicaSet'' then
            (case labels ''pod-template-hash'' of
               None \<Rightarrow> (''ReplicaSet'', or_Name owner)
             | Some hash \<Rightarrow>
                 if hash \<noteq> '''' \<and> has_suffix (or_Name owner) (''-'' @ hash)
                 then (''Deployment'', trim_suffix (or_Name owner) (''-'' @ hash))
                 else (''ReplicaSet'', or_Name owner))
          else (or_Kind owner, or_Name owner))"

section \<open>Building the patches\<close>

definition hasEnvVar :: "EnvVar list \<Rightarrow> string \<Rightarrow> bool" where
  "hasEnvVar envs name \<longleftrightarrow> list_ex (\<lambda>e. ev_Name e = name) envs"

text \<open>The runes of a string as \<open>range\<close> yields them, each as its bytes; a byte that is not UTF-8 is U+FFFD.\<close>

function runes :: "string \<Rightarrow> string list" where
  "runes s = (if s = [] then []
     else if utf8_len s = 0 then encode_rune 0xFFFD # runes (tl s)
     else take (utf8_len s) s # runes (drop (utf8_len s) s))"
  by pat_completeness auto
termination
  by (relation "measure length") auto

declare runes.simps [simp del]

definition escape_rune :: "string \<Rightarrow> string" where
  "escape_rune c = (if c = ''~'' then ''~0'' else if c = ''/'' then ''~1'' else c)"

definition escapeJSONPointer :: "string \<Rightarrow> string" where
  "escapeJSONPointer s = concat (map escape_rune (runes s))"

definition add_op :: "string \<Rightarrow> patch_value \<Rightarrow> JSONPatchOp" where
  "add_op path v = \<lparr> jp_Op = ''add'', jp_Path = path, jp_Value = v \<rparr>"

definition annotation :: "Pod \<Rightarrow> string \<Rightarrow> string option" where
  "annotation pod k = Option.bind (pod_Annotations pod) (\<lambda>m. m k)"

definition trim_dash :: "string \<Rightarrow> string" where
  "trim_dash s = (if s \<noteq> [] \<and> last s = CHR ''-'' then butlast s else s)"

text \<open>Kind and name of the workload the sidecar reports for its pod.\<close>

definition pod_owner :: "Pod \<Rightarrow> string \<times> string" where
  "pod_owner pod =
     (case NormalizeOwner (pod_OwnerReferences pod) (pod_Labels pod) (pod_Name pod) of (kind, name) \<Rightarrow>
      if pod_Name pod = '''' \<and> pod_GenerateName pod \<noteq> '''' \<and> kind = ''Pod''
      then (kind, trim_dash (pod_GenerateName pod)) else (kind, name))"

definition int32 :: "int \<Rightarrow> int" where
  "int32 x = (x + 2147483648) mod 4294967296 - 2147483648"

definition sidecar_env :: "WebhookConfig \<Rightarrow> Pod \<Rightarrow> string \<Rightarrow> EnvVar list" where
  "sidecar_env cfg pod namespace =
     (case pod_owner pod of (kind, name) \<Rightarrow>
      [\<lparr> ev_Name = ''KOSHI_LISTEN_ADDR'', ev_Value = '':'' @ itoa (wc_SidecarPort cfg) \<rparr>,
       \<lparr> ev_Name = ''KOSHI_POD_NAMESPACE'', ev_Value = namespace \<rparr>,
       \<lparr> ev_Name = ''KOSHI_WORKLOAD_KIND'', ev_Value = kind \<rparr>,
       \<lparr> ev_Name = ''KOSHI_WORKLOAD_NAME'', ev_Value = name \<rparr>,
       \<lparr> ev_Name = ''KOSHI_POD_NAME'',
         ev_Value = (if pod_Name pod = '''' then pod_GenerateName pod else pod_Name pod) \<rparr>]
      @ (if annotation pod ''runtime.getkoshi.ai/mode'' = Some ''enforcement''
         then [\<lparr> ev_Name = ''KOSHI_MODE'', ev_Value = ''enforcement'' \<rparr>] else [])
      @ (case annotation pod ''runtime.getkoshi.ai/policy'' of
           Some p \<Rightarrow> if p \<noteq> '''' then [\<lparr> ev_Name = ''KOSHI_POLICY_OVERRIDE'', ev_Value = p \<rparr>] else []
         | None \<Rightarrow> [])
      @ (case annotation pod ''runtime.getkoshi.ai/configmap'' of
           Some c \<Rightarrow> if c \<noteq> '''' then [\<lparr> ev_Name = ''KOSHI_CONFIG_PATH'', ev_Value = ''/etc/koshi-sidecar/config.yaml'' \<rparr>]
             else []
         | None \<Rightarrow> []))"

definition config_map :: "Pod \<Rightarrow> string option" where
  "config_map pod = (case annotation pod ''runtime.getkoshi.ai/configmap'' of
     Some c \<Rightarrow> if c \<noteq> '''' then Some c else None | None \<Rightarrow> None)"

definition sidecar :: "WebhookConfig \<Rightarrow> Pod \<Rightarrow> string \<Rightarrow> Container" where
  "sidecar cfg pod namespace =
     \<lparr> ct_Name = ''koshi-listener'', ct_Image = wc_SidecarImage cfg, ct_ImagePullPolicy = wc_SidecarPullPolicy cfg,
       ct_Resources = wc_SidecarResources cfg, ct_Ports = [int32 (wc_SidecarPort cfg)],
       ct_Env = Some (sidecar_env cfg pod namespace),
       ct_VolumeMounts = (if config_map pod = None then []
         else [\<lparr> vm_Name = ''koshi-sidecar-config'', vm_MountPath = ''/etc/koshi-sidecar'', vm_ReadOnly = True \<rparr>]) \<rparr>"

definition volume_patches :: "Pod \<Rightarrow> JSONPatchOp list" where
  "volume_patches pod =
     (case config_map pod of
        None \<Rightarrow> []
      | Some c \<Rightarrow>
          (if pod_Volumes pod \<in> {None, Some []} then [add_op ''/spec/volumes'' (VVolumes [])] else [])
          @ [add_op ''/spec/volumes/-'' (VVolume \<lparr> vol_Name = ''koshi-sidecar-config'', vol_ConfigMap = c \<rparr>)])"

definition base_url :: "WebhookConfig \<Rightarrow> string" where
  "base_url cfg = ''http://localhost:'' @ itoa (wc_SidecarPort cfg)"

definition provider_envs :: "WebhookConfig \<Rightarrow> bool \<Rightarrow> EnvVar list" where
  "provider_envs cfg openai_first =
     (let openai = \<lparr> ev_Name = ''OPENAI_BASE_URL'', ev_Value = base_url cfg \<rparr>;
          anthropic = \<lparr> ev_Name = ''ANTHROPIC_BASE_URL'', ev_Value = base_url cfg \<rparr> in
      if openai_first then [openai, anthropic] else [anthropic, openai])"

definition env_list :: "Container \<Rightarrow> EnvVar list" where
  "env_list c = (case ct_Env c of None \<Rightarrow> [] | Some es \<Rightarrow> es)"

definition env_path :: "nat \<Rightarrow> string" where
  "env_path i = ''/spec/containers/'' @ itoa (int i) @ ''/env''"

text \<open>The inner loop over the provider variables; \<open>needsEnvInit\<close> is the flag of the source.\<close>

fun env_patches :: "nat \<Rightarrow> EnvVar list \<Rightarrow> bool \<Rightarrow> EnvVar list \<Rightarrow> JSONPatchOp list" where
  "env_patches i envs needsEnvInit [] = []"
| "env_patches i envs needsEnvInit (e # es) =
     (if \<not> hasEnvVar envs (ev_Name e) then
        (if needsEnvInit then [add_op (env_path i) (VEnvs [])] else [])
        @ add_op (env_path i @ ''/-'') (VEnv e) # env_patches i envs False es
      else env_patches i envs needsEnvInit es)"

fun container_patches :: "WebhookConfig \<Rightarrow> (nat \<Rightarrow> bool) \<Rightarrow> nat \<Rightarrow> Container list \<Rightarrow> JSONPatchOp list" where
  "container_patches cfg order i [] = []"
| "container_patches cfg order i (c # cs) =
     env_patches i (env_list c) (env_list c = []) (provider_envs cfg (order i)) @ container_patches cfg order (Suc i) cs"

definition scrape_value :: "WebhookConfig \<Rightarrow> string \<Rightarrow> string \<Rightarrow> string" where
  "scrape_value cfg key val =
     (if key = ''prometheus.io/port'' then itoa (wc_SidecarPort cfg)
      else if key = ''prometheus.io/path'' then ''/metrics''
      else if key = ''prometheus.io/scrape'' then ''true''
      else val)"

definition scrape_op :: "WebhookConfig \<Rightarrow> string \<times> string \<Rightarrow> JSONPatchOp" where
  "scrape_op cfg kv = (case kv of (key, val) \<Rightarrow>
     add_op (''/metadata/annotations/'' @ escapeJSONPointer key) (VString (scrape_value cfg key val)))"

definition annotation_patches :: "WebhookConfig \<Rightarrow> Pod \<Rightarrow> JSONPatchOp list" where
  "annotation_patches cfg pod =
     (if wc_ScrapeAnnotations cfg = [] then []
      else (if pod_Annotations pod = None then [add_op ''/metadata/annotations'' VAnnotations] else [])
        @ map (scrape_op cfg) (wc_ScrapeAnnotations cfg))"

definition buildPatches :: "WebhookConfig \<Rightarrow> (nat \<Rightarrow> bool) \<Rightarrow> Pod \<Rightarrow> string \<Rightarrow> JSONPatchOp list" where
  "buildPatches cfg order pod namespace =
     volume_patches pod
     @ add_op ''/spec/containers/-'' (VContainer (sidecar cfg pod namespace))
     # container_patches cfg order 0 (pod_Containers pod)
     @ annotation_patches cfg pod"

section \<open>The webhook\<close>

record AdmissionRequest =
  ar_UID :: string
  ar_Namespace :: string
  ar_Object :: string

record AdmissionResponse =
  as_UID :: string
  as_Allowed :: bool
  as_Patch :: "string option" \<comment> \<open>with patch type JSONPatch when there is one\<close>

datatype webhook_error = UnmarshalReview | NoRequest | MarshalError

record webhook_lib =
  wb_review :: "string \<Rightarrow> AdmissionRequest option option" \<comment> \<open>decoding a review; its request may be missing\<close>
  wb_pod :: "string \<Rightarrow> Pod option"
  wb_marshal :: "JSONPatchOp list \<Rightarrow> string option"

definition MarshalPatches :: "webhook_lib \<Rightarrow> JSONPatchOp list \<Rightarrow> string option" where
  "MarshalPatches lib patches = wb_marshal lib patches"

definition HandleMutate ::
  "webhook_lib \<Rightarrow> WebhookConfig \<Rightarrow> (nat \<Rightarrow> bool) \<Rightarrow> string \<Rightarrow> webhook_error + AdmissionResponse" where
  "HandleMutate lib cfg order body =
     (case wb_review lib body of
        None \<Rightarrow> Inl UnmarshalReview
      | Some None \<Rightarrow> Inl NoRequest
      | Some (Some req) \<Rightarrow>
          let plain = \<lparr> as_UID = ar_UID req, as_Allowed = True, as_Patch = None \<rparr> in
          (case wb_pod lib (ar_Object req) of
             None \<Rightarrow> Inr plain
           | Some pod \<Rightarrow>
               if annotation pod ''runtime.getkoshi.ai/inject'' = Some ''false'' then Inr plain
               else if list_ex (\<lambda>c. ct_Name c = ''koshi-listener'') (pod_Containers pod) then Inr plain
               else case MarshalPatches lib (buildPatches cfg order pod (ar_Namespace req)) of
                      None \<Rightarrow> Inl MarshalError
                    | Some patchBytes \<Rightarrow> Inr (plain\<lparr> as_Patch := Some patchBytes \<rparr>)))"

datatype webhook_reply = BadRequest | InternalError webhook_error | Review AdmissionResponse

definition ServeWebhook ::
  "webhook_lib \<Rightarrow> WebhookConfig \<Rightarrow> (nat \<Rightarrow> bool) \<Rightarrow> string option \<Rightarrow> webhook_reply" where
  "ServeWebhook lib cfg order body =
     (case body of
        None \<Rightarrow> BadRequest
      | Some b \<Rightarrow> (case HandleMutate lib cfg order b of Inl e \<Rightarrow> InternalError e | Inr resp \<Rightarrow> Review resp))"

section \<open>The injector's configuration\<close>

text \<open>\<open>strconv.Atoi\<close>, the decoder of the resources and the default pull policy are library code.\<close>

definition injector_config ::
  "(string \<Rightarrow> string) \<Rightarrow> (string \<Rightarrow> int option) \<Rightarrow> (string \<Rightarrow> string) \<Rightarrow> WebhookConfig" where
  "injector_config env atoi resources =
     \<lparr> wc_SidecarImage = (if env ''KOSHI_INJECT_IMAGE'' = '''' then ''koshi:latest'' else env ''KOSHI_INJECT_IMAGE''),
       wc_SidecarPullPolicy = (if env ''KOSHI_SIDECAR_PULL_POLICY'' \<noteq> '''' then env ''KOSHI_SIDECAR_PULL_POLICY''
         else ''IfNotPresent''),
       wc_SidecarPort = (let portStr = env ''KOSHI_SIDECAR_PORT'' in
         if portStr \<noteq> '''' then (case atoi portStr of Some p \<Rightarrow> if p > 0 then p else 15080 | None \<Rightarrow> 15080) else 15080),
       wc_SidecarResources = resources (env ''KOSHI_SIDECAR_RESOURCES''),
       wc_ConfigPath = ''/etc/koshi'',
       wc_ScrapeAnnotations = [(''prometheus.io/scrape'', ''true''), (''prometheus.io/port'', ''15080''),
         (''prometheus.io/path'', ''/metrics'')] \<rparr>"

section \<open>JSON pointers and JSON Patch\<close>

fun split_slash :: "string \<Rightarrow> string list" where
  "split_slash [] = [[]]"
| "split_slash (c # cs) =
     (if c = CHR ''/'' then [] # split_slash cs
      else case split_slash cs of t # ts \<Rightarrow> (c # t) # ts | [] \<Rightarrow> [[c]])"

fun unescape_token :: "string \<Rightarrow> string" where
  "unescape_token (x # y # s) =
     (if x = CHR ''~'' \<and> y = CHR ''1'' then CHR ''/'' # unescape_token s
      else if x = CHR ''~'' \<and> y = CHR ''0'' then CHR ''~'' # unescape_token s
      else x # unescape_token (y # s))"
| "unescape_token s = s"

definition pointer_tokens :: "string \<Rightarrow> string list" where
  "pointer_tokens path = map unescape_token (tl (split_slash path))"

text \<open>The index a token names in an array of the given length.\<close>

definition token_index :: "nat \<Rightarrow> string \<Rightarrow> nat option" where
  "token_index n tok = List.find (\<lambda>i. itoa (int i) = tok) [0..<n]"

definition on_container :: "string \<Rightarrow> (Container \<Rightarrow> Container option) \<Rightarrow> Pod \<Rightarrow> Pod option" where
  "on_container tok f pod =
     Option.bind (token_index (length (pod_Containers pod)) tok) (\<lambda>i.
       map_option (\<lambda>c. pod\<lparr> pod_Containers := (pod_Containers pod)[i := c] \<rparr>) (f (pod_Containers pod ! i)))"

text \<open>One \<open>add\<close> operation on the parts of a pod document the webhook addresses; anything else fails.\<close>

definition apply_op :: "JSONPatchOp \<Rightarrow> Pod \<Rightarrow> Pod option" where
  "apply_op p pod =
     (let toks = pointer_tokens (jp_Path p) in
      if jp_Op p \<noteq> ''add'' then None
      else case jp_Value p of
        VVolumes vs \<Rightarrow> if toks = [''spec'', ''volumes''] then Some (pod\<lparr> pod_Volumes := Some vs \<rparr>) else None
      | VVolume v \<Rightarrow> if toks = [''spec'', ''volumes'', ''-'']
          then map_option (\<lambda>vs. pod\<lparr> pod_Volumes := Some (vs @ [v]) \<rparr>) (pod_Volumes pod) else None
      | VContainer c \<Rightarrow> if toks = [''spec'', ''containers'', ''-'']
          then Some (pod\<lparr> pod_Containers := pod_Containers pod @ [c] \<rparr>) else None
      | VEnvs es \<Rightarrow> (case toks of [a, b, i, c] \<Rightarrow>
            if a = ''spec'' \<and> b = ''containers'' \<and> c = ''env''
            then on_container i (\<lambda>ct. Some (ct\<lparr> ct_Env := Some es \<rparr>)) pod else None
          | _ \<Rightarrow> None)
      | VEnv e \<Rightarrow> (case toks of [a, b, i, c, d] \<Rightarrow>
            if a = ''spec'' \<and> b = ''containers'' \<and> c = ''env'' \<and> d = ''-''
            then on_container i (\<lambda>ct. map_option (\<lambda>es. ct\<lparr> ct_Env := Some (es @ [e]) \<rparr>) (ct_Env ct)) pod else None
          | _ \<Rightarrow> None)
      | VAnnotations \<Rightarrow> if toks = [''metadata'', ''annotations'']
          then Some (pod\<lparr> pod_Annotations := Some Map.empty \<rparr>) else None
      | VString v \<Rightarrow> (case toks of [a, b, k] \<Rightarrow>
            if a = ''metadata'' \<and> b = ''annotations''
            then map_option (\<lambda>m. pod\<lparr> pod_Annotations := Some (m(k \<mapsto> v)) \<rparr>) (pod_Annotations pod) else None
          | _ \<Rightarrow> None))"

fun apply_patch :: "JSONPatchOp list \<Rightarrow> Pod \<Rightarrow> Pod option" where
  "apply_patch [] pod = Some pod"
| "apply_patch (p # ps) pod = Option.bind (apply_op p pod) (apply_patch ps)"

section \<open>What the mutation means\<close>

text \<open>
  The pod with the sidecar: every container gets the base URLs it does not set itself, the
  sidecar is appended, its configuration volume is added, and the scrape annotations are set.
\<close>

definition missing_envs :: "WebhookConfig \<Rightarrow> bool \<Rightarrow> Container \<Rightarrow> EnvVar list" where
  "missing_envs cfg ord c = filter (\<lambda>e. \<not> hasEnvVar (env_list c) (ev_Name e)) (provider_envs cfg ord)"

definition with_base_urls :: "WebhookConfig \<Rightarrow> bool \<Rightarrow> Container \<Rightarrow> Container" where
  "with_base_urls cfg ord c =
     (if missing_envs cfg ord c = [] then c else c\<lparr> ct_Env := Some (env_list c @ missing_envs cfg ord c) \<rparr>)"

definition injected_volumes :: "Pod \<Rightarrow> Volume list option" where
  "injected_volumes pod = (case config_map pod of None \<Rightarrow> pod_Volumes pod
     | Some c \<Rightarrow> Some ((case pod_Volumes pod of None \<Rightarrow> [] | Some vs \<Rightarrow> vs) @
         [\<lparr> vol_Name = ''koshi-sidecar-config'', vol_ConfigMap = c \<rparr>]))"

definition set_scrape :: "WebhookConfig \<Rightarrow> string \<times> string \<Rightarrow> (string \<rightharpoonup> string) \<Rightarrow> (string \<rightharpoonup> string)" where
  "set_scrape cfg kv m = m(fst kv \<mapsto> scrape_value cfg (fst kv) (snd kv))"

definition injected_annotations :: "WebhookConfig \<Rightarrow> Pod \<Rightarrow> (string \<rightharpoonup> string) option" where
  "injected_annotations cfg pod = (if wc_ScrapeAnnotations cfg = [] then pod_Annotations pod
     else Some (fold (set_scrape cfg) (wc_ScrapeAnnotations cfg)
        (case pod_Annotations pod of None \<Rightarrow> Map.empty | Some m \<Rightarrow> m)))"

definition injected :: "WebhookConfig \<Rightarrow> (nat \<Rightarrow> bool) \<Rightarrow> Pod \<Rightarrow> string \<Rightarrow> Pod" where
  "injected cfg order pod namespace =
     pod\<lparr> pod_Containers := map (\<lambda>(i, c). with_base_urls cfg (order i) c) (List.enumerate 0 (pod_Containers pod))
            @ [sidecar cfg pod namespace],
          pod_Volumes := injected_volumes pod,
          pod_Annotations := injected_annotations cfg pod \<rparr>"

section \<open>Pointers\<close>

lemma split_slash_append: "CHR ''/'' \<notin> set x \<Longrightarrow> split_slash (x @ CHR ''/'' # y) = x # split_slash y"
  by (induction x) auto

lemma split_slash_none: "CHR ''/'' \<notin> set x \<Longrightarrow> split_slash x = [x]"
  by (induction x) auto

lemma unescape_none: "CHR ''~'' \<notin> set x \<Longrightarrow> unescape_token x = x"
  by (induction x rule: unescape_token.induct) auto

lemma digits_range: "c \<in> set (digits n) \<Longrightarrow> 48 \<le> (of_char c :: nat) \<and> (of_char c :: nat) \<le> 57"
proof (induction n rule: digits.induct)
  case (1 n)
  then show ?case
    by (cases "n < 10") (auto simp: digits.simps [of n])
qed

lemma itoa_clean: "CHR ''/'' \<notin> set (itoa (int i))" "CHR ''~'' \<notin> set (itoa (int i))"
  using digits_range [of "CHR ''/''" i] digits_range [of "CHR ''~''" i] by (auto simp: itoa_def)

text \<open>Decimal numerals determine the number.\<close>

definition numeral_value :: "string \<Rightarrow> nat" where
  "numeral_value = foldl (\<lambda>n c. 10 * n + (of_char c - 48)) 0"

lemma numeral_value_digits: "numeral_value (digits n) = n"
proof (induction n rule: digits.induct)
  case (1 n)
  show ?case
  proof (cases "n < 10")
    case True
    then show ?thesis by (simp add: digits.simps [of n] numeral_value_def)
  next
    case False
    then have "numeral_value (digits (n div 10)) = n div 10" using 1 by blast
    with False show ?thesis by (simp add: digits.simps [of n] numeral_value_def)
  qed
qed

lemma itoa_inj: "itoa (int i) = itoa (int j) \<Longrightarrow> i = j"
  using numeral_value_digits by (auto simp: itoa_def dest: arg_cong [of _ _ numeral_value])

lemma token_index_itoa: "i < n \<Longrightarrow> token_index n (itoa (int i)) = Some i"
  by (auto simp: token_index_def find_Some_iff intro!: exI [of _ i] dest: itoa_inj)

lemma split_containers: "split_slash (''/spec/containers/'' @ y) = [] # ''spec'' # ''containers'' # split_slash y"
  using split_slash_append [of "''spec''" "''containers/'' @ y"] split_slash_append [of "''containers''" y] by simp

lemma split_annotations: "split_slash (''/metadata/annotations/'' @ y) = [] # ''metadata'' # ''annotations'' # split_slash y"
  using split_slash_append [of "''metadata''" "''annotations/'' @ y"] split_slash_append [of "''annotations''" y] by simp

lemma pointer_env:
  "pointer_tokens (env_path i) = [''spec'', ''containers'', itoa (int i), ''env'']"
  "pointer_tokens (env_path i @ ''/-'') = [''spec'', ''containers'', itoa (int i), ''env'', ''-'']"
proof -
  have "split_slash (itoa (int i) @ ''/env'') = [itoa (int i), ''env'']"
    "split_slash (itoa (int i) @ ''/env/-'') = [itoa (int i), ''env'', ''-'']"
    using split_slash_append [OF itoa_clean(1), of i "''env''"] split_slash_append [OF itoa_clean(1), of i "''env/-''"]
    by simp_all
  then show "pointer_tokens (env_path i) = [''spec'', ''containers'', itoa (int i), ''env'']"
    "pointer_tokens (env_path i @ ''/-'') = [''spec'', ''containers'', itoa (int i), ''env'', ''-'']"
    unfolding pointer_tokens_def env_path_def append_assoc split_containers
    by (simp_all add: unescape_none itoa_clean)
qed

lemma pointer_fixed:
  "pointer_tokens ''/spec/volumes'' = [''spec'', ''volumes'']" "pointer_tokens ''/spec/volumes/-'' = [''spec'', ''volumes'', ''-'']"
  "pointer_tokens ''/spec/containers/-'' = [''spec'', ''containers'', ''-'']"
  "pointer_tokens ''/metadata/annotations'' = [''metadata'', ''annotations'']"
  by (simp_all add: pointer_tokens_def)

definition ascii :: "string \<Rightarrow> bool" where
  "ascii s \<longleftrightarrow> list_all (\<lambda>c. code c < 128) s"

lemma runes_Nil [simp]: "runes [] = []"
  by (simp add: runes.simps [of "[]"])

lemma runes_ascii: "ascii s \<Longrightarrow> runes s = map (\<lambda>c. [c]) s"
proof (induction s)
  case (Cons c s)
  then have "code c < 128" "ascii s" by (simp_all add: ascii_def)
  moreover from this have "utf8_len (c # s) = 1" by (simp add: utf8_len_def)
  ultimately show ?case using Cons.IH by (simp add: runes.simps [of "c # s"])
qed simp

lemma escape_Cons:
  "ascii (c # s) \<Longrightarrow> escapeJSONPointer (c # s) = escape_rune [c] @ escapeJSONPointer s"
  "escapeJSONPointer [] = []"
  by (simp_all add: escapeJSONPointer_def runes_ascii ascii_def)

lemma unescape_escape: "ascii s \<Longrightarrow> unescape_token (escapeJSONPointer s) = s"
proof (induction s)
  case (Cons c s)
  then have IH: "unescape_token (escapeJSONPointer s) = s" and e: "escapeJSONPointer (c # s) = escape_rune [c] @ escapeJSONPointer s"
    by (simp_all add: ascii_def escape_Cons(1))
  show ?case
  proof (cases "c = CHR ''~'' \<or> c = CHR ''/''")
    case True
    then show ?thesis using IH by (auto simp: e escape_rune_def)
  next
    case False
    then have "unescape_token (c # t) = c # unescape_token t" for t by (cases t) auto
    then show ?thesis using IH False by (simp add: e escape_rune_def)
  qed
qed (simp add: escape_Cons(2))

lemma escape_no_slash: "ascii s \<Longrightarrow> CHR ''/'' \<notin> set (escapeJSONPointer s)"
proof (induction s)
  case (Cons c s)
  then show ?case by (auto simp: escape_Cons(1) escape_rune_def ascii_def)
qed (simp add: escape_Cons(2))

lemma pointer_annotation:
  "ascii k \<Longrightarrow> pointer_tokens (''/metadata/annotations/'' @ escapeJSONPointer k) = [''metadata'', ''annotations'', k]"
  unfolding pointer_tokens_def split_annotations
  by (simp add: split_slash_none escape_no_slash unescape_escape)

section \<open>Applying the patches\<close>

lemma apply_patch_append: "apply_patch (ps @ qs) pod = Option.bind (apply_patch ps pod) (apply_patch qs)"
  by (induction ps arbitrary: pod) (auto split: bind_splits)

lemma apply_volumes:
  "apply_patch (volume_patches pod) pod = Some (pod\<lparr> pod_Volumes := injected_volumes pod \<rparr>)"
  by (auto simp: volume_patches_def injected_volumes_def apply_op_def add_op_def pointer_fixed split: option.split)

lemma apply_env_init:
  "i < length (pod_Containers pod) \<Longrightarrow> apply_op (add_op (env_path i) (VEnvs es)) pod =
     Some (pod\<lparr> pod_Containers := (pod_Containers pod)[i := (pod_Containers pod ! i)\<lparr> ct_Env := Some es \<rparr>] \<rparr>)"
  by (simp add: apply_op_def add_op_def pointer_env on_container_def token_index_itoa)

lemma apply_env_append:
  "\<lbrakk> i < length (pod_Containers pod); ct_Env (pod_Containers pod ! i) = Some es \<rbrakk> \<Longrightarrow>
     apply_op (add_op (env_path i @ ''/-'') (VEnv e)) pod =
     Some (pod\<lparr> pod_Containers := (pod_Containers pod)[i := (pod_Containers pod ! i)\<lparr> ct_Env := Some (es @ [e]) \<rparr>] \<rparr>)"
  by (simp add: apply_op_def add_op_def pointer_env on_container_def token_index_itoa)

lemma env_same: "ct_Env c = Some xs \<Longrightarrow> c\<lparr> ct_Env := Some xs \<rparr> = c"
  by (cases c) simp

text \<open>The inner loop on container \<open>i\<close>, once its environment is there.\<close>

lemma apply_env_present:
  assumes "i < length (pod_Containers pod)" "ct_Env (pod_Containers pod ! i) = Some xs"
  shows "apply_patch (env_patches i envs False es) pod = Some (pod\<lparr> pod_Containers := (pod_Containers pod)
     [i := (pod_Containers pod ! i)\<lparr> ct_Env := Some (xs @ filter (\<lambda>e. \<not> hasEnvVar envs (ev_Name e)) es) \<rparr>] \<rparr>)"
  using assms
proof (induction es arbitrary: pod xs)
  case Nil
  then show ?case by (simp add: env_same)
next
  case (Cons e es)
  then show ?case by (simp add: apply_env_append)
qed

lemma apply_env:
  assumes "i < length (pod_Containers pod)" "pod_Containers pod ! i = c"
  shows "apply_patch (env_patches i (env_list c) (env_list c = []) (provider_envs cfg ord)) pod =
     Some (pod\<lparr> pod_Containers := (pod_Containers pod)[i := with_base_urls cfg ord c] \<rparr>)"
proof (cases "env_list c = []")
  case False
  then obtain xs where "ct_Env c = Some xs" "env_list c = xs" by (auto simp: env_list_def split: option.splits)
  then show ?thesis
    using apply_env_present [OF assms(1), of xs "env_list c" "provider_envs cfg ord"] assms False
    by (auto simp: with_base_urls_def missing_envs_def env_same)
next
  case True
  obtain e e' where p: "provider_envs cfg ord = [e, e']" by (cases ord) (simp_all add: provider_envs_def)
  let ?pod = "pod\<lparr> pod_Containers := (pod_Containers pod)[i := c\<lparr> ct_Env := Some [] \<rparr>] \<rparr>"
  have no: "\<not> hasEnvVar [] x" for x by (simp add: hasEnvVar_def)
  have "apply_patch (add_op (env_path i @ ''/-'') (VEnv e) # env_patches i [] False [e']) ?pod =
      apply_patch (env_patches i [] False [e, e']) ?pod"
    by (simp add: no)
  then show ?thesis
    using apply_env_present [of i ?pod "[]" "[]" "[e, e']"] assms True
    by (simp add: p no apply_env_init with_base_urls_def missing_envs_def)
qed

text \<open>The outer loop: the containers from position \<open>i\<close> on; what precedes and follows them stays.\<close>

lemma apply_containers:
  assumes "pod_Containers pod = ds @ cs @ rest" "length ds = i"
  shows "apply_patch (container_patches cfg order i cs) pod = Some (pod\<lparr> pod_Containers :=
     ds @ map (\<lambda>(j, c). with_base_urls cfg (order j) c) (List.enumerate i cs) @ rest \<rparr>)"
  using assms
proof (induction cs arbitrary: pod ds i)
  case (Cons c cs)
  let ?c = "with_base_urls cfg (order i) c"
  have "apply_patch (env_patches i (env_list c) (env_list c = []) (provider_envs cfg (order i))) pod =
      Some (pod\<lparr> pod_Containers := (pod_Containers pod)[i := ?c] \<rparr>)"
    by (rule apply_env) (use Cons.prems in \<open>auto simp: nth_append\<close>)
  also have "(pod_Containers pod)[i := ?c] = (ds @ [?c]) @ cs @ rest"
    using Cons.prems by (simp add: list_update_append)
  finally show ?case
    using Cons.IH [of "pod\<lparr> pod_Containers := (ds @ [?c]) @ cs @ rest \<rparr>" "ds @ [?c]" "Suc i"] Cons.prems(2)
    by (simp add: apply_patch_append)
qed simp

lemma apply_scrape:
  assumes "ascii (fst kv)" "pod_Annotations pod = Some m"
  shows "apply_op (scrape_op cfg kv) pod = Some (pod\<lparr> pod_Annotations := Some (set_scrape cfg kv m) \<rparr>)"
proof -
  obtain k v where kv: "kv = (k, v)" by fastforce
  show ?thesis
    unfolding apply_op_def scrape_op_def kv prod.case add_op_def JSONPatchOp.select_convs Let_def
    by (subst pointer_annotation) (use assms kv in \<open>simp_all add: set_scrape_def\<close>)
qed

lemma annotations_same: "pod_Annotations pod = m \<Longrightarrow> pod\<lparr> pod_Annotations := m \<rparr> = pod"
  by (cases pod) simp

lemma apply_annotation_list:
  assumes "list_all (ascii \<circ> fst) kvs" "pod_Annotations pod = Some m"
  shows "apply_patch (map (scrape_op cfg) kvs) pod = Some (pod\<lparr> pod_Annotations := Some (fold (set_scrape cfg) kvs m) \<rparr>)"
  using assms
proof (induction kvs arbitrary: pod m)
  case Nil
  then show ?case by (simp add: annotations_same)
next
  case (Cons kv kvs)
  then show ?case using apply_scrape [of kv pod m cfg] by simp
qed

lemma annotation_patches_pod:
  "pod_Annotations p = pod_Annotations q \<Longrightarrow> annotation_patches cfg p = annotation_patches cfg q"
  "pod_Annotations p = pod_Annotations q \<Longrightarrow> injected_annotations cfg p = injected_annotations cfg q"
  by (simp_all add: annotation_patches_def injected_annotations_def)

lemma apply_annotations:
  assumes "list_all (ascii \<circ> fst) (wc_ScrapeAnnotations cfg)"
  shows "apply_patch (annotation_patches cfg pod) pod = Some (pod\<lparr> pod_Annotations := injected_annotations cfg pod \<rparr>)"
proof (cases "pod_Annotations pod")
  case None
  let ?pod = "pod\<lparr> pod_Annotations := Some Map.empty \<rparr>"
  have "apply_op (add_op ''/metadata/annotations'' VAnnotations) pod = Some ?pod"
    by (simp add: apply_op_def add_op_def pointer_fixed)
  then show ?thesis
    using apply_annotation_list [OF assms, of ?pod Map.empty] None
    by (simp add: annotation_patches_def injected_annotations_def apply_patch_append)
next
  case (Some m)
  then show ?thesis
    using apply_annotation_list [OF assms Some]
    by (simp add: annotation_patches_def injected_annotations_def)
qed

section \<open>Properties\<close>

text \<open>
  C8. The patches implement the mutation. For every pod, whatever optional parts it lacks, and
  every order in which Go iterates its maps, the operations the webhook returns can be applied
  one after the other (each finds the array or object it adds to), and the result is the pod
  with the sidecar: only missing base URLs are added to the containers, the sidecar comes last,
  and nothing else of the pod changes.
\<close>

theorem patches_implement_injection:
  assumes "list_all (ascii \<circ> fst) (wc_ScrapeAnnotations cfg)"
  shows "apply_patch (buildPatches cfg order pod namespace) pod = Some (injected cfg order pod namespace)"
proof -
  let ?s = "sidecar cfg pod namespace" and ?n = "pod_Containers pod"
  let ?p1 = "pod\<lparr> pod_Volumes := injected_volumes pod \<rparr>"
  let ?p2 = "?p1\<lparr> pod_Containers := ?n @ [?s] \<rparr>"
  let ?p3 = "?p2\<lparr> pod_Containers := map (\<lambda>(i, c). with_base_urls cfg (order i) c) (List.enumerate 0 ?n) @ [?s] \<rparr>"
  have 1: "apply_op (add_op ''/spec/containers/-'' (VContainer ?s)) ?p1 = Some ?p2"
    by (simp add: apply_op_def add_op_def pointer_fixed)
  have 2: "apply_patch (container_patches cfg order 0 ?n) ?p2 = Some ?p3"
    using apply_containers [of ?p2 "[]" ?n "[?s]" 0 cfg order] by simp
  have 3: "apply_patch (annotation_patches cfg pod) ?p3 = Some (?p3\<lparr> pod_Annotations := injected_annotations cfg pod \<rparr>)"
    using apply_annotations [OF assms, of ?p3] annotation_patches_pod [of ?p3 pod cfg] by simp
  have "injected cfg order pod namespace = ?p3\<lparr> pod_Annotations := injected_annotations cfg pod \<rparr>"
    by (simp add: injected_def)
  then show ?thesis
    by (simp only: buildPatches_def apply_patch_append apply_patch.simps apply_volumes 1 2 3 bind.bind_lunit)
qed

definition demo_webhook :: WebhookConfig where
  "demo_webhook = injector_config (\<lambda>_. '''') (\<lambda>_. None) (\<lambda>_. '''')"

definition demo_pod :: Pod where
  "demo_pod = \<lparr> pod_Name = '''', pod_GenerateName = ''chat-5d8f-'', pod_Labels = [''pod-template-hash'' \<mapsto> ''5d8f''],
     pod_Annotations = Some [''runtime.getkoshi.ai/mode'' \<mapsto> ''enforcement''],
     pod_OwnerReferences = [\<lparr> or_Kind = ''ReplicaSet'', or_Name = ''chat-5d8f'' \<rparr>],
     pod_Containers = [\<lparr> ct_Name = ''app'', ct_Image = ''app:1'', ct_ImagePullPolicy = '''', ct_Resources = '''',
       ct_Ports = [], ct_Env = None, ct_VolumeMounts = [] \<rparr>],
     pod_Volumes = None \<rparr>"

lemma demo_webhook_ascii: "list_all (ascii \<circ> fst) (wc_ScrapeAnnotations demo_webhook)"
  by code_simp

theorem patches_implement_injection_witness:
  "map_option (\<lambda>p. map ct_Name (pod_Containers p))
     (apply_patch (buildPatches demo_webhook (\<lambda>_. True) demo_pod ''prod'') demo_pod) = Some [''app'', ''koshi-listener'']"
  unfolding patches_implement_injection [OF demo_webhook_ascii]
  by (simp add: injected_def demo_pod_def with_base_urls_def sidecar_def)

text \<open>Whether the webhook adds a sidecar to a pod.\<close>

definition wants_injection :: "Pod \<Rightarrow> bool" where
  "wants_injection pod \<longleftrightarrow> annotation pod ''runtime.getkoshi.ai/inject'' \<noteq> Some ''false'' \<and>
     (\<forall>c \<in> set (pod_Containers pod). ct_Name c \<noteq> ''koshi-listener'')"

text \<open>
  C34. The webhook admits every pod and injects once. A review that decodes and has a request is
  always answered, with the request's identifier, and the pod is always admitted, also one that
  does not decode; a patch is sent exactly for the pods that have not opted out and have no
  sidecar yet; and no pod that carries an injected sidecar is ever patched again.
\<close>

theorem webhook_admits_and_injects_once:
  assumes "wb_review lib body = Some (Some req)" "\<And>ps. wb_marshal lib ps \<noteq> None"
  shows "(\<exists>resp. HandleMutate lib cfg order body = Inr resp \<and> as_Allowed resp \<and> as_UID resp = ar_UID req \<and>
      as_Patch resp = (case wb_pod lib (ar_Object req) of None \<Rightarrow> None
        | Some pod \<Rightarrow> if wants_injection pod then wb_marshal lib (buildPatches cfg order pod (ar_Namespace req)) else None)) \<and>
     \<not> wants_injection (injected cfg' order' pod' ns)"
proof -
  have ex: "list_ex (\<lambda>c. ct_Name c = ''koshi-listener'') cs \<longleftrightarrow> (\<exists>c \<in> set cs. ct_Name c = ''koshi-listener'')" for cs
    by (simp add: list_ex_iff)
  have "\<not> wants_injection (injected cfg' order' pod' ns)"
    by (simp add: wants_injection_def injected_def sidecar_def)
  moreover have "\<exists>resp. HandleMutate lib cfg order body = Inr resp \<and> as_Allowed resp \<and> as_UID resp = ar_UID req \<and>
      as_Patch resp = (case wb_pod lib (ar_Object req) of None \<Rightarrow> None
        | Some pod \<Rightarrow> if wants_injection pod then wb_marshal lib (buildPatches cfg order pod (ar_Namespace req)) else None)"
  proof (cases "wb_pod lib (ar_Object req)")
    case (Some pod)
    obtain b where b: "wb_marshal lib (buildPatches cfg order pod (ar_Namespace req)) = Some b" using assms(2) by blast
    show ?thesis
      using assms(1) Some b by (auto simp: HandleMutate_def MarshalPatches_def wants_injection_def ex Let_def)
  qed (simp add: HandleMutate_def assms(1))
  ultimately show ?thesis by blast
qed

definition demo_webhook_lib :: webhook_lib where
  "demo_webhook_lib = \<lparr> wb_review = (\<lambda>b. Some (Some \<lparr> ar_UID = ''u1'', ar_Namespace = ''prod'', ar_Object = b \<rparr>)),
     wb_pod = (\<lambda>b. Some demo_pod), wb_marshal = (\<lambda>ps. Some ''patch'') \<rparr>"

theorem webhook_admits_and_injects_once_witness:
  "\<exists>resp. HandleMutate demo_webhook_lib demo_webhook (\<lambda>_. True) ''review'' = Inr resp \<and> as_UID resp = ''u1'' \<and>
     as_Patch resp = Some ''patch''"
proof -
  let ?req = "\<lparr> ar_UID = ''u1'', ar_Namespace = ''prod'', ar_Object = ''review'' \<rparr>"
  have r: "wb_review demo_webhook_lib ''review'' = Some (Some ?req)" "\<And>ps. wb_marshal demo_webhook_lib ps \<noteq> None"
    and v: "wb_marshal demo_webhook_lib ps = Some ''patch''" "wb_pod demo_webhook_lib x = Some demo_pod" for ps x
    by (simp_all add: demo_webhook_lib_def)
  have w: "wants_injection demo_pod" by (simp add: wants_injection_def demo_pod_def annotation_def)
  show ?thesis
    using webhook_admits_and_injects_once [OF r, of demo_webhook "\<lambda>_. True"] by (simp add: v w) blast
qed

text \<open>
  A roll-out keeps the workload. All pods of a Deployment, whatever the hash of their
  template and whatever their names, are accounted to the same workload, the Deployment; the
  hash of the current ReplicaSet never becomes part of it.
\<close>

lemma rollout_keeps_workload:
  assumes "pod_OwnerReferences pod = \<lparr> or_Kind = ''ReplicaSet'', or_Name = deployment @ ''-'' @ hash \<rparr> # os"
    and "pod_Labels pod ''pod-template-hash'' = Some hash" "hash \<noteq> ''''"
  shows "pod_owner pod = (''Deployment'', deployment) \<and>
    \<lparr> ev_Name = ''KOSHI_WORKLOAD_KIND'', ev_Value = ''Deployment'' \<rparr> \<in> set (sidecar_env cfg pod ns) \<and>
    \<lparr> ev_Name = ''KOSHI_WORKLOAD_NAME'', ev_Value = deployment \<rparr> \<in> set (sidecar_env cfg pod ns)"
proof -
  have "trim_suffix (deployment @ ''-'' @ hash) (''-'' @ hash) = deployment" by (rule trim_suffix_append)
  moreover have "has_suffix (deployment @ ''-'' @ hash) (''-'' @ hash)" by (simp add: has_suffix_def suffix_def)
  ultimately have "NormalizeOwner (pod_OwnerReferences pod) (pod_Labels pod) (pod_Name pod) = (''Deployment'', deployment)"
    using assms by (simp add: NormalizeOwner_def)
  then have "pod_owner pod = (''Deployment'', deployment)" by (simp add: pod_owner_def)
  then show ?thesis by (simp add: sidecar_env_def)
qed

text \<open>
  Annotation keys survive as JSON pointers. Every key of ASCII text, slashes and tildes
  included, is read back unchanged from the pointer the webhook makes of it, as one single
  token, and different keys make different pointers.
\<close>

lemma pointer_round_trip:
  assumes "ascii k" "ascii k'"
  shows "pointer_tokens (''/metadata/annotations/'' @ escapeJSONPointer k) = [''metadata'', ''annotations'', k] \<and>
    (escapeJSONPointer k = escapeJSONPointer k' \<longrightarrow> k = k')"
  using pointer_annotation [OF assms(1)] unescape_escape [OF assms(1)] unescape_escape [OF assms(2)] by metis

end
