(* ===== verification/Json_Roundtrip.thy ===== *)
theory Json_Roundtrip
  imports Provider
begin

text \<open>
  Printing and parsing of JSON are inverse: what the encoder writes, the decoder reads back as
  the same value, and the escapes that the encoder inserts do not change what a string means.
  From this follows what \<^verbatim>\<open>injectStreamOptions\<close> (\<^verbatim>\<open>proxy/tokencount.go\<close>) does to a request
  body: it replaces one member and keeps the meaning of all others.
\<close>

section \<open>String literals\<close>

text \<open>The raw bytes that may stand between two quotes.\<close>

fun raw_ok :: "string \<Rightarrow> bool" where
  "raw_ok [] = True"
| "raw_ok (c # cs) =
     (if c = quote_char then False
      else if c = backslash then (case escape_len cs of None \<Rightarrow> False | Some n \<Rightarrow> raw_ok (drop n cs))
      else \<not> is_control c \<and> raw_ok cs)"

lemma escape_len_append: "escape_len cs = Some n \<Longrightarrow> escape_len (cs @ xs) = Some n \<and> n \<le> length cs \<and> 0 < n"
  by (auto simp: escape_len_def split: list.splits if_splits)

lemma escape_len_take: "escape_len cs = Some n \<Longrightarrow> escape_len (take n cs) = Some n"
  by (auto simp: escape_len_def numeral_eq_Suc split: list.splits if_splits)

lemma scan_string_raw: "raw_ok s \<Longrightarrow> scan_string (s @ quote_char # rest) = Some (s, rest)"
proof (induction s rule: raw_ok.induct)
  case (2 c cs)
  show ?case
  proof (cases "c = backslash")
    case True
    with 2(3) obtain n where n: "escape_len cs = Some n" "raw_ok (drop n cs)"
      by (auto split: option.splits if_splits)
    then have "scan_string (drop n cs @ quote_char # rest) = Some (drop n cs, rest)"
      using 2(1) True by simp
    with n escape_len_append [OF n(1)] True show ?thesis by simp
  qed (use 2 in \<open>auto split: if_splits\<close>)
qed simp

lemma scan_string_inv: "scan_string s = Some (r, rest) \<Longrightarrow> raw_ok r \<and> s = r @ quote_char # rest"
proof (induction s arbitrary: r rule: scan_string.induct)
  case (2 c cs)
  consider "c = quote_char" | "c = backslash" | "c \<noteq> quote_char" "c \<noteq> backslash" by blast
  then show ?case
  proof cases
    case 2
    then obtain n r' where n: "escape_len cs = Some n" "scan_string (drop n cs) = Some (r', rest)"
        "r = c # take n cs @ r'"
      using "2.prems" by (auto split: option.splits)
    then have "raw_ok r' \<and> drop n cs = r' @ quote_char # rest" using "2.IH"(1) 2 by simp
    moreover have "escape_len (take n cs @ r') = Some n \<and> n \<le> length cs"
      using escape_len_append [OF escape_len_take [OF n(1)]] escape_len_append [OF n(1)] by simp
    ultimately show ?thesis using n 2 append_take_drop_id [of n cs] by (simp del: append_take_drop_id)
  qed (use "2.prems" "2.IH"(2) in \<open>auto split: option.splits if_splits\<close>)
qed simp

text \<open>Bytes that the encoder never escapes.\<close>

definition plain :: "char \<Rightarrow> bool" where
  "plain a \<longleftrightarrow> a \<noteq> CHR ''<'' \<and> a \<noteq> CHR ''>'' \<and> a \<noteq> CHR ''&'' \<and> code a \<noteq> 0xE2"

declare html_escape.simps(2) [simp del]

lemma html_escape_plain: "plain a \<Longrightarrow> html_escape (a # cs) = a # html_escape cs"
  by (auto simp: plain_def html_escape.simps split: list.split)

lemma html_escape_skip: "list_all plain xs \<Longrightarrow> html_escape (xs @ cs) = xs @ html_escape cs"
  by (induction xs) (simp_all add: html_escape_plain)

lemma plain_hex: "is_hex a \<Longrightarrow> plain a"
  by (auto simp: is_hex_def is_digit_def code_def plain_def)

lemma plain_escape: "simple_escape a \<Longrightarrow> plain a" "plain (CHR ''u'')" "plain backslash"
  by (auto simp: simple_escape_def code_def plain_def)

lemma escape_len_cases:
  assumes "escape_len cs = Some n"
  obtains e ds where "cs = e # ds" "simple_escape e" "n = 1"
  | h1 h2 h3 h4 ds where "cs = CHR ''u'' # h1 # h2 # h3 # h4 # ds" "is_hex h1" "is_hex h2" "is_hex h3" "is_hex h4" "n = 5"
proof -
  obtain e xs where cs: "cs = e # xs" using assms by (cases cs) (auto simp: escape_len_def)
  show ?thesis
  proof (cases "simple_escape e")
    case True
    then show ?thesis using that(1) [OF cs True] assms cs by (simp add: escape_len_def)
  next
    case False
    then have u: "e = CHR ''u''" "4 \<le> length xs" "list_all is_hex (take 4 xs)" "n = 5"
      using assms cs by (auto simp: escape_len_def split: if_splits)
    obtain h1 h2 h3 h4 ds where "xs = h1 # h2 # h3 # h4 # ds"
      using u(2) by (auto simp: numeral_eq_Suc Suc_le_length_iff)
    then show ?thesis using that(2) u cs by simp
  qed
qed

lemma escape_plain: "escape_len cs = Some n \<Longrightarrow> list_all plain (take n cs)"
  by (erule escape_len_cases) (simp_all add: plain_escape plain_hex)


lemma u_escape_app: "u_escape n @ xs = backslash # CHR ''u'' # hex_digit (n div 4096) # hex_digit (n div 256 mod 16)
    # hex_digit (n div 16 mod 16) # hex_digit (n mod 16) # xs"
  by (simp add: u_escape_def)

text \<open>The five characters that the encoder escapes.\<close>

lemma html_escape_cases [case_names ascii separator plain]:
  obtains "a \<in> {CHR ''<'', CHR ''>'', CHR ''&''}" "html_escape (a # cs) = u_escape (code a) @ html_escape cs"
  | b c ds where "cs = b # c # ds" "code a = 0xE2" "code b = 0x80" "code c = 0xA8 \<or> code c = 0xA9"
      "html_escape (a # cs) = u_escape (0x2000 + (code c - 0x80)) @ html_escape ds"
      "html_escape cs = b # c # html_escape ds"
  | "html_escape (a # cs) = a # html_escape cs" "a \<notin> {CHR ''<'', CHR ''>'', CHR ''&''}"
proof -
  consider "a \<in> {CHR ''<'', CHR ''>'', CHR ''&''}"
    | b c ds where "cs = b # c # ds" "code a = 0xE2" "code b = 0x80" "code c = 0xA8 \<or> code c = 0xA9"
    | "a \<notin> {CHR ''<'', CHR ''>'', CHR ''&''}"
      "\<not> (\<exists>b c ds. cs = b # c # ds \<and> code a = 0xE2 \<and> code b = 0x80 \<and> (code c = 0xA8 \<or> code c = 0xA9))"
    by blast
  then show ?thesis
  proof cases
    case 1
    then show ?thesis using that(1) by (auto simp: html_escape.simps(2) [of a cs])
  next
    case 2
    have a: "a \<notin> {CHR ''<'', CHR ''>'', CHR ''&''}" using 2(2) by (auto simp: code_def)
    have "plain b" "plain c" using 2(3,4) by (auto simp: plain_def code_def)
    then have "html_escape cs = b # c # html_escape ds" unfolding 2(1) by (simp add: html_escape_plain)
    moreover have "html_escape (a # cs) = u_escape (0x2000 + (code c - 0x80)) @ html_escape ds"
      using a 2 by (subst html_escape.simps) simp
    ultimately show ?thesis using that(2) 2 by blast
  next
    case 3
    then have "html_escape (a # cs) = a # html_escape cs"
      by (subst html_escape.simps) (auto split: list.split)
    then show ?thesis using that(3) 3 by blast
  qed
qed

lemma hex_digit_props:
  assumes "0 \<le> n" "n < 16"
  shows "is_hex (hex_digit n)" "hex_val (hex_digit n) = n"
proof -
  have "n \<in> {0, 1, 2, 3, 4, 5, 6, 7, 8, 9, 10, 11, 12, 13, 14, 15}" using assms by simp presburger
  then show "is_hex (hex_digit n)" "hex_val (hex_digit n) = n"
    by (auto simp: hex_digit_def is_hex_def is_digit_def hex_val_def code_def)
qed

lemma u_escape_hex: "0 \<le> n \<Longrightarrow> n < 0x10000 \<Longrightarrow> list_all is_hex
   [hex_digit (n div 4096), hex_digit (n div 256 mod 16), hex_digit (n div 16 mod 16), hex_digit (n mod 16)]"
  by (auto intro!: hex_digit_props)

lemma escape_len_u: "\<lbrakk> 0 \<le> n; n < 0x10000 \<rbrakk> \<Longrightarrow> escape_len (tl (u_escape n) @ xs) = Some 5"
  using u_escape_hex [of n] by (simp add: u_escape_def escape_len_def simple_escape_def numeral_eq_Suc)

lemma raw_ok_u_escape: "\<lbrakk> 0 \<le> n; n < 0x10000 \<rbrakk> \<Longrightarrow> raw_ok (u_escape n @ xs) = raw_ok xs"
  using escape_len_u [of n xs] by (simp add: u_escape_def)

lemma getu4_hex:
  "list_all is_hex [a, b, c, d] \<Longrightarrow> getu4 (backslash # CHR ''u'' # a # b # c # d # xs) =
     Some (hex_val a * 4096 + hex_val b * 256 + hex_val c * 16 + hex_val d)"
  by (simp add: getu4_def)

lemma getu4_u_escape: "\<lbrakk> 0 \<le> n; n < 0x10000 \<rbrakk> \<Longrightarrow> getu4 (u_escape n @ xs) = Some n"
proof -
  assume n: "0 \<le> n" "n < 0x10000"
  have v: "hex_val (hex_digit (n div 4096)) = n div 4096" "hex_val (hex_digit (n div 256 mod 16)) = n div 256 mod 16"
    "hex_val (hex_digit (n div 16 mod 16)) = n div 16 mod 16" "hex_val (hex_digit (n mod 16)) = n mod 16"
    by (rule hex_digit_props(2); use n in simp)+
  have d: "n div 16 div 16 = n div 256" "n div 256 div 16 = n div 4096" by (simp_all add: zdiv_zmult2_eq [symmetric])
  have "n div 4096 * 4096 + n div 256 mod 16 * 256 + n div 16 mod 16 * 16 + n mod 16 = n"
    using div_mult_mod_eq [of n 16] div_mult_mod_eq [of "n div 16" 16] div_mult_mod_eq [of "n div 256" 16]
    unfolding d by linarith
  then show ?thesis unfolding u_escape_def append.simps getu4_hex [OF u_escape_hex [OF n]] by (simp only: v)
qed

lemma escaped_codes: "a \<in> {CHR ''<'', CHR ''>'', CHR ''&''} \<Longrightarrow> code a \<in> {0x3C, 0x3E, 0x26}"
  by (auto simp: code_def)

lemma raw_ok_html: "raw_ok s \<Longrightarrow> raw_ok (html_escape s)"
proof (induction s rule: raw_ok.induct)
  case (2 c cs)
  show ?case
  proof (cases c cs rule: html_escape_cases)
    case ascii
    then have "c \<noteq> quote_char" "c \<noteq> backslash" by auto
    then have "raw_ok (html_escape cs)" using 2 by simp
    moreover have "0 \<le> code c" "code c < 0x10000" using escaped_codes [OF ascii(1)] by auto
    ultimately show ?thesis using ascii(2) raw_ok_u_escape by simp
  next
    case (separator b d ds)
    then have q: "c \<noteq> quote_char" "c \<noteq> backslash" by (auto simp: code_def)
    have e: "b \<noteq> quote_char" "b \<noteq> backslash" "d \<noteq> quote_char" "d \<noteq> backslash"
      using separator(3,4) by (auto simp: code_def)
    have "raw_ok (html_escape cs)" using 2 q by simp
    then have "raw_ok (html_escape ds)" unfolding separator(6) using e by simp
    moreover have "0 \<le> 0x2000 + (code d - 0x80)" "0x2000 + (code d - 0x80) < 0x10000" using separator(4) by auto
    ultimately show ?thesis using separator(5) raw_ok_u_escape by simp
  next
    case plain
    show ?thesis
    proof (cases "c = backslash")
      case True
      with 2(3) obtain n where n: "escape_len cs = Some n" "raw_ok (drop n cs)" by (auto split: option.splits)
      have "html_escape cs = take n cs @ html_escape (drop n cs)"
        using html_escape_skip [OF escape_plain [OF n(1)], of "drop n cs"] by simp
      moreover have "escape_len (take n cs @ html_escape (drop n cs)) = Some n" "n \<le> length cs"
        using escape_len_append [OF escape_len_take [OF n(1)]] escape_len_append [OF n(1)] by simp_all
      moreover have "raw_ok (html_escape (drop n cs))" using 2(1) True n by simp
      ultimately show ?thesis using plain(1) True by simp
    qed (use 2 plain in \<open>auto split: if_splits\<close>)
  qed
qed simp


section \<open>What a literal means\<close>

text \<open>The encoder's escapes do not change what a literal decodes to.\<close>

lemma byte_list_cases:
  obtains "cs = []" | x where "cs = [x]" | x y where "cs = [x, y]" | x y z ds where "cs = x # y # z # ds"
  by (metis list.exhaust)

lemma utf8_len_cont: "utf8_len (c # takeWhile (\<lambda>x. cont (code x)) cs) = utf8_len (c # cs)"
  by (cases cs rule: byte_list_cases) (simp_all add: utf8_len_def)

lemma plain_cont: "cont (code b) \<Longrightarrow> plain b"
  by (auto simp: plain_def cont_def code_def)

lemma html_escape_cont: "takeWhile (\<lambda>x. cont (code x)) (html_escape cs) = takeWhile (\<lambda>x. cont (code x)) cs"
proof (induction cs)
  case (Cons a cs)
  have b: "\<not> cont (code backslash)" "cont (code a) \<Longrightarrow> code a \<noteq> 0xE2" by (simp_all add: cont_def code_def)
  show ?case
  proof (cases a cs rule: html_escape_cases)
    case ascii
    then have "\<not> cont (code a)" using escaped_codes [OF ascii(1)] by (auto simp: cont_def)
    then show ?thesis using ascii(2) b(1) by (simp add: u_escape_app)
  next
    case separator
    then show ?thesis using b by (auto simp: u_escape_app)
  qed (use Cons.IH in simp)
qed simp

lemma utf8_len_bound: "utf8_len (c # cs) \<le> Suc (length (takeWhile (\<lambda>x. cont (code x)) cs))"
proof -
  have "utf8_len (c # ds) \<le> Suc (length ds)" for ds
    by (cases ds rule: byte_list_cases) (simp_all add: utf8_len_def)
  from this [of "takeWhile (\<lambda>x. cont (code x)) cs"] show ?thesis by (simp only: utf8_len_cont)
qed

lemma html_escape_utf8:
  fixes c :: char and cs :: string
  defines "n \<equiv> utf8_len (c # cs) - 1"
  shows "utf8_len (c # html_escape cs) = utf8_len (c # cs)"
    "take n (html_escape cs) = take n cs" "drop n (html_escape cs) = html_escape (drop n cs)"
proof -
  let ?P = "\<lambda>x. cont (code x)"
  show "utf8_len (c # html_escape cs) = utf8_len (c # cs)"
    using utf8_len_cont [of c cs] utf8_len_cont [of c "html_escape cs"] by (simp add: html_escape_cont)
  have n: "n \<le> length (takeWhile ?P cs)" using utf8_len_bound [of c cs] by (simp add: n_def)
  then have t: "take n cs = take n (takeWhile ?P cs)"
    by (metis append_take_drop_id take_append takeWhile_eq_take takeWhile_dropWhile_id diff_is_0_eq' take0 append_Nil2)
  have "\<forall>x \<in> set (take n cs). ?P x" unfolding t by (meson in_set_takeD set_takeWhileD)
  then have "list_all plain (take n cs)" by (auto simp: list_all_iff plain_cont)
  then have "html_escape cs = take n cs @ html_escape (drop n cs)"
    using html_escape_skip [of "take n cs" "drop n cs"] by simp
  moreover have "n \<le> length cs" using n length_takeWhile_le [of ?P cs] by linarith
  ultimately show "take n (html_escape cs) = take n cs" "drop n (html_escape cs) = html_escape (drop n cs)"
    by simp_all
qed


lemma getu4_none: "hd s \<noteq> backslash \<Longrightarrow> getu4 s = None"
  by (auto simp: getu4_def split: list.split)

lemma getu4_simple: "simple_escape e \<Longrightarrow> getu4 (b # e # ds) = None"
  by (auto simp: getu4_def simple_escape_def split: list.split)

text \<open>A following escape is kept, or is one the encoder made, which is no surrogate.\<close>

lemma getu4_html:
  assumes "raw_ok ds"
  shows "getu4 (html_escape ds) = getu4 ds \<and> (getu4 ds \<noteq> None \<longrightarrow> drop 6 (html_escape ds) = html_escape (drop 6 ds) \<and> raw_ok (drop 6 ds))
     \<or> getu4 ds = None \<and> (\<exists>r < 0xD800. getu4 (html_escape ds) = Some r)"
proof (cases ds)
  case (Cons a cs)
  show ?thesis
  proof (cases "a = backslash")
    case True
    then obtain n where n: "escape_len cs = Some n" "raw_ok (drop n cs)"
      using assms Cons by (auto split: option.splits)
    have h: "html_escape ds = a # take n cs @ html_escape (drop n cs)"
      using html_escape_skip [of "a # take n cs" "drop n cs"] escape_plain [OF n(1)] Cons True plain_escape(3) by simp
    from n(1) show ?thesis
    proof (cases rule: escape_len_cases)
      case (1 e es)
      then show ?thesis using h Cons n(2) by (simp add: getu4_simple)
    next
      case (2 h1 h2 h3 h4 es)
      then show ?thesis using h Cons n(2) True by (simp add: getu4_def numeral_eq_Suc)
    qed
  next
    case a: False
    then have none: "getu4 ds = None" using Cons by (simp add: getu4_none)
    show ?thesis
    proof (cases a cs rule: html_escape_cases)
      case ascii
      then have "code a \<in> {0x3C, 0x3E, 0x26}" by (simp only: escaped_codes)
      then have "getu4 (html_escape ds) = Some (code a) \<and> code a < 0xD800"
        using getu4_u_escape [of "code a"] ascii(2) Cons by auto
      with none show ?thesis by blast
    next
      case (separator b c es)
      then have "getu4 (html_escape ds) = Some (0x2000 + (code c - 0x80))" "0x2000 + (code c - 0x80) < 0xD800"
        using getu4_u_escape [of "0x2000 + (code c - 0x80)"] Cons by auto
      with none show ?thesis by blast
    next
      case plain
      with a none show ?thesis using Cons by (simp add: getu4_none)
    qed
  qed
qed (simp add: getu4_def)

declare unquote.simps(2) [simp del]

lemma unquote_step: "s \<noteq> [] \<Longrightarrow> unquote s = fst (unquote_one s) @ unquote (drop (snd (unquote_one s)) s)"
  by (cases s) (simp_all add: unquote.simps split_beta)

lemma byte_code: "code a = n \<Longrightarrow> byte n = a"
  by (auto simp: code_def)

lemma unquote_utf8:
  assumes "c \<noteq> backslash"
  shows "unquote (c # cs) = (if utf8_len (c # cs) = 0 then encode_rune 0xFFFD @ unquote cs
     else c # take (utf8_len (c # cs) - 1) cs @ unquote (drop (utf8_len (c # cs) - 1) cs))"
  using assms by (cases "utf8_len (c # cs)") (simp_all add: unquote_step [of "c # cs"] unquote_one_def)

lemma unquote_simple: "simple_escape e \<Longrightarrow> unquote (backslash # e # ds) = unescape_char e # unquote ds"
  by (simp add: unquote_step [of "backslash # e # ds"] unquote_one_def getu4_simple numeral_2_eq_2)

lemma unquote_unit:
  assumes "getu4 (x @ ds) = Some rr" "length x = 6" "hd (x @ ds) = backslash"
  shows "unquote (x @ ds) =
     (if 0xD800 \<le> rr \<and> rr \<le> 0xDFFF then
        (case getu4 ds of
           Some rr1 \<Rightarrow>
             if rr \<le> 0xDBFF \<and> 0xDC00 \<le> rr1 \<and> rr1 \<le> 0xDFFF
             then encode_rune ((rr - 0xD800) * 0x400 + (rr1 - 0xDC00) + 0x10000) @ unquote (drop 6 ds)
             else encode_rune 0xFFFD @ unquote ds
         | None \<Rightarrow> encode_rune 0xFFFD @ unquote ds)
      else encode_rune rr @ unquote ds)"
  using assms unquote_step [of "x @ ds"] by (cases x) (auto simp: unquote_one_def split: option.split)

lemma unquote_u_escape: "\<lbrakk> 0 \<le> n; n < 0xD800 \<rbrakk> \<Longrightarrow> unquote (u_escape n @ ds) = encode_rune n @ unquote ds"
  by (subst unquote_unit [where rr = n]) (simp_all add: getu4_u_escape, simp_all add: u_escape_def)

lemma unquote_ascii: "a \<in> {CHR ''<'', CHR ''>'', CHR ''&''} \<Longrightarrow>
   unquote (a # cs) = a # unquote cs \<and> unquote (u_escape (code a) @ cs) = a # unquote cs"
proof -
  assume a: "a \<in> {CHR ''<'', CHR ''>'', CHR ''&''}"
  have c: "code a \<in> {0x3C, 0x3E, 0x26}" using a by (rule escaped_codes)
  have "a \<noteq> backslash" "utf8_len (a # cs) = 1" using a c by (auto simp: utf8_len_def)
  moreover have "encode_rune (code a) = [a]" using c byte_code [of a] by (auto simp: encode_rune_def)
  moreover have "unquote (u_escape (code a) @ cs) = encode_rune (code a) @ unquote cs"
    using c by (intro unquote_u_escape) auto
  ultimately show ?thesis by (simp add: unquote_utf8)
qed

lemma unquote_separator:
  assumes "code a = 0xE2" "code b = 0x80" "code c = 0xA8 \<or> code c = 0xA9"
  shows "unquote (a # b # c # ds) = a # b # c # unquote ds \<and>
    unquote (u_escape (0x2000 + (code c - 0x80)) @ ds) = a # b # c # unquote ds"
proof -
  let ?r = "0x2000 + (code c - 0x80)"
  have "a \<noteq> backslash" "utf8_len (a # b # c # ds) = 3" using assms by (auto simp: utf8_len_def cont_def code_def)
  moreover have "encode_rune ?r = [a, b, c]"
    using assms byte_code [OF assms(1)] byte_code [OF assms(2)] byte_code [of c] by (auto simp: encode_rune_def)
  moreover have "unquote (u_escape ?r @ ds) = encode_rune ?r @ unquote ds"
    using assms(3) by (intro unquote_u_escape) auto
  ultimately show ?thesis by (simp add: unquote_utf8 numeral_2_eq_2)
qed

lemma raw_ok_drop_cont: "raw_ok cs \<Longrightarrow> n \<le> length (takeWhile (\<lambda>x. cont (code x)) cs) \<Longrightarrow> raw_ok (drop n cs)"
proof (induction n arbitrary: cs)
  case (Suc n)
  then obtain c ds where c: "cs = c # ds" "cont (code c)" "n \<le> length (takeWhile (\<lambda>x. cont (code x)) ds)"
    by (cases cs) (auto split: if_splits)
  then have "c \<noteq> quote_char" "c \<noteq> backslash" by (auto simp: cont_def code_def)
  with Suc c show ?case by simp
qed simp

lemma unquote_html_escape:
  assumes n: "escape_len cs = Some n" "raw_ok (drop n cs)"
    and IH: "\<And>k. raw_ok (drop k cs) \<Longrightarrow> unquote (html_escape (drop k cs)) = unquote (drop k cs)"
  shows "unquote (html_escape (backslash # cs)) = unquote (backslash # cs)"
proof -
  let ?s = "backslash # cs"
  have h: "html_escape ?s = backslash # take n cs @ html_escape (drop n cs)"
    using html_escape_skip [of "backslash # take n cs" "drop n cs"] escape_plain [OF n(1)]  plain_escape(3) by simp
  from n(1) show ?thesis
  proof (cases rule: escape_len_cases)
    case (1 e es)
    then show ?thesis using h  n(2) IH [of 1] by (simp add: unquote_simple)
  next
    case (2 h1 h2 h3 h4 es)
    let ?x = "[backslash, CHR ''u'', h1, h2, h3, h4]"
    obtain rr where "getu4 (?x @ xs) = Some rr" for xs using 2(2-5) by (simp add: getu4_def)
    then have u: "getu4 (?x @ es) = Some rr" "getu4 (?x @ html_escape es) = Some rr" by blast+
    have es: "raw_ok es" "unquote (html_escape es) = unquote es" using n(2) 2 IH [of 5] by (simp_all add: numeral_eq_Suc)
    have d6: "unquote (html_escape (drop 6 es)) = unquote (drop 6 es)" if "raw_ok (drop 6 es)"
      using IH [of 11] that 2(1) by (simp add: numeral_eq_Suc)
    have x: "length ?x = 6" "hd (?x @ ys) = backslash" for ys by simp_all
    have "unquote (?x @ html_escape es) = unquote (?x @ es)"
      using getu4_html [OF es(1)] d6 es(2)
      unfolding unquote_unit [OF u(1) x] unquote_unit [OF u(2) x]
      by (cases "getu4 es") auto
    moreover have "html_escape ?s = ?x @ html_escape es" "?s = ?x @ es"
      using h  2 by (simp_all add: numeral_eq_Suc)
    ultimately show ?thesis by simp
  qed
qed

lemma unquote_html: "raw_ok s \<Longrightarrow> unquote (html_escape s) = unquote s"
proof (induction s rule: length_induct)
  case (1 s)
  show ?case
  proof (cases s)
    case (Cons a cs)
    have IH: "unquote (html_escape (drop k cs)) = unquote (drop k cs)" if "raw_ok (drop k cs)" for k
      using 1(1) that Cons by simp
    show ?thesis
    proof (cases "a = backslash")
      case True
      then obtain n where n: "escape_len cs = Some n" "raw_ok (drop n cs)"
        using 1(2) Cons by (auto split: option.splits)
      show ?thesis using Cons True unquote_html_escape [OF n IH] by simp
    next
      case a: False
      then have cs: "raw_ok cs" using 1(2) Cons by (simp split: if_splits)
      show ?thesis
      proof (cases a cs rule: html_escape_cases)
        case ascii
        then show ?thesis using Cons IH [of 0] cs unquote_ascii [OF ascii(1)] by simp
      next
        case (separator b c ds)
        have "raw_ok ds" using cs separator(1,3,4) by (auto simp: code_def split: if_splits)
        then show ?thesis
          using Cons separator IH [of 2] unquote_separator [OF separator(2-4)] by (simp add: numeral_2_eq_2)
      next
        case plain
        let ?n = "utf8_len (a # cs) - 1"
        have r: "raw_ok (drop ?n cs)"
          by (rule raw_ok_drop_cont [OF cs]) (use utf8_len_bound [of a cs] in simp)
        show ?thesis
          unfolding Cons plain(1) unquote_utf8 [OF a] html_escape_utf8 using IH [OF r] IH [of 0] cs by simp
      qed
    qed
  qed simp
qed


section \<open>Quoting\<close>

text \<open>Texts that are a sequence of UTF-8 encoded characters.\<close>

inductive utf8_text :: "string \<Rightarrow> bool" where
  empty: "utf8_text []"
| char: "\<lbrakk> x \<noteq> []; utf8_len (x @ s) = length x; utf8_text s \<rbrakk> \<Longrightarrow> utf8_text (x @ s)"

lemma utf8_len_prefix: "x \<noteq> [] \<Longrightarrow> utf8_len (x @ s) = length x \<Longrightarrow> utf8_len (x @ t) = length x"
proof -
  assume x: "x \<noteq> []" "utf8_len (x @ s) = length x"
  obtain a ys where a: "x = a # ys" using x(1) by (cases x) auto
  show ?thesis
  proof (cases ys rule: byte_list_cases)
    case 1
    then show ?thesis using x a by (auto simp: utf8_len_def split: if_splits list.splits)
  next
    case (2 b)
    then show ?thesis using x a by (auto simp: utf8_len_def split: if_splits list.splits)
  next
    case (3 b c)
    then show ?thesis using x a by (auto simp: utf8_len_def split: if_splits list.splits)
  next
    case (4 b c d es)
    then show ?thesis using x a by (auto simp: utf8_len_def split: if_splits)
  qed
qed

lemma utf8_len_ascii: "utf8_len (c # cs) = 1 \<Longrightarrow> code c < 0x80"
  by (cases cs rule: byte_list_cases) (auto simp: utf8_len_def split: if_splits)

lemma utf8_chunk:
  assumes "x \<noteq> []" "utf8_len (x @ s) = length x"
  obtains c where "x = [c]" "code c < 0x80" | c cs where "x = c # cs" "\<forall>b \<in> set x. 0x80 \<le> code b"
proof -
  obtain c cs where x: "x = c # cs" using assms(1) by (cases x) auto
  show ?thesis
  proof (cases "code c < 0x80")
    case True
    then have "utf8_len (x @ s) = 1" using x by (simp add: utf8_len_def)
    then show ?thesis using that(1) x assms(2) True by simp
  next
    case False
    have "utf8_len x = length x" using utf8_len_prefix [OF assms, of "[]"] by simp
    then have "length cs \<le> length (takeWhile (\<lambda>x. cont (code x)) cs)" using utf8_len_bound [of c cs] x by simp
    then have "takeWhile (\<lambda>x. cont (code x)) cs = cs"
      by (metis length_takeWhile_le order_antisym takeWhile_eq_take take_all)
    then have "\<forall>b \<in> set cs. cont (code b)" by (metis set_takeWhileD)
    then show ?thesis using that(2) x False by (auto simp: cont_def)
  qed
qed

lemma quote_one_high: "0x80 \<le> code c \<Longrightarrow> quote_one c = [c]"
  by (auto simp: quote_one_def code_def)

lemma code_range: "0 \<le> code c" "code c < 256"
  using pos_mod_bound [of 256 "code c"] pos_mod_sign [of 256 "code c"] by (simp_all add: code_def)

lemma quote_one_ascii: "code c < 0x80 \<Longrightarrow> raw_ok s \<Longrightarrow> raw_ok (quote_one c @ s)"
  using raw_ok_u_escape [of "code c" s] code_range [of c]
  by (auto simp: quote_one_def escape_len_def simple_escape_def is_control_def code_def)

lemma unquote_quote_one:
  assumes "code c < 0x80"
  shows "unquote (quote_one c @ s) = c # unquote s"
proof -
  consider "c = quote_char \<or> c = backslash" | "code c \<in> {8, 9, 10, 12, 13}"
    | "code c < 32" "code c \<notin> {8, 9, 10, 12, 13}" "c \<noteq> quote_char" "c \<noteq> backslash"
    | "32 \<le> code c" "c \<noteq> quote_char" "c \<noteq> backslash" by fastforce
  then show ?thesis
  proof cases
    case 1
    then show ?thesis by (auto simp: quote_one_def unquote_simple simple_escape_def unescape_char_def)
  next
    case 2
    moreover from this have "c \<noteq> quote_char" "c \<noteq> backslash" by (auto simp: code_def)
    ultimately show ?thesis using byte_code [of c]
      by (auto simp: quote_one_def unquote_simple simple_escape_def unescape_char_def)
  next
    case 3
    then have "quote_one c = u_escape (code c)" by (simp add: quote_one_def)
    moreover have "encode_rune (code c) = [c]" using assms byte_code [of c] by (simp add: encode_rune_def)
    ultimately show ?thesis using unquote_u_escape [of "code c" s] code_range [of c] 3(1) by simp
  next
    case 4
    moreover have "utf8_len (c # s) = 1" using assms by (simp add: utf8_len_def)
    ultimately show ?thesis by (simp add: quote_one_def unquote_utf8)
  qed
qed


lemma quote_raw_simps [simp]: "quote_raw [] = []" "quote_raw (c # cs) = quote_one c @ quote_raw cs"
  "quote_raw (xs @ ys) = quote_raw xs @ quote_raw ys"
  by (simp_all add: quote_raw_def)

lemma quote_raw_high: "\<forall>b \<in> set x. 0x80 \<le> code b \<Longrightarrow> quote_raw x = x"
  by (induction x) (simp_all add: quote_one_high)

lemma raw_ok_high: "0x80 \<le> code c \<Longrightarrow> raw_ok (c # s) = raw_ok s"
  by (auto simp: code_def is_control_def)

lemma raw_ok_quote: "raw_ok (quote_raw s)"
proof (induction s)
  case (Cons c s)
  then show ?case
    by (cases "code c < 0x80") (simp_all add: quote_one_ascii quote_one_high raw_ok_high del: raw_ok.simps)
qed simp

lemma unquote_quote: "utf8_text s \<Longrightarrow> unquote (quote_raw s) = s"
proof (induction rule: utf8_text.induct)
  case (char x s)
  from char(1,2) show ?case
  proof (cases rule: utf8_chunk)
    case (1 c)
    then show ?thesis using char by (simp add: unquote_quote_one)
  next
    case (2 c cs)
    have "utf8_len (x @ quote_raw s) = length x" by (rule utf8_len_prefix [OF char(1,2)])
    moreover have "c \<noteq> backslash" using 2 by (auto simp: code_def)
    ultimately have "unquote (x @ quote_raw s) = x @ unquote (quote_raw s)"
      using 2(1) unquote_utf8 [of c "cs @ quote_raw s"] by simp
    then show ?thesis using char quote_raw_high [OF 2(2)] by simp
  qed
qed simp

lemma code_byte: "0 \<le> n \<Longrightarrow> n < 256 \<Longrightarrow> code (byte n) = n"
  by (simp add: code_def)

lemma encode_rune_utf8:
  assumes "0 \<le> r"
  shows "encode_rune r \<noteq> [] \<and> utf8_len (encode_rune r @ s) = length (encode_rune r)"
proof -
  define q where "q = (if 0x10FFFF < r \<or> 0xD800 \<le> r \<and> r \<le> 0xDFFF then 0xFFFD else r)"
  have q: "0 \<le> q" "q \<le> 0x10FFFF" "\<not> (0xD800 \<le> q \<and> q \<le> 0xDFFF)" using assms by (auto simp: q_def)
  define d where "d = q div 0x40"
  define c where "c = q mod 0x40"
  define a where "a = d div 0x40"
  define b where "b = d mod 0x40"
  define e where "e = a div 0x40"
  define f where "f = a mod 0x40"
  have dec: "q = 64 * d + c" "d = 64 * a + b" "a = 64 * e + f" by (simp_all add: d_def c_def a_def b_def e_def f_def)
  have rng: "0 \<le> c" "c < 64" "0 \<le> b" "b < 64" "0 \<le> f" "f < 64" "0 \<le> d" "0 \<le> a" "0 \<le> e"
    using q(1) by (simp_all add: c_def b_def f_def d_def a_def e_def)
  have eqs: "q div 0x1000 = a" "q div 0x40000 = e" by (simp_all add: d_def a_def e_def zdiv_zmult2_eq [symmetric])
  have tail: "code (byte (0x80 + n)) = 0x80 + n" "cont (0x80 + n)" if "0 \<le> n" "n < 64" for n :: int
    using that by (simp_all add: cont_def code_byte)
  note enc = encode_rune_def q_def [symmetric] d_def [symmetric] c_def [symmetric] b_def [symmetric] eqs f_def [symmetric]
    tail rng(1-6) utf8_len_def code_byte Let_def
  consider "q < 0x80" | "0x80 \<le> q" "q < 0x800" | "0x800 \<le> q" "q < 0x10000" | "0x10000 \<le> q" by linarith
  then show ?thesis
  proof cases
    case 1
    then show ?thesis using q by (simp add: enc)
  next
    case 2
    then have "2 \<le> d" "d \<le> 31" using dec rng by linarith+
    then show ?thesis using 2 by (simp add: enc)
  next
    case 3
    then have "a \<le> 15" "a = 0 \<longrightarrow> 32 \<le> b" "a = 13 \<longrightarrow> b \<le> 31" using dec rng q by linarith+
    then show ?thesis using 3 rng(8) by (simp add: enc)
  next
    case 4
    then have "e \<le> 4" "e = 0 \<longrightarrow> 16 \<le> f" "e = 4 \<longrightarrow> f \<le> 15" using dec rng q by linarith+
    then show ?thesis using 4 rng(9) by (simp add: enc)
  qed
qed


lemma utf8_text_rune: "0 \<le> r \<Longrightarrow> utf8_text s \<Longrightarrow> utf8_text (encode_rune r @ s)"
  using encode_rune_utf8 [of r s] by (auto intro: utf8_text.char)

lemma hex_val_nonneg: "is_hex a \<Longrightarrow> 0 \<le> hex_val a"
  by (auto simp: is_hex_def is_digit_def hex_val_def code_def Let_def)

lemma getu4_nonneg: "getu4 s = Some rr \<Longrightarrow> 0 \<le> rr"
  by (auto simp: getu4_def hex_val_nonneg split: list.splits if_splits)

lemma utf8_len_le: "utf8_len s \<le> length s"
proof (cases s)
  case (Cons c cs)
  then show ?thesis using utf8_len_bound [of c cs] length_takeWhile_le [of "\<lambda>x. cont (code x)" cs] by simp
qed (simp add: utf8_len_def)

lemma raw_ok_drop_unit:
  assumes "raw_ok s" "getu4 s = Some rr"
  shows "raw_ok (drop 6 s)"
proof -
  obtain h1 h2 h3 h4 ds where s: "s = backslash # CHR ''u'' # h1 # h2 # h3 # h4 # ds" "list_all is_hex [h1, h2, h3, h4]"
    using assms(2) by (auto simp: getu4_def split: list.splits if_splits)
  then have "escape_len (CHR ''u'' # h1 # h2 # h3 # h4 # ds) = Some 5"
    by (simp add: escape_len_def simple_escape_def numeral_eq_Suc)
  then show ?thesis using assms(1) s(1) by (simp add: numeral_eq_Suc)
qed

lemma utf8_text_ascii: "code c < 0x80 \<Longrightarrow> utf8_text s \<Longrightarrow> utf8_text (c # s)"
  using utf8_text.char [of "[c]" s] by (simp add: utf8_len_def)

lemma unescape_ascii: "simple_escape e \<Longrightarrow> code (unescape_char e) < 0x80"
proof -
  have c: "code (CHR ''/'') < 0x80" "code quote_char < 0x80" "code backslash < 0x80" by (simp_all add: code_def)
  have b: "code (byte n) < 0x80" if "n \<in> {8, 9, 10, 12, 13}" for n using that by (auto simp: code_byte)
  assume "simple_escape e"
  then have "e \<in> {CHR ''b'', CHR ''f'', CHR ''n'', CHR ''r'', CHR ''t'', CHR ''/'', quote_char, backslash}"
    by (auto simp: simple_escape_def)
  then show ?thesis
    by (elim insertE emptyE; simp add: unescape_char_def b c)
qed

text \<open>What a literal decodes to is always UTF-8.\<close>

lemma utf8_text_escape:
  assumes n: "escape_len cs = Some n" "raw_ok (drop n cs)"
    and IH: "\<And>k. raw_ok (drop k cs) \<Longrightarrow> utf8_text (unquote (drop k cs))"
  shows "utf8_text (unquote (backslash # cs))"
proof -
  from n(1) show ?thesis
  proof (cases rule: escape_len_cases)
    case (1 e es)
    then have "utf8_text (unquote es)" using IH [of 1] n(2) by simp
    with unescape_ascii [OF 1(2)] have "utf8_text (unescape_char e # unquote es)" by (simp add: utf8_text_ascii)
    then show ?thesis using 1 by (simp add: unquote_simple)
  next
    case (2 h1 h2 h3 h4 es)
    let ?x = "[backslash, CHR ''u'', h1, h2, h3, h4]"
    have s: "backslash # cs = ?x @ es" using 2 by simp
    obtain rr where rr: "getu4 (?x @ es) = Some rr" using 2(2-5) by (simp add: getu4_def)
    have x: "length ?x = 6" "hd (?x @ es) = backslash" by simp_all
    have es: "raw_ok es" using n(2) 2 by (simp add: numeral_eq_Suc)
    have s6: "utf8_text (unquote es)" using IH [of 5] 2(1) es by (simp add: numeral_eq_Suc)
    have s12: "utf8_text (unquote (drop 6 es))" if "getu4 es = Some rr1" for rr1
      using IH [of 11] 2(1) raw_ok_drop_unit [OF es that] by (simp add: numeral_eq_Suc)
    show ?thesis
      unfolding s unquote_unit [OF rr x]
      using getu4_nonneg [OF rr] getu4_nonneg [of es] s6 s12
      by (cases "getu4 es") (simp_all add: utf8_text_rune)
  qed
qed

lemma utf8_text_plain:
  assumes s: "s = a # cs" "a \<noteq> backslash" "raw_ok cs"
    and IH: "\<And>k. raw_ok (drop k s) \<Longrightarrow> 0 < k \<Longrightarrow> utf8_text (unquote (drop k s))"
  shows "utf8_text (unquote s)"
proof -
  note step = unquote_step [of s]
  let ?n = "utf8_len s"
  show ?thesis
  proof (cases "?n = 0")
    case True
    then show ?thesis using IH [of 1] s by (simp add: unquote_utf8 utf8_text_rune)
  next
    case False
    have "raw_ok (drop (?n - 1) cs)"
      by (rule raw_ok_drop_cont [OF s(3)]) (use utf8_len_bound [of a cs] s in simp)
    then have "raw_ok (drop ?n s)" using False s by (simp add: drop_Cons')
    then have d: "utf8_text (unquote (drop ?n s))" by (rule IH) (use False s in simp_all)
    have "utf8_text (take ?n s @ unquote (drop ?n s))"
    proof (rule utf8_text.char [OF _ _ d])
      show "take ?n s \<noteq> []" using False s by simp
      have "utf8_len (take ?n s @ drop ?n s) = length (take ?n s)" using utf8_len_le [of s] by simp
      then show "utf8_len (take ?n s @ unquote (drop ?n s)) = length (take ?n s)"
        by (rule utf8_len_prefix [OF \<open>take ?n s \<noteq> []\<close>])
    qed
    then show ?thesis using step False s by (simp add: unquote_one_def)
  qed
qed

lemma utf8_text_unquote: "raw_ok s \<Longrightarrow> utf8_text (unquote s)"
proof (induction s rule: length_induct)
  case (1 s)
  then have IH: "raw_ok (drop k s) \<Longrightarrow> 0 < k \<Longrightarrow> s \<noteq> [] \<Longrightarrow> utf8_text (unquote (drop k s))" for k by simp
  show ?case
  proof (cases s)
    case (Cons a cs)
    show ?thesis
    proof (cases "a = backslash")
      case True
      then obtain n where n: "escape_len cs = Some n" "raw_ok (drop n cs)"
        using 1(2) Cons by (auto split: option.splits)
      have "utf8_text (unquote (drop k cs))" if "raw_ok (drop k cs)" for k using IH [of "Suc k"] that Cons by simp
      then show ?thesis using utf8_text_escape [OF n] Cons True by simp
    next
      case False
      then have "raw_ok cs" using 1(2) Cons by (simp split: if_splits)
      then show ?thesis by (rule utf8_text_plain [OF Cons False]) (use IH Cons in simp)
    qed
  qed (simp add: utf8_text.empty)
qed


section \<open>Numbers\<close>

definition num_ok :: "string \<Rightarrow> bool" where
  "num_ok s \<longleftrightarrow> skip_number s = Some []"

text \<open>What may follow a value in a printed text.\<close>

definition delim :: "string \<Rightarrow> bool" where
  "delim s \<longleftrightarrow> s = [] \<or> hd s \<in> {CHR '','', CHR '']'', CHR ''}''}"

lemma delim_dropWhile: "delim x \<Longrightarrow> dropWhile is_digit (cs @ x) = dropWhile is_digit cs @ x"
  by (induction cs) (cases x; auto simp: delim_def is_digit_def)+

lemma skip_int_append: "skip_int s = Some u \<Longrightarrow> delim x \<Longrightarrow> skip_int (s @ x) = Some (u @ x)"
  by (auto simp: skip_int_def delim_dropWhile split: list.splits if_splits)

lemma skip_frac_append: "skip_frac s = Some u \<Longrightarrow> delim x \<Longrightarrow> skip_frac (s @ x) = Some (u @ x)"
proof (cases s rule: byte_list_cases)
  case 1
  assume a: "skip_frac s = Some u" "delim x"
  then show ?thesis using 1 by (cases x rule: byte_list_cases) (auto simp: skip_frac_def delim_def)
qed (use delim_dropWhile [of x "[]"] in \<open>auto simp: skip_frac_def delim_dropWhile split: if_splits list.split\<close>)

lemma skip_exp_append: "skip_exp s = Some u \<Longrightarrow> delim x \<Longrightarrow> skip_exp (s @ x) = Some (u @ x)"
proof -
  assume a: "skip_exp s = Some u" "delim x"
  show ?thesis
  proof (cases s)
    case Nil
    then show ?thesis using a by (cases x) (auto simp: skip_exp_def delim_def)
  next
    case (Cons c cs)
    show ?thesis
    proof (cases "c = CHR ''e'' \<or> c = CHR ''E''")
      case True
      then obtain d ds where d: "skip_sign cs = d # ds" "is_digit d" "u = dropWhile is_digit ds"
        using a(1) Cons by (auto simp: skip_exp_def split: list.splits if_splits)
      have "skip_sign (cs @ x) = skip_sign cs @ x" using d(1) by (cases cs) (auto simp: skip_sign_def)
      then show ?thesis using True Cons d a(2) by (auto simp: skip_exp_def delim_dropWhile)
    qed (use a Cons in \<open>auto simp: skip_exp_def\<close>)
  qed
qed

definition unsigned :: "string \<Rightarrow> string" where
  "unsigned s = (case s of c # cs \<Rightarrow> if c = CHR ''-'' then cs else s | [] \<Rightarrow> [])"

lemma skip_number_Some: "skip_number s = Some w \<longleftrightarrow>
   (\<exists>u v. skip_int (unsigned s) = Some u \<and> skip_frac u = Some v \<and> skip_exp v = Some w)"
  unfolding skip_number_def unsigned_def by (auto simp: bind_eq_Some_conv)

lemma scan_number_raw: "num_ok s \<Longrightarrow> delim x \<Longrightarrow> scan_number (s @ x) = Some (s, x)"
proof -
  assume a: "num_ok s" "delim x"
  then obtain u v where "skip_int (unsigned s) = Some u" "skip_frac u = Some v" "skip_exp v = Some []"
    by (auto simp: num_ok_def skip_number_Some)
  moreover from this have "unsigned (s @ x) = unsigned s @ x"
    by (cases s) (auto simp: unsigned_def skip_int_def)
  ultimately have "skip_number (s @ x) = Some x"
    using skip_int_append skip_frac_append skip_exp_append a(2) by (fastforce simp: skip_number_Some)
  then show ?thesis by (simp add: scan_number_def)
qed

text \<open>What a scan takes is a number on its own.\<close>

abbreviation nodigit :: "string \<Rightarrow> bool" where "nodigit x \<equiv> x = [] \<or> \<not> is_digit (hd x)"

lemma dropWhile_nodigit: "nodigit x \<Longrightarrow> dropWhile is_digit (takeWhile is_digit cs @ x) = x"
  by (subst dropWhile_append2) (auto dest: set_takeWhileD simp: dropWhile_eq_self_iff)

lemma skip_int_split: "skip_int s = Some u \<Longrightarrow> \<exists>p. s = p @ u \<and> p \<noteq> [] \<and> hd p \<noteq> CHR ''-'' \<and> (\<forall>x. nodigit x \<longrightarrow> skip_int (p @ x) = Some x)"
proof -
  assume a: "skip_int s = Some u"
  then obtain c cs where s: "s = c # cs" by (cases s) (auto simp: skip_int_def)
  show ?thesis
  proof (cases "c = CHR ''0''")
    case True
    then show ?thesis using a s by (intro exI [of _ "[c]"]) (auto simp: skip_int_def)
  next
    case False
    then have "is_digit c" "u = dropWhile is_digit cs" using a s by (auto simp: skip_int_def split: if_splits)
    moreover from this have "c \<noteq> CHR ''-''" by (auto simp: is_digit_def)
    ultimately show ?thesis using False s
      by (intro exI [of _ "c # takeWhile is_digit cs"]) (auto simp: skip_int_def dropWhile_nodigit)
  qed
qed

lemma skip_frac_split: "skip_frac u = Some v \<Longrightarrow>
   \<exists>p. u = p @ v \<and> (p = [] \<or> hd p = CHR ''.'') \<and> (\<forall>x. nodigit x \<and> (x = [] \<or> hd x \<noteq> CHR ''.'') \<longrightarrow> skip_frac (p @ x) = Some x)"
proof -
  assume a: "skip_frac u = Some v"
  have self: "skip_frac x = Some x" if "x = [] \<or> hd x \<noteq> CHR ''.''" for x
    using that by (cases x rule: byte_list_cases) (auto simp: skip_frac_def)
  show ?thesis
  proof (cases "u \<noteq> [] \<and> hd u = CHR ''.''")
    case True
    then obtain d ds where d: "u = CHR ''.'' # d # ds" "is_digit d" "v = dropWhile is_digit ds"
      using a by (cases u rule: byte_list_cases) (auto simp: skip_frac_def split: if_splits)
    then show ?thesis
      by (intro exI [of _ "CHR ''.'' # d # takeWhile is_digit ds"]) (auto simp: skip_frac_def dropWhile_nodigit)
  next
    case False
    then have "v = u" using a self [of u] by auto
    then show ?thesis using self by (intro exI [of _ "[]"]) auto
  qed
qed

lemma skip_exp_split: "skip_exp v = Some w \<Longrightarrow>
   \<exists>p. v = p @ w \<and> (p = [] \<or> hd p \<in> {CHR ''e'', CHR ''E''}) \<and> skip_exp p = Some []"
proof -
  assume a: "skip_exp v = Some w"
  show ?thesis
  proof (cases "v \<noteq> [] \<and> hd v \<in> {CHR ''e'', CHR ''E''}")
    case True
    then obtain c cs where c: "v = c # cs" "c = CHR ''e'' \<or> c = CHR ''E''" by (cases v) auto
    then obtain d ds where d: "skip_sign cs = d # ds" "is_digit d" "w = dropWhile is_digit ds"
      using a by (auto simp: skip_exp_def split: list.splits if_splits)
    obtain sg where sg: "cs = sg @ d # ds" "skip_sign (sg @ d # takeWhile is_digit ds) = d # takeWhile is_digit ds"
      using d(1,2) by (cases cs) (auto simp: skip_sign_def is_digit_def split: if_splits)
    have "dropWhile is_digit (takeWhile is_digit ds) = []"
      using dropWhile_nodigit [of "[]" ds] by simp
    then show ?thesis
      using c d sg by (intro exI [of _ "c # sg @ d # takeWhile is_digit ds"]) (auto simp: skip_exp_def)
  next
    case False
    then have "w = v" using a by (cases v) (auto simp: skip_exp_def)
    then show ?thesis by (intro exI [of _ "[]"]) (auto simp: skip_exp_def)
  qed
qed

lemma scan_number_inv: "scan_number s = Some (r, rest) \<Longrightarrow> num_ok r \<and> s = r @ rest"
proof -
  assume "scan_number s = Some (r, rest)"
  then have a: "skip_number s = Some rest" "r = take (length s - length rest) s"
    by (auto simp: scan_number_def split: option.splits)
  then obtain u v where "skip_int (unsigned s) = Some u" "skip_frac u = Some v" "skip_exp v = Some rest"
    by (auto simp: skip_number_Some)
  note parts = this
  obtain p1 where p1: "unsigned s = p1 @ u" "p1 \<noteq> []" "hd p1 \<noteq> CHR ''-''" "\<And>x. nodigit x \<Longrightarrow> skip_int (p1 @ x) = Some x"
    using skip_int_split [OF parts(1)] by blast
  obtain p2 where p2: "u = p2 @ v" "p2 = [] \<or> hd p2 = CHR ''.''"
      "\<And>x. nodigit x \<Longrightarrow> x = [] \<or> hd x \<noteq> CHR ''.'' \<Longrightarrow> skip_frac (p2 @ x) = Some x"
    using skip_frac_split [OF parts(2)] by blast
  obtain p3 where p3: "v = p3 @ rest" "p3 = [] \<or> hd p3 \<in> {CHR ''e'', CHR ''E''}" "skip_exp p3 = Some []"
    using skip_exp_split [OF parts(3)] by blast
  obtain sg where sg: "s = sg @ unsigned s" "sg = [] \<or> sg = ''-''"
    by (rule that [of "if s \<noteq> [] \<and> hd s = CHR ''-'' then ''-'' else []"]) (auto simp: unsigned_def split: list.split)
  have r: "s = (sg @ p1 @ p2 @ p3) @ rest" using sg(1) p1(1) p2(1) p3(1) by simp
  then have "r = sg @ p1 @ p2 @ p3" using a(2) by simp
  moreover have "unsigned (sg @ p1 @ p2 @ p3) = p1 @ p2 @ p3" using sg(2) p1(2,3) by (cases p1) (auto simp: unsigned_def)
  moreover have e: "nodigit p3" "p3 = [] \<or> hd p3 \<noteq> CHR ''.''" using p3(2) by (auto simp: is_digit_def)
  have "nodigit (p2 @ p3)" using p2(2) e(1) by (cases p2) (auto simp: is_digit_def)
  then have "skip_int (p1 @ p2 @ p3) = Some (p2 @ p3)" by (rule p1(4))
  moreover have "skip_frac (p2 @ p3) = Some p3" by (rule p2(3) [OF e])
  ultimately have "skip_number r = Some []" using p3(3) by (simp add: skip_number_Some)
  then show ?thesis using r \<open>r = sg @ p1 @ p2 @ p3\<close> by (simp add: num_ok_def)
qed


section \<open>Documents\<close>

text \<open>
  The values that printing and parsing handle: literals and numbers in order, and containers
  nested at most as deep as the decoder allows. The argument counts the containers around a value.
\<close>

fun json_ok :: "nat \<Rightarrow> jval \<Rightarrow> bool" where
  "json_ok n (JStr s) = raw_ok s"
| "json_ok n (JNum s) = num_ok s"
| "json_ok n (JArr vs) = (int n < max_nesting \<and> (\<forall>v \<in> set vs. json_ok (Suc n) v))"
| "json_ok n (JObj ms) = (int n < max_nesting \<and> (\<forall>m \<in> set ms. raw_ok (fst m) \<and> json_ok (Suc n) (snd m)))"
| "json_ok n v = True"

fun on_strings :: "(string \<Rightarrow> string) \<Rightarrow> jval \<Rightarrow> jval" where
  "on_strings f (JStr s) = JStr (f s)"
| "on_strings f (JArr vs) = JArr (map (on_strings f) vs)"
| "on_strings f (JObj ms) = JObj (map (\<lambda>m. (f (fst m), on_strings f (snd m))) ms)"
| "on_strings f v = v"

text \<open>What a value means: its strings and keys decoded.\<close>

definition decoded :: "jval \<Rightarrow> jval" where
  "decoded = on_strings unquote"

lemma on_strings_comp: "on_strings f (on_strings g v) = on_strings (f \<circ> g) v"
  by (induction "f \<circ> g" v rule: on_strings.induct) simp_all

lemma decoded_html: "json_ok n v \<Longrightarrow> decoded (on_strings html_escape v) = decoded v"
  unfolding decoded_def on_strings_comp
  by (induction n v rule: json_ok.induct) (auto simp: unquote_html)

fun toks :: "jval \<Rightarrow> tok list" and toks_vals :: "jval list \<Rightarrow> tok list"
  and toks_members :: "(string \<times> jval) list \<Rightarrow> tok list" where
  "toks JNull = [TNull]"
| "toks (JBool b) = [if b then TTrue else TFalse]"
| "toks (JNum s) = [TNum s]"
| "toks (JStr s) = [TStr (html_escape s)]"
| "toks (JArr vs) = TLBrack # toks_vals vs @ [TRBrack]"
| "toks (JObj ms) = TLBrace # toks_members ms @ [TRBrace]"
| "toks_vals [] = []"
| "toks_vals [v] = toks v"
| "toks_vals (v # w # vs) = toks v @ TComma # toks_vals (w # vs)"
| "toks_members [] = []"
| "toks_members [(k, v)] = TStr (html_escape k) # TColon # toks v"
| "toks_members ((k, v) # m # ms) = TStr (html_escape k) # TColon # toks v @ TComma # toks_members (m # ms)"

lemma lex_tok:
  assumes "scan_tok (c # cs) = Some (t, rest)" "\<not> is_space c"
  shows "lex (c # cs) = map_option ((#) t) (lex rest)"
  using assms by (subst lex.simps) (auto split: option.split)

lemma lex_words:
  "lex (CHR ''{'' # s) = map_option ((#) TLBrace) (lex s)" "lex (CHR ''}'' # s) = map_option ((#) TRBrace) (lex s)"
  "lex (CHR ''['' # s) = map_option ((#) TLBrack) (lex s)" "lex (CHR '']'' # s) = map_option ((#) TRBrack) (lex s)"
  "lex (CHR '':'' # s) = map_option ((#) TColon) (lex s)" "lex (CHR '','' # s) = map_option ((#) TComma) (lex s)"
  "lex (''true'' @ s) = map_option ((#) TTrue) (lex s)" "lex (''false'' @ s) = map_option ((#) TFalse) (lex s)"
  "lex (''null'' @ s) = map_option ((#) TNull) (lex s)"
  unfolding append.simps
  by (rule lex_tok; simp add: scan_tok_def scan_word_def word_toks_def is_digit_def is_space_def)+

lemma lex_string: "raw_ok s \<Longrightarrow> lex (quote_char # s @ quote_char # rest) = map_option ((#) (TStr s)) (lex rest)"
  by (rule lex_tok) (simp_all add: scan_tok_def scan_string_raw is_space_def)

lemma num_ok_hd: "num_ok s \<Longrightarrow> s \<noteq> [] \<and> (hd s = CHR ''-'' \<or> is_digit (hd s))"
  by (cases s) (auto simp: num_ok_def skip_number_Some unsigned_def skip_int_def is_digit_def split: if_splits)

lemma lex_number: "num_ok s \<Longrightarrow> delim rest \<Longrightarrow> lex (s @ rest) = map_option ((#) (TNum s)) (lex rest)"
proof -
  assume a: "num_ok s" "delim rest"
  obtain c cs where s: "s = c # cs" "c = CHR ''-'' \<or> is_digit c" using num_ok_hd [OF a(1)] by (cases s) auto
  then have "c \<noteq> quote_char" "\<not> is_space c" by (auto simp: is_digit_def is_space_def)
  then show ?thesis
    using s scan_number_raw [OF a] lex_tok [of c "cs @ rest" "TNum s" rest] by (simp add: scan_tok_def)
qed

lemma delim_simps [simp]: "delim []" "delim (CHR '','' # s)" "delim (CHR '']'' # s)" "delim (CHR ''}'' # s)"
  by (simp_all add: delim_def)

text \<open>Tokens before those of the rest of a text.\<close>

definition before :: "tok list \<Rightarrow> tok list option \<Rightarrow> tok list option" where
  "before ts = map_option ((@) ts)"

lemma before_simps: "before [] x = x" "before (t # ts) x = map_option ((#) t) (before ts x)"
  "before (ts @ us) x = before ts (before us x)"
  by (cases x; simp add: before_def)+

lemma lex_print:
  "json_ok n v \<Longrightarrow> delim rest \<Longrightarrow> lex (print_json v @ rest) = before (toks v) (lex rest)"
  "\<forall>v \<in> set vs. json_ok n v \<Longrightarrow> delim rest \<Longrightarrow> lex (print_vals vs @ rest) = before (toks_vals vs) (lex rest)"
  "\<forall>m \<in> set ms. raw_ok (fst m) \<and> json_ok n (snd m) \<Longrightarrow> delim rest \<Longrightarrow>
     lex (print_members ms @ rest) = before (toks_members ms) (lex rest)"
proof (induction v and vs and ms arbitrary: n rest and n rest and n rest rule: print_json_print_vals_print_members.induct)
  case (5 vs)
  from 5(1) [of "Suc n" "CHR '']'' # rest"] 5(2,3) show ?case by (simp add: lex_words before_simps)
next
  case (6 ms)
  from 6(1) [of "Suc n" "CHR ''}'' # rest"] 6(2,3) show ?case by (simp add: lex_words before_simps)
next
  case (9 v w vs)
  from 9(1) [of n "CHR '','' # print_vals (w # vs) @ rest"] 9(2) [of n rest] 9(3,4) show ?case
    by (simp add: lex_words before_simps)
next
  case (11 k v)
  from 11(1) [of n rest] 11(2,3) show ?case by (simp add: lex_words lex_string raw_ok_html before_simps)
next
  case (12 k v m ms)
  from 12(1) [of n "CHR '','' # print_members (m # ms) @ rest"] 12(2) [of n rest] 12(3,4) show ?case
    by (simp add: lex_words lex_string raw_ok_html before_simps)
qed (simp_all add: lex_words [unfolded append.simps] lex_string lex_number raw_ok_html before_simps)

lemma jrun_append: "jrun (ts @ us) s = Option.bind (jrun ts s) (jrun us)"
  by (induction ts arbitrary: s) (auto split: option.split)

lemma first_tok: "jrun (toks v @ ts) (st, ExpectValueOrClose) = jrun (toks v @ ts) (st, ExpectValue)"
  by (cases v) auto

lemma give_frame: "give v (FArr vs # st) = (FArr (v # vs) # st, ExpectCommaOrClose)"
  "give v (FObj ms k # st) = (FObj ((k, v) # ms) k # st, ExpectCommaOrClose)" "give v [] = ([], Complete v)"
  by (simp_all add: give_def)

lemma first_toks: "vs \<noteq> [] \<Longrightarrow> jrun (toks_vals vs @ ts) (st, ExpectValueOrClose) = jrun (toks_vals vs @ ts) (st, ExpectValue)"
  by (cases vs rule: toks_vals.cases) (simp_all add: first_tok)

lemma first_key: "ms \<noteq> [] \<Longrightarrow>
   jrun (toks_members ms @ ts) (FObj b k # st, ExpectKeyOrClose) = jrun (toks_members ms @ ts) (FObj b k # st, ExpectKey)"
  by (cases ms rule: toks_members.cases) simp_all

lemma jrun_toks:
  "json_ok (length st) v \<Longrightarrow> jrun (toks v @ ts) (st, ExpectValue) = jrun ts (give (on_strings html_escape v) st)"
  "\<forall>v \<in> set vs. json_ok (Suc (length st)) v \<Longrightarrow> vs \<noteq> [] \<Longrightarrow>
     jrun (toks_vals vs @ TRBrack # ts) (FArr acc # st, ExpectValue) =
     jrun ts (give (JArr (rev acc @ map (on_strings html_escape) vs)) st)"
  "\<forall>m \<in> set ms. raw_ok (fst m) \<and> json_ok (Suc (length st)) (snd m) \<Longrightarrow> ms \<noteq> [] \<Longrightarrow>
     jrun (toks_members ms @ TRBrace # ts) (FObj bcc k # st, ExpectKey) =
     jrun ts (give (JObj (rev bcc @ map (\<lambda>m. (html_escape (fst m), on_strings html_escape (snd m))) ms)) st)"
proof (induction v and vs and ms arbitrary: st ts and st ts acc and st ts bcc k rule: toks_toks_vals_toks_members.induct)
  case (5 vs)
  then show ?case by (cases "vs = []") (simp_all add: open_frame_def first_toks)
next
  case (6 ms)
  from 6(1) [of st _ "[]" "[]"] 6(2) show ?case by (cases "ms = []") (simp_all add: open_frame_def first_key)
qed (simp_all add: give_frame open_frame_def)


text \<open>What the encoder writes the decoder reads, with the encoder's escapes in the strings.\<close>

lemma parse_print: "json_ok 0 v \<Longrightarrow> parse_json (print_json v) = Some (on_strings html_escape v)"
  using lex_print(1) [of 0 v "[]"] jrun_toks(1) [of "[]" v "[]"]
  by (simp add: parse_json_def before_def give_frame lex.simps [of "[]"])

section \<open>What the decoder accepts\<close>

fun tok_ok :: "tok \<Rightarrow> bool" where
  "tok_ok (TStr s) = raw_ok s"
| "tok_ok (TNum s) = num_ok s"
| "tok_ok t = True"

lemma scan_tok_ok: "scan_tok s = Some (t, rest) \<Longrightarrow> tok_ok t"
proof -
  have "tok_ok t" if "scan_word s = Some (t, rest)"
    using that by (auto simp: scan_word_def word_toks_def split: option.splits if_splits)
  moreover assume "scan_tok s = Some (t, rest)"
  ultimately show ?thesis
    using scan_string_inv scan_number_inv by (fastforce simp: scan_tok_def split: list.splits if_splits)
qed

lemma lex_ok: "lex s = Some ts \<Longrightarrow> list_all tok_ok ts"
proof (induction s arbitrary: ts rule: lex.induct)
  case (1 s)
  define u where "u = dropWhile is_space s"
  have s: "lex s = (if u = [] then Some [] else case scan_tok u of None \<Rightarrow> None
      | Some (t, rest) \<Rightarrow> (case lex rest of None \<Rightarrow> None | Some ts \<Rightarrow> Some (t # ts)))"
    by (subst lex.simps) (simp only: Let_def u_def)
  show ?case
  proof (cases "u = []")
    case True
    then show ?thesis using 1(2) s by simp
  next
    case False
    then obtain t rest us where t: "scan_tok u = Some (t, rest)" "lex rest = Some us" "ts = t # us"
      using 1(2) s by (auto split: option.splits)
    then show ?thesis using 1(1) [OF u_def False t(1) refl t(2)] scan_tok_ok [OF t(1)] by simp
  qed
qed

fun frames_ok :: "frame list \<Rightarrow> bool" where
  "frames_ok [] = True"
| "frames_ok (FArr vs # st) = (int (length st) < max_nesting \<and> (\<forall>v \<in> set vs. json_ok (Suc (length st)) v) \<and> frames_ok st)"
| "frames_ok (FObj ms k # st) = (int (length st) < max_nesting \<and> raw_ok k \<and>
     (\<forall>m \<in> set ms. raw_ok (fst m) \<and> json_ok (Suc (length st)) (snd m)) \<and> frames_ok st)"

definition state_ok :: "frame list \<times> expect \<Rightarrow> bool" where
  "state_ok s \<longleftrightarrow> frames_ok (fst s) \<and> (\<forall>v. snd s = Complete v \<longrightarrow> json_ok 0 v)"

lemma state_ok_give: "frames_ok st \<Longrightarrow> json_ok (length st) v \<Longrightarrow> state_ok (give v st)"
  by (cases st rule: frames_ok.cases) (auto simp: give_frame state_ok_def)

lemma state_okI: "frames_ok st \<Longrightarrow> (\<And>v. e \<noteq> Complete v) \<Longrightarrow> state_ok (st, e)"
  by (simp add: state_ok_def)

lemma state_okD: "state_ok (st, e) \<Longrightarrow> frames_ok st"
  by (simp add: state_ok_def)

lemma open_frame_ok: "open_frame f e st = Some s \<Longrightarrow> frames_ok st \<Longrightarrow> f \<in> {FArr [], FObj [] []} \<Longrightarrow>
   (\<And>v. e \<noteq> Complete v) \<Longrightarrow> state_ok s"
  by (auto simp: open_frame_def intro!: state_okI split: if_splits)

lemma value_tok_ok: "tok_ok t \<Longrightarrow> frames_ok st \<Longrightarrow> value_tok t st = Some s \<Longrightarrow> state_ok s"
  by (cases t) (auto intro: state_ok_give open_frame_ok)

lemma jstep_ok: "tok_ok t \<Longrightarrow> state_ok s \<Longrightarrow> jstep t s = Some s' \<Longrightarrow> state_ok s'"
proof (induction t s rule: jstep.induct)
qed (auto dest!: state_okD intro: value_tok_ok open_frame_ok intro!: state_ok_give state_okI)

lemma jrun_ok: "list_all tok_ok ts \<Longrightarrow> state_ok s \<Longrightarrow> jrun ts s = Some s' \<Longrightarrow> state_ok s'"
  by (induction ts arbitrary: s) (auto intro: jstep_ok split: option.splits)

lemma parse_ok: "parse_json s = Some v \<Longrightarrow> json_ok 0 v"
proof -
  assume "parse_json s = Some v"
  then obtain ts where "lex s = Some ts" "jrun ts ([], ExpectValue) = Some ([], Complete v)"
    by (auto simp: parse_json_def split: option.splits prod.splits list.splits expect.splits)
  with jrun_ok [OF lex_ok, of s ts "([], ExpectValue)"] show ?thesis by (simp add: state_ok_def)
qed

end
