(* ===== verification/Base64.thy ===== *)
theory Base64
  imports Json_Roundtrip
begin

text \<open>
  How \<^verbatim>\<open>encoding/json\<close> writes a byte slice: standard base64 with padding, between quotes. The
  decoder that reads it back, and that a byte slice survives the way through a JSON document.
\<close>

definition b64_alphabet :: string where
  "b64_alphabet = ''ABCDEFGHIJKLMNOPQRSTUVWXYZabcdefghijklmnopqrstuvwxyz0123456789+/''"

definition b64_char :: "int \<Rightarrow> char" where
  "b64_char n = b64_alphabet ! nat n"

definition b64_val :: "char \<Rightarrow> int option" where
  "b64_val c = (let k = length (takeWhile (\<lambda>d. d \<noteq> c) b64_alphabet) in if k < 64 then Some (int k) else None)"

abbreviation pad :: char where "pad \<equiv> CHR ''=''"

fun base64 :: "string \<Rightarrow> string" where
  "base64 [] = []"
| "base64 [a] = [b64_char (code a div 4), b64_char (code a mod 4 * 16), pad, pad]"
| "base64 [a, b] = [b64_char (code a div 4), b64_char (code a mod 4 * 16 + code b div 16), b64_char (code b mod 16 * 4), pad]"
| "base64 (a # b # c # cs) =
     b64_char (code a div 4) # b64_char (code a mod 4 * 16 + code b div 16)
     # b64_char (code b mod 16 * 4 + code c div 64) # b64_char (code c mod 64) # base64 cs"

text \<open>Three bytes from four values.\<close>

definition b64_bytes :: "int \<Rightarrow> int \<Rightarrow> int \<Rightarrow> int \<Rightarrow> string" where
  "b64_bytes w x y z = [byte (w * 4 + x div 16), byte (x mod 16 * 16 + y div 4), byte (y mod 4 * 64 + z)]"

fun unbase64 :: "string \<Rightarrow> string option" where
  "unbase64 [] = Some []"
| "unbase64 (p # q # r # s # rest) =
     (case (b64_val p, b64_val q, b64_val r, b64_val s) of
        (Some w, Some x, Some y, Some z) \<Rightarrow> map_option ((@) (b64_bytes w x y z)) (unbase64 rest)
      | (Some w, Some x, Some y, None) \<Rightarrow> if s = pad \<and> rest = [] then Some (take 2 (b64_bytes w x y 0)) else None
      | (Some w, Some x, None, _) \<Rightarrow> if r = pad \<and> s = pad \<and> rest = [] then Some (take 1 (b64_bytes w x 0 0)) else None
      | _ \<Rightarrow> None)"
| "unbase64 _ = None"

lemma b64_alphabet: "length b64_alphabet = 64" "distinct b64_alphabet"
  by (simp_all add: b64_alphabet_def)

lemma b64_val_char: "0 \<le> n \<Longrightarrow> n < 64 \<Longrightarrow> b64_val (b64_char n) = Some n"
proof -
  assume n: "0 \<le> n" "n < 64"
  let ?k = "nat n"
  have "takeWhile (\<lambda>d. d \<noteq> b64_alphabet ! ?k) b64_alphabet = take ?k b64_alphabet"
    using b64_alphabet n by (intro takeWhile_eq_take_P_nth) (auto simp: nth_eq_iff_index_eq)
  then show ?thesis using b64_alphabet n by (simp add: b64_val_def b64_char_def Let_def)
qed

lemma b64_val_pad: "b64_val pad = None"
  by code_simp

lemma split_byte:
  fixes a :: char
  shows "0 \<le> code a div 4" "code a div 4 < 64" "0 \<le> code a mod 4 * 16" "code a mod 4 * 16 \<le> 48"
    "0 \<le> code a div 16" "code a div 16 < 16" "0 \<le> code a mod 16 * 4" "code a mod 16 * 4 \<le> 60"
    "0 \<le> code a div 64" "code a div 64 < 4" "0 \<le> code a mod 64" "code a mod 64 < 64"
proof -
  have "code a < 64 * 4" "code a < 16 * 16" "code a < 4 * 64" using code_range(2) [of a] by simp_all
  then show "code a div 4 < 64" "code a div 16 < 16" "code a div 64 < 4"
    by (simp_all only: div_less_iff_less_mult zero_less_numeral)
  have "code a mod 4 \<le> 3" "code a mod 16 \<le> 15" using pos_mod_bound [of 4 "code a"] pos_mod_bound [of 16 "code a"] by simp_all
  then show "code a mod 4 * 16 \<le> 48" "code a mod 16 * 4 \<le> 60"
    using mult_right_mono [of "code a mod 4" 3 16] mult_right_mono [of "code a mod 16" 15 4] by simp_all
qed (simp_all add: code_range pos_imp_zdiv_nonneg_iff)

lemma pack: "0 \<le> b \<Longrightarrow> b < k \<Longrightarrow> (m * k + b) div k = m \<and> (m * k + b) mod k = (b :: int)"
  by simp

lemma byte_whole: "code a div 4 * 4 + code a mod 4 = code a" "code a div 16 * 16 + code a mod 16 = code a"
  "code a div 64 * 64 + code a mod 64 = code a" "byte (code a) = a"
  by (simp_all add: byte_code)

lemma b64_bytes_whole: "b64_bytes (code a div 4) (code a mod 4 * 16 + code b div 16)
    (code b mod 16 * 4 + code c div 64) (code c mod 64) = [a, b, c]"
proof -
  have "(code a mod 4 * 16 + code b div 16) div 16 = code a mod 4" "(code a mod 4 * 16 + code b div 16) mod 16 = code b div 16"
    "(code b mod 16 * 4 + code c div 64) div 4 = code b mod 16" "(code b mod 16 * 4 + code c div 64) mod 4 = code c div 64"
    by (rule pack [THEN conjunct1] pack [THEN conjunct2]; rule split_byte)+
  then show ?thesis unfolding b64_bytes_def by (simp only: byte_whole)
qed

lemma sextet_range:
  "0 \<le> code a mod 4 * 16 + code b div 16" "code a mod 4 * 16 + code b div 16 < 64"
  "0 \<le> code b mod 16 * 4 + code c div 64" "code b mod 16 * 4 + code c div 64 < 64"
  using add_nonneg_nonneg [OF split_byte(3) [of a] split_byte(5) [of b]] add_le_less_mono [OF split_byte(4) [of a] split_byte(6) [of b]]
    add_nonneg_nonneg [OF split_byte(7) [of b] split_byte(9) [of c]] add_le_less_mono [OF split_byte(8) [of b] split_byte(10) [of c]]
  by simp_all

lemma b64_sextets:
  "b64_val (b64_char (code a div 4)) = Some (code a div 4)"
  "b64_val (b64_char (code a mod 4 * 16 + code b div 16)) = Some (code a mod 4 * 16 + code b div 16)"
  "b64_val (b64_char (code b mod 16 * 4 + code c div 64)) = Some (code b mod 16 * 4 + code c div 64)"
  "b64_val (b64_char (code c mod 64)) = Some (code c mod 64)"
  by (rule b64_val_char [OF split_byte(1,2)] b64_val_char [OF sextet_range(1,2)] b64_val_char [OF sextet_range(3,4)]
      b64_val_char [OF split_byte(11,12)])+

lemma unbase64_base64: "unbase64 (base64 s) = Some s"
proof (induction s rule: base64.induct)
  case (2 a)
  have z: "code (CHR 0x00) = 0" by (simp add: code_def)
  show ?case
    using b64_sextets(1) [of a] b64_sextets(2) [of a "CHR 0x00"] b64_bytes_whole [of a "CHR 0x00" "CHR 0x00"] by (simp add: z b64_val_pad)
next
  case (3 a b)
  have z: "code (CHR 0x00) = 0" by (simp add: code_def)
  show ?case
    using b64_sextets(1) [of a] b64_sextets(2) [of a b] b64_sextets(3) [of b "CHR 0x00"] b64_bytes_whole [of a b "CHR 0x00"]
    by (simp add: z b64_val_pad)
next
  case (4 a b c cs)
  then show ?case by (simp add: b64_sextets b64_bytes_whole)
qed simp

text \<open>Base64 text needs no escapes in a JSON literal, so it is its own raw form.\<close>

definition unescaped :: "char \<Rightarrow> bool" where
  "unescaped c \<longleftrightarrow> plain c \<and> c \<noteq> quote_char \<and> c \<noteq> backslash \<and> 32 \<le> code c \<and> code c < 0x80"

lemma unescaped_raw: "list_all unescaped s \<Longrightarrow> raw_ok s \<and> unquote s = s \<and> html_escape s = s"
proof (induction s)
  case (Cons c s)
  then have "utf8_len (c # s) = 1" "c \<noteq> backslash" by (simp_all add: unescaped_def utf8_len_def)
  then have "unquote (c # s) = c # unquote s" by (simp add: unquote_utf8)
  with Cons show ?case by (auto simp: unescaped_def is_control_def code_def html_escape_plain)
qed simp

lemma unescaped_b64: "0 \<le> n \<Longrightarrow> n < 64 \<Longrightarrow> unescaped (b64_char n)"
proof -
  assume "0 \<le> n" "n < 64"
  then have "b64_char n \<in> set b64_alphabet" by (simp add: b64_char_def b64_alphabet(1))
  moreover have "list_all unescaped b64_alphabet"
    unfolding b64_alphabet_def by (simp add: unescaped_def plain_def code_def)
  ultimately show ?thesis by (simp add: list_all_iff)
qed

lemma unescaped_sextets: "unescaped (b64_char (code a div 4))" "unescaped (b64_char (code a mod 4 * 16))"
  "unescaped (b64_char (code a mod 4 * 16 + code b div 16))" "unescaped (b64_char (code b mod 16 * 4))"
  "unescaped (b64_char (code b mod 16 * 4 + code c div 64))" "unescaped (b64_char (code c mod 64))" "unescaped pad"
proof -
  show "unescaped (b64_char (code a mod 4 * 16))"
    by (rule unescaped_b64 [OF split_byte(3) le_less_trans [OF split_byte(4)]]) simp
  show "unescaped (b64_char (code b mod 16 * 4))"
    by (rule unescaped_b64 [OF split_byte(7) le_less_trans [OF split_byte(8)]]) simp
qed (rule unescaped_b64 [OF split_byte(1,2)] unescaped_b64 [OF sextet_range(1,2)] unescaped_b64 [OF sextet_range(3,4)]
      unescaped_b64 [OF split_byte(11,12)] | simp add: unescaped_def plain_def code_def)+

lemma unescaped_base64: "list_all unescaped (base64 s)"
  by (induction s rule: base64.induct) (simp_all add: unescaped_sextets)

end
