(* ===== verification/Request_Body.thy ===== *)
theory Request_Body
  imports Json_Roundtrip
begin

text \<open>
  What the runtime does with the body of a request (\<^verbatim>\<open>proxy/tokencount.go\<close>): the rewriting of a
  streaming request by \<open>injectStreamOptions\<close> keeps everything the client said except one option,
  and the estimate read by \<open>extractMaxTokens\<close> is not always the limit the provider will see.
\<close>

section \<open>Members of an object\<close>

text \<open>
  What a decoder that keeps the last of several members with the same name sees: the names
  decoded, and the values with their strings decoded.
\<close>

definition members :: "(string \<times> jval) list \<Rightarrow> string \<rightharpoonup> jval" where
  "members ms = map_of (rev (map (\<lambda>m. (unquote (fst m), decoded (snd m))) ms))"

lemma raw_map_members:
  "distinct (map fst (raw_map ms))" "map_of (raw_map ms) = map_of (rev (map (\<lambda>m. (unquote (fst m), snd m)) ms))"
proof (induction ms rule: rev_induct)
  case (snoc m ms)
  have "raw_map (ms @ [m]) = AList.update (unquote (fst m)) (snd m) (raw_map ms)" by (simp add: raw_map_def split_beta)
  with snoc show "distinct (map fst (raw_map (ms @ [m])))"
    "map_of (raw_map (ms @ [m])) = map_of (rev (map (\<lambda>m. (unquote (fst m), snd m)) (ms @ [m])))"
    by (simp_all add: update_conv' distinct_update)
qed (simp_all add: raw_map_def)

lemma raw_map_origin: "(k, v) \<in> set (raw_map ms) \<Longrightarrow> \<exists>raw. (raw, v) \<in> set ms \<and> k = unquote raw"
proof -
  assume "(k, v) \<in> set (raw_map ms)"
  then have "map_of (raw_map ms) k = Some v" using raw_map_members(1) by simp
  then show ?thesis unfolding raw_map_members(2) by (auto dest!: map_of_SomeD) blast
qed

lemma map_of_sort_key: "distinct (map fst xs) \<Longrightarrow> map_of (sort_key fst xs) = map_of xs"
  by (subst map_of_inject_set) (simp_all add: distinct_map)

lemma map_of_rev_distinct: "distinct (map fst xs) \<Longrightarrow> map_of (rev xs) = map_of xs"
  by (subst map_of_inject_set) (simp_all add: rev_map [symmetric])

lemma map_of_decode: "map_of (map (\<lambda>m. (fst m, f (snd m))) xs) = map_option f \<circ> map_of xs"
  by (induction xs) auto

lemma include_usage_ok: "json_ok 1 include_usage" "decoded include_usage = include_usage" "utf8_text ''stream_options''"
proof -
  show "json_ok 1 include_usage" by (simp add: include_usage_def max_nesting_def is_control_def)
  show "decoded include_usage = include_usage" unfolding decoded_def by code_simp
  have "utf8_text (unquote ''stream_options'')" by (rule utf8_text_unquote) (simp add: is_control_def)
  moreover have "unquote ''stream_options'' = ''stream_options''" by code_simp
  ultimately show "utf8_text ''stream_options''" by simp
qed

lemma members_raw_map: "members ms = map_option decoded \<circ> map_of (raw_map ms)"
  unfolding members_def raw_map_members(2) map_of_decode [symmetric] by (simp add: rev_map comp_def)

text \<open>The encoding of a map whose keys are UTF-8 and whose values are in order, read back.\<close>

lemma encode_raw_map_parses:
  assumes "distinct (map fst m)" "\<forall>(k, v) \<in> set m. utf8_text k \<and> json_ok 1 v"
  shows "\<exists>ms. parse_json (encode_raw_map m) = Some (JObj ms) \<and> distinct (map (unquote \<circ> fst) ms) \<and>
    members ms = map_option decoded \<circ> map_of m"
proof -
  let ?e = "\<lambda>p. (html_escape (quote_raw (fst p)), on_strings html_escape (snd p))"
  define ms where "ms = map ?e (sort_key fst m)"
  have "json_ok 0 (JObj (map (\<lambda>(k, v). (quote_raw k, v)) (sort_key fst m)))"
    using assms(2) raw_ok_quote by (auto simp: max_nesting_def)
  then have p: "parse_json (encode_raw_map m) = Some (JObj ms)"
    using parse_print unfolding encode_raw_map_def ms_def by (simp add: split_beta comp_def del: print_json.simps json_ok.simps)
  have "unquote (fst (?e p)) = fst p \<and> decoded (snd (?e p)) = decoded (snd p)" if "p \<in> set m" for p
  proof -
    have "utf8_text (fst p)" "json_ok 1 (snd p)" using assms(2) that by auto
    then show ?thesis using unquote_html [OF raw_ok_quote] unquote_quote decoded_html by simp
  qed
  then have d: "map (\<lambda>p. (unquote (fst p), decoded (snd p))) ms = map (\<lambda>p. (fst p, decoded (snd p))) (sort_key fst m)"
    "map (unquote \<circ> fst) ms = map fst (sort_key fst m)"
    by (simp_all add: ms_def)
  have "distinct (map fst (sort_key fst m))" using assms(1) by (simp add: distinct_map)
  moreover from this have "members ms = map_option decoded \<circ> map_of m"
    unfolding members_def d(1) map_of_sort_key [OF assms(1), symmetric] map_of_decode [symmetric]
    by (intro map_of_rev_distinct) (simp add: comp_def)
  ultimately show ?thesis using p d(2) by metis
qed

text \<open>Setting one member of a decoded object and encoding the result.\<close>

lemma encode_update:
  assumes "json_ok 0 (JObj ms)" "utf8_text name" "json_ok 1 v"
  shows "\<exists>ms'. parse_json (encode_raw_map (AList.update name v (raw_map ms))) = Some (JObj ms') \<and>
    distinct (map (unquote \<circ> fst) ms') \<and> members ms' = (members ms)(name \<mapsto> decoded v)"
proof -
  let ?m = "AList.update name v (raw_map ms)"
  have dist: "distinct (map fst ?m)" by (simp add: distinct_update raw_map_members(1))
  have "utf8_text k \<and> json_ok 1 x" if "(k, x) \<in> set ?m" for k x
  proof -
    have "map_of ?m k = Some x" using that dist by simp
    then consider "k = name" "x = v" | "(k, x) \<in> set (raw_map ms)"
      unfolding update_conv' by (auto split: if_splits dest: map_of_SomeD)
    then show ?thesis
    proof cases
      case 2
      then obtain raw where "(raw, x) \<in> set ms" "k = unquote raw" using raw_map_origin by blast
      then show ?thesis using assms(1) utf8_text_unquote [of raw] by auto
    qed (use assms(2,3) in simp)
  qed
  then obtain ms' where "parse_json (encode_raw_map ?m) = Some (JObj ms')" "distinct (map (unquote \<circ> fst) ms')"
      "members ms' = map_option decoded \<circ> map_of ?m"
    using encode_raw_map_parses [OF dist] by blast
  moreover have "map_option decoded \<circ> map_of ?m = (members ms)(name \<mapsto> decoded v)"
    unfolding update_conv' members_raw_map by (simp add: fun_eq_iff)
  ultimately show ?thesis by metis
qed

section \<open>Properties\<close>

text \<open>
  C10. Rewriting a streaming request changes one option and nothing else. Whatever JSON object
  the client sends, \<open>injectStreamOptions\<close> succeeds, its result is a JSON object without duplicate
  members, and to a decoder it has exactly the members of the original (the last one where the
  client repeats a name) with the same meaning, except that \<^verbatim>\<open>stream_options\<close> is now the object
  that asks for usage: the encoder's sorting, quoting and HTML escapes lose nothing.
\<close>

theorem stream_options_injected:
  assumes "parse_json body = Some (JObj ms)"
  shows "\<exists>out ms'. injectStreamOptions body = Returns (Some out) \<and> parse_json out = Some (JObj ms') \<and>
    distinct (map (unquote \<circ> fst) ms') \<and> members ms' = (members ms)(''stream_options'' \<mapsto> include_usage)"
proof -
  have "injectStreamOptions body =
      Returns (Some (encode_raw_map (AList.update ''stream_options'' include_usage (raw_map ms))))"
    using assms by (simp only: injectStreamOptions_def option.case jval.case)
  then show ?thesis
    using encode_update [OF parse_ok [OF assms] include_usage_ok(3,1)] unfolding include_usage_ok(2) by blast
qed

theorem stream_options_injected_witness:
  "\<exists>out ms'. injectStreamOptions (jtext ''{`stream`:true,`q`:`a<b`}'') = Returns (Some out) \<and>
    parse_json out = Some (JObj ms') \<and> members ms' ''q'' = Some (JStr ''a<b'')"
proof -
  have "parse_json (jtext ''{`stream`:true,`q`:`a<b`}'') = Some (JObj [(''stream'', JBool True), (''q'', JStr ''a<b'')])"
    by code_simp
  note stream_options_injected [OF this]
  moreover have "members [(''stream'', JBool True), (''q'', JStr ''a<b'')] ''q'' = Some (JStr ''a<b'')"
    unfolding members_def decoded_def by code_simp
  moreover have "''q'' \<noteq> ''stream_options''" by simp
  ultimately show ?thesis by (metis fun_upd_other)
qed


lemma decode_members_append:
  "decode_members dec (ms @ ns) x = Option.bind (decode_members dec ms x) (decode_members dec ns)"
  by (induction ms arbitrary: x) (auto split: option.split)

text \<open>
  C25. The limit a request is charged for need not be the limit the provider applies. The decoder
  matches names without regard to case and lets later members override earlier ones, so a last
  member such as \<^verbatim>\<open>Max_Tokens\<close> is the estimate, while the member \<^verbatim>\<open>max_tokens\<close> itself, which is
  the one a provider reads, keeps whatever value came before it.
\<close>

theorem case_variant_hides_max_tokens:
  assumes "parse_json body = Some (JObj (ms @ [(k, JNum x)]))"
    and "is_field ''max_tokens'' k" "unquote k \<noteq> ''max_tokens''" "parse_int64 x = Some n"
    and "decode_members token_request_field ms \<lparr> tr_MaxTokens = None, tr_MaxNewTokens = None \<rparr> = Some req"
  shows "extractMaxTokens body = n \<and>
    members (ms @ [(k, JNum x)]) ''max_tokens'' = members ms ''max_tokens''"
proof
  have "body \<noteq> []" using assms(1) by (auto simp: parse_json_def lex.simps [of "[]"])
  moreover have "token_request_field k (JNum x) req = Some (req\<lparr> tr_MaxTokens := Some n \<rparr>)"
    using assms(2,4) by (simp add: token_request_field_def decode_ptr_def decode_int64_def)
  ultimately show "extractMaxTokens body = n"
    using assms(1,5) by (simp add: extractMaxTokens_def Unmarshal_def decode_struct_def decode_members_append)
  show "members (ms @ [(k, JNum x)]) ''max_tokens'' = members ms ''max_tokens''"
    using assms(3) by (simp add: members_def)
qed

theorem case_variant_hides_max_tokens_witness:
  "extractMaxTokens (jtext ''{`max_tokens`:100000,`Max_Tokens`:1}'') = 1 \<and>
   members [(''max_tokens'', JNum ''100000''), (''Max_Tokens'', JNum ''1'')] ''max_tokens'' = Some (JNum ''100000'')"
proof -
  have p: "parse_json (jtext ''{`max_tokens`:100000,`Max_Tokens`:1}'') =
      Some (JObj ([(''max_tokens'', JNum ''100000'')] @ [(''Max_Tokens'', JNum ''1'')]))"
    "is_field ''max_tokens'' ''Max_Tokens''" "unquote ''Max_Tokens'' \<noteq> ''max_tokens''" "parse_int64 ''1'' = Some 1"
    "decode_members token_request_field [(''max_tokens'', JNum ''100000'')] \<lparr> tr_MaxTokens = None, tr_MaxNewTokens = None \<rparr> =
      Some \<lparr> tr_MaxTokens = Some 100000, tr_MaxNewTokens = None \<rparr>"
    by code_simp+
  have "members [(''max_tokens'', JNum ''100000'')] ''max_tokens'' = Some (JNum ''100000'')"
    unfolding members_def decoded_def by code_simp
  with case_variant_hides_max_tokens [OF p] show ?thesis by simp
qed

end
