(* ===== verification/Certgen.thy ===== *)
theory Certgen
  imports Base64 Request_Body
begin

text \<open>
  \<^verbatim>\<open>internal/certgen/certgen.go\<close>, \<^verbatim>\<open>cmd/koshi/certgen.go\<close> and \<^verbatim>\<open>internal/inject/tls.go\<close>: the two
  Helm hooks that make the webhook's certificates, and the loading of the serving certificate.

  X.509, PEM and RSA (\<open>x509_lib\<close>) and the Kubernetes client (\<open>Client\<close>) are arguments; the keys,
  serial numbers and clock readings of a run are \<open>run_env\<close>. What the code relies on of them is
  stated as \<open>x509_laws\<close> and \<open>kube_laws\<close>: a certificate that was created parses back as its
  template with the parent's name as issuer and verifies under exactly the signer's key; what was
  written to the cluster is what is read; a strategic merge patch sets the fields it names. The
  patch itself is a JSON text, with the CA in base64, and the cluster decodes that text.
\<close>

section \<open>Data\<close>

record rsa_public =
  pk_N :: nat
  pk_E :: nat

record rsa_private =
  rk_Public :: rsa_public
  rk_D :: nat

datatype key_usage = DigitalSignature | KeyEncipherment | CertSign | CRLSign
datatype ext_key_usage = ServerAuth

record Certificate =
  c_SerialNumber :: int
  c_Subject :: string
  c_Issuer :: string
  c_DNSNames :: "string list"
  c_NotBefore :: gotime
  c_NotAfter :: gotime
  c_KeyUsage :: "key_usage list"
  c_ExtKeyUsage :: "ext_key_usage list"
  c_BasicConstraintsValid :: bool
  c_IsCA :: bool
  c_PublicKey :: "rsa_public option"

record pem_block =
  pb_Type :: string
  pb_Bytes :: string

record x509_lib =
  lib_CreateCertificate :: "Certificate \<Rightarrow> Certificate \<Rightarrow> rsa_public \<Rightarrow> rsa_private \<Rightarrow> string + string"
  lib_ParseCertificate :: "string \<Rightarrow> string + Certificate"
  lib_MarshalPKCS1 :: "rsa_private \<Rightarrow> string"
  lib_ParsePKCS1 :: "string \<Rightarrow> string + rsa_private"
  lib_PemEncode :: "pem_block \<Rightarrow> string"
  lib_PemDecode :: "string \<Rightarrow> pem_block option"
  lib_X509KeyPair :: "string \<Rightarrow> string \<Rightarrow> string + string" \<comment> \<open>the leaf of the chain\<close>
  lib_Signed :: "string \<Rightarrow> rsa_public \<Rightarrow> bool" \<comment> \<open>whether a signature verifies\<close>

text \<open>What a run draws: the keys and serial numbers in the order of the calls, and the clock.\<close>

record run_env =
  re_GenerateKey :: "nat \<Rightarrow> int \<Rightarrow> string + rsa_private"
  re_RandInt :: "nat \<Rightarrow> int \<Rightarrow> string + int"
  re_Now :: "nat \<Rightarrow> gotime"

record Secret =
  sec_Name :: string
  sec_Namespace :: string
  sec_Type :: string
  sec_Data :: "string \<rightharpoonup> string"
  sec_Meta :: string \<comment> \<open>labels, resource version and what else the server keeps\<close>

record MutatingWebhook =
  wh_Name :: string
  wh_caBundle :: string
  wh_Rest :: string \<comment> \<open>service, rules, failure policy and the other fields\<close>

record 'w Client =
  cl_GetSecret :: "string \<Rightarrow> string \<Rightarrow> 'w \<Rightarrow> (string + Secret) \<times> 'w"
  cl_UpdateSecret :: "string \<Rightarrow> Secret \<Rightarrow> 'w \<Rightarrow> (string + Secret) \<times> 'w"
  cl_CreateSecret :: "string \<Rightarrow> Secret \<Rightarrow> 'w \<Rightarrow> (string + Secret) \<times> 'w"
  cl_GetWebhook :: "string \<Rightarrow> 'w \<Rightarrow> (string + MutatingWebhook list) \<times> 'w"
  cl_PatchWebhook :: "string \<Rightarrow> string \<Rightarrow> 'w \<Rightarrow> (string + MutatingWebhook list) \<times> 'w"

record 'w kube_lib =
  kl_InClusterConfig :: "string + string"
  kl_NewForConfig :: "string \<Rightarrow> string + 'w Client"

datatype cert_error = LibError string | BadCAPem | BadCACert string | BadCAKeyPem | BadCAKey string

datatype certgen_error =
    RequiredEnv string string string
  | GenerateCAFailed cert_error
  | GenerateServingFailed cert_error
  | NoClusterConfig string
  | CreateClientFailed string
  | EnsureSecretFailed string
  | GetSecretFailed string string
  | MissingCA string
  | GetWebhookFailed string string
  | PatchFailed string

section \<open>Certificates\<close>

definition Minute :: duration where "Minute = 60 * Second"
definition Hour :: duration where "Hour = 3600 * Second"

abbreviation pem :: "x509_lib \<Rightarrow> string \<Rightarrow> string \<Rightarrow> string" where
  "pem lib t b \<equiv> lib_PemEncode lib \<lparr> pb_Type = t, pb_Bytes = b \<rparr>"

definition ca_template :: "run_env \<Rightarrow> int \<Rightarrow> Certificate" where
  "ca_template env serial =
     \<lparr> c_SerialNumber = serial, c_Subject = ''koshi-webhook-ca'', c_Issuer = '''', c_DNSNames = [],
       c_NotBefore = re_Now env 0 - Minute, c_NotAfter = re_Now env 1 + 10 * 365 * 24 * Hour,
       c_KeyUsage = [CertSign, CRLSign], c_ExtKeyUsage = [], c_BasicConstraintsValid = True, c_IsCA = True,
       c_PublicKey = None \<rparr>"

definition generateCA :: "x509_lib \<Rightarrow> run_env \<Rightarrow> cert_error + (string \<times> string)" where
  "generateCA lib env =
     (case re_GenerateKey env 0 2048 of Inl e \<Rightarrow> Inl (LibError e) | Inr key \<Rightarrow>
      case re_RandInt env 0 (2 ^ 128) of Inl e \<Rightarrow> Inl (LibError e) | Inr serial \<Rightarrow>
      let tmpl = ca_template env serial in
      case lib_CreateCertificate lib tmpl tmpl (rk_Public key) key of Inl e \<Rightarrow> Inl (LibError e) | Inr certDER \<Rightarrow>
      Inr (pem lib ''CERTIFICATE'' certDER, pem lib ''RSA PRIVATE KEY'' (lib_MarshalPKCS1 lib key)))"

definition serving_template :: "run_env \<Rightarrow> int \<Rightarrow> string \<Rightarrow> string list \<Rightarrow> Certificate" where
  "serving_template env serial name dnsNames =
     \<lparr> c_SerialNumber = serial, c_Subject = name, c_Issuer = '''', c_DNSNames = dnsNames,
       c_NotBefore = re_Now env 2 - Minute, c_NotAfter = re_Now env 3 + 365 * 24 * Hour,
       c_KeyUsage = [DigitalSignature, KeyEncipherment], c_ExtKeyUsage = [ServerAuth],
       c_BasicConstraintsValid = False, c_IsCA = False, c_PublicKey = None \<rparr>"

definition generateServingCert ::
  "x509_lib \<Rightarrow> run_env \<Rightarrow> string \<Rightarrow> string \<Rightarrow> string list \<Rightarrow> (cert_error + (string \<times> string)) outcome" where
  "generateServingCert lib env caPEM caKeyPEM dnsNames =
     (case lib_PemDecode lib caPEM of None \<Rightarrow> Returns (Inl BadCAPem) | Some caBlock \<Rightarrow>
      case lib_ParseCertificate lib (pb_Bytes caBlock) of Inl e \<Rightarrow> Returns (Inl (BadCACert e)) | Inr caCert \<Rightarrow>
      case lib_PemDecode lib caKeyPEM of None \<Rightarrow> Returns (Inl BadCAKeyPem) | Some caKeyBlock \<Rightarrow>
      case lib_ParsePKCS1 lib (pb_Bytes caKeyBlock) of Inl e \<Rightarrow> Returns (Inl (BadCAKey e)) | Inr caKey \<Rightarrow>
      case re_GenerateKey env 1 2048 of Inl e \<Rightarrow> Returns (Inl (LibError e)) | Inr servingKey \<Rightarrow>
      case re_RandInt env 1 (2 ^ 128) of Inl e \<Rightarrow> Returns (Inl (LibError e)) | Inr serial \<Rightarrow>
      case dnsNames of [] \<Rightarrow> Panics IndexOutOfRange | name # _ \<Rightarrow>
      let tmpl = serving_template env serial name dnsNames in
      case lib_CreateCertificate lib tmpl caCert (rk_Public servingKey) caKey of
        Inl e \<Rightarrow> Returns (Inl (LibError e))
      | Inr certDER \<Rightarrow>
          Returns (Inr (pem lib ''CERTIFICATE'' certDER, pem lib ''RSA PRIVATE KEY'' (lib_MarshalPKCS1 lib servingKey))))"

section \<open>The cluster\<close>

definition newClient :: "'w kube_lib \<Rightarrow> certgen_error + 'w Client" where
  "newClient kube =
     (case kl_InClusterConfig kube of Inl e \<Rightarrow> Inl (NoClusterConfig e) | Inr config \<Rightarrow>
      case kl_NewForConfig kube config of Inl e \<Rightarrow> Inl (CreateClientFailed e) | Inr client \<Rightarrow> Inr client)"

definition tls_data :: "string \<Rightarrow> string \<Rightarrow> string \<Rightarrow> (string \<rightharpoonup> string)" where
  "tls_data caPEM certPEM keyPEM = [''tls.crt'' \<mapsto> certPEM, ''tls.key'' \<mapsto> keyPEM, ''ca.crt'' \<mapsto> caPEM]"

definition ensureSecret ::
  "'w Client \<Rightarrow> string \<Rightarrow> string \<Rightarrow> string \<Rightarrow> string \<Rightarrow> string \<Rightarrow> 'w \<Rightarrow> string option \<times> 'w" where
  "ensureSecret client namespace name caPEM certPEM keyPEM w =
     (case cl_GetSecret client namespace name w of
        (Inr existing, w) \<Rightarrow>
          (case cl_UpdateSecret client namespace (existing\<lparr> sec_Data := tls_data caPEM certPEM keyPEM \<rparr>) w of
             (Inl e, w) \<Rightarrow> (Some e, w) | (Inr _, w) \<Rightarrow> (None, w))
      | (Inl _, w) \<Rightarrow>
          (case cl_CreateSecret client namespace
                  \<lparr> sec_Name = name, sec_Namespace = namespace, sec_Type = ''kubernetes.io/tls'',
                    sec_Data = tls_data caPEM certPEM keyPEM, sec_Meta = '''' \<rparr> w of
             (Inl e, w) \<Rightarrow> (Some e, w) | (Inr _, w) \<Rightarrow> (None, w)))"

text \<open>
  The document that is marshalled: the members of a Go map in the order of their names, a byte
  slice in base64, and \<open>null\<close> for a nil slice when there is no webhook. Marshalling it cannot fail.
\<close>

definition patch_entry :: "string \<Rightarrow> MutatingWebhook \<Rightarrow> jval" where
  "patch_entry caPEM wh =
     JObj [(''clientConfig'', JObj [(''caBundle'', JStr (base64 caPEM))]), (''name'', JStr (quote_raw (wh_Name wh)))]"

definition patch_document :: "string \<Rightarrow> MutatingWebhook list \<Rightarrow> jval" where
  "patch_document caPEM hooks =
     JObj [(''webhooks'', if hooks = [] then JNull else JArr (map (patch_entry caPEM) hooks))]"

definition patchWebhookCABundle :: "'w Client \<Rightarrow> string \<Rightarrow> string \<Rightarrow> 'w \<Rightarrow> certgen_error option \<times> 'w" where
  "patchWebhookCABundle client name caPEM w =
     (case cl_GetWebhook client name w of
        (Inl e, w) \<Rightarrow> (Some (GetWebhookFailed name e), w)
      | (Inr existing, w) \<Rightarrow>
          (case cl_PatchWebhook client name (print_json (patch_document caPEM existing)) w of
             (Inl e, w) \<Rightarrow> (Some (PatchFailed e), w) | (Inr _, w) \<Rightarrow> (None, w)))"

section \<open>The phases\<close>

definition service_dns :: "environment \<Rightarrow> string" where
  "service_dns env = env ''KOSHI_SERVICE_NAME'' @ ''.'' @ env ''KOSHI_NAMESPACE'' @ ''.svc''"

definition RunSecretPhase ::
  "environment \<Rightarrow> x509_lib \<Rightarrow> run_env \<Rightarrow> 'w kube_lib \<Rightarrow> 'w \<Rightarrow> certgen_error option outcome \<times> 'w" where
  "RunSecretPhase getenv lib env kube w =
     (let namespace = getenv ''KOSHI_NAMESPACE''; serviceName = getenv ''KOSHI_SERVICE_NAME'';
          secretName = getenv ''KOSHI_SECRET_NAME'' in
      if namespace = '''' \<or> serviceName = '''' \<or> secretName = ''''
      then (Returns (Some (RequiredEnv namespace serviceName secretName)), w)
      else case generateCA lib env of Inl e \<Rightarrow> (Returns (Some (GenerateCAFailed e)), w) | Inr (caPEM, caKeyPEM) \<Rightarrow>
      case generateServingCert lib env caPEM caKeyPEM [service_dns getenv] of
        Panics p \<Rightarrow> (Panics p, w)
      | Returns (Inl e) \<Rightarrow> (Returns (Some (GenerateServingFailed e)), w)
      | Returns (Inr (certPEM, keyPEM)) \<Rightarrow>
          (case newClient kube of Inl e \<Rightarrow> (Returns (Some e), w) | Inr client \<Rightarrow>
           (case ensureSecret client namespace secretName caPEM certPEM keyPEM w of
              (err, w) \<Rightarrow> (Returns (map_option EnsureSecretFailed err), w))))"

definition RunCABundlePhase :: "environment \<Rightarrow> 'w kube_lib \<Rightarrow> 'w \<Rightarrow> certgen_error option \<times> 'w" where
  "RunCABundlePhase getenv kube w =
     (let namespace = getenv ''KOSHI_NAMESPACE''; secretName = getenv ''KOSHI_SECRET_NAME'';
          webhookName = getenv ''KOSHI_WEBHOOK_NAME'' in
      if namespace = '''' \<or> secretName = '''' \<or> webhookName = ''''
      then (Some (RequiredEnv namespace secretName webhookName), w)
      else case newClient kube of Inl e \<Rightarrow> (Some e, w) | Inr client \<Rightarrow>
      (case cl_GetSecret client namespace secretName w of
         (Inl e, w) \<Rightarrow> (Some (GetSecretFailed secretName e), w)
       | (Inr secret, w) \<Rightarrow>
           (case sec_Data secret ''ca.crt'' of
              None \<Rightarrow> (Some (MissingCA secretName), w)
            | Some caPEM \<Rightarrow> if caPEM = [] then (Some (MissingCA secretName), w)
                            else patchWebhookCABundle client webhookName caPEM w)))"

text \<open>The exit codes of the two roles.\<close>

definition runCertgenSecret ::
  "environment \<Rightarrow> x509_lib \<Rightarrow> run_env \<Rightarrow> 'w kube_lib \<Rightarrow> 'w \<Rightarrow> int outcome \<times> 'w" where
  "runCertgenSecret getenv lib env kube w =
     (case RunSecretPhase getenv lib env kube w of
        (Panics p, w) \<Rightarrow> (Panics p, w)
      | (Returns err, w) \<Rightarrow> (Returns (if err = None then 0 else 1), w))"

definition runCertgenCABundle :: "environment \<Rightarrow> 'w kube_lib \<Rightarrow> 'w \<Rightarrow> int \<times> 'w" where
  "runCertgenCABundle getenv kube w =
     (case RunCABundlePhase getenv kube w of (err, w) \<Rightarrow> (if err = None then 0 else 1, w))"

section \<open>Loading the serving certificate\<close>

record tls_config =
  tc_Certificates :: "string list" \<comment> \<open>the leaf certificates\<close>
  tc_MinVersion :: int

text \<open>\<open>tls.LoadX509KeyPair\<close> reads both files and pairs them.\<close>

definition LoadX509KeyPair :: "(string \<Rightarrow> string + string) \<Rightarrow> x509_lib \<Rightarrow> string \<Rightarrow> string \<Rightarrow> string + string" where
  "LoadX509KeyPair read_file lib certPath keyPath =
     (case read_file certPath of Inl e \<Rightarrow> Inl e | Inr certPEM \<Rightarrow>
      case read_file keyPath of Inl e \<Rightarrow> Inl e | Inr keyPEM \<Rightarrow> lib_X509KeyPair lib certPEM keyPEM)"

definition LoadTLSConfig :: "(string \<Rightarrow> string + string) \<Rightarrow> x509_lib \<Rightarrow> string \<Rightarrow> string \<Rightarrow> string + tls_config" where
  "LoadTLSConfig read_file lib certPath keyPath =
     (case LoadX509KeyPair read_file lib certPath keyPath of Inl e \<Rightarrow> Inl e
      | Inr cert \<Rightarrow> Inr \<lparr> tc_Certificates = [cert], tc_MinVersion = 0x0303 \<rparr>)"


section \<open>What the libraries promise\<close>

text \<open>X.509: PEM and PKCS 1 round trips, what creating a certificate yields, and key pairs.\<close>

definition x509_laws :: "x509_lib \<Rightarrow> bool" where
  "x509_laws lib \<longleftrightarrow>
     (\<forall>t b. t \<in> {''CERTIFICATE'', ''RSA PRIVATE KEY''} \<longrightarrow> lib_PemDecode lib (pem lib t b) = Some \<lparr> pb_Type = t, pb_Bytes = b \<rparr>) \<and>
     (\<forall>t b. pem lib t b \<noteq> []) \<and>
     (\<forall>k. lib_ParsePKCS1 lib (lib_MarshalPKCS1 lib k) = Inr k) \<and>
     (\<forall>tmpl parent pub priv der.
        lib_CreateCertificate lib tmpl parent pub priv = Inr der \<and> (c_IsCA tmpl \<longrightarrow> c_BasicConstraintsValid tmpl) \<longrightarrow>
        lib_ParseCertificate lib der = Inr (tmpl\<lparr> c_Issuer := c_Subject parent, c_PublicKey := Some pub,
          c_NotBefore := truncate_second (c_NotBefore tmpl), c_NotAfter := truncate_second (c_NotAfter tmpl) \<rparr>) \<and>
        (\<forall>pk. lib_Signed lib der pk \<longleftrightarrow> pk = rk_Public priv)) \<and>
     (\<forall>der c k. lib_ParseCertificate lib der = Inr c \<and> c_PublicKey c = Some (rk_Public k) \<longrightarrow>
        lib_X509KeyPair lib (pem lib ''CERTIFICATE'' der) (pem lib ''RSA PRIVATE KEY'' (lib_MarshalPKCS1 lib k)) = Inr der)"

text \<open>What a strategic merge patch of a webhook configuration does: webhooks are matched by name.\<close>

definition set_bundle :: "string \<Rightarrow> string \<Rightarrow> MutatingWebhook list \<Rightarrow> MutatingWebhook list" where
  "set_bundle n ca hs = (if n \<in> wh_Name ` set hs
     then map (\<lambda>wh. if wh_Name wh = n then wh\<lparr> wh_caBundle := ca \<rparr> else wh) hs
     else hs @ [\<lparr> wh_Name = n, wh_caBundle = ca, wh_Rest = '''' \<rparr>])"

definition field :: "string \<Rightarrow> jval \<Rightarrow> jval option" where
  "field k v = (case v of JObj ms \<Rightarrow> map_of (rev ms) k | _ \<Rightarrow> None)"

definition merge_entry :: "jval \<Rightarrow> MutatingWebhook list \<Rightarrow> MutatingWebhook list option" where
  "merge_entry e hs =
     (case (field ''name'' e, Option.bind (field ''clientConfig'' e) (field ''caBundle'')) of
        (Some (JStr n), Some (JStr b)) \<Rightarrow> map_option (\<lambda>ca. set_bundle n ca hs) (unbase64 b)
      | _ \<Rightarrow> None)"

primrec merge_entries :: "jval list \<Rightarrow> MutatingWebhook list \<Rightarrow> MutatingWebhook list option" where
  "merge_entries [] hs = Some hs"
| "merge_entries (e # es) hs = Option.bind (merge_entry e hs) (merge_entries es)"

definition strategic_merge :: "string \<Rightarrow> MutatingWebhook list \<Rightarrow> MutatingWebhook list option" where
  "strategic_merge p hs =
     (case Option.bind (map_option decoded (parse_json p)) (field ''webhooks'') of
        Some (JArr es) \<Rightarrow> merge_entries es hs | Some JNull \<Rightarrow> Some [] | _ \<Rightarrow> None)"

text \<open>The cluster as it can be observed, and the client's operations on it.\<close>

record 'w cluster_view =
  cv_secret :: "'w \<Rightarrow> string \<times> string \<rightharpoonup> Secret"
  cv_hooks :: "'w \<Rightarrow> string \<rightharpoonup> MutatingWebhook list"

definition same_view :: "'w cluster_view \<Rightarrow> 'w \<Rightarrow> 'w \<Rightarrow> bool" where
  "same_view V w w' \<longleftrightarrow> cv_secret V w' = cv_secret V w \<and> cv_hooks V w' = cv_hooks V w"

definition stores_secret :: "'w cluster_view \<Rightarrow> string \<Rightarrow> Secret \<Rightarrow> 'w \<Rightarrow> 'w \<Rightarrow> bool" where
  "stores_secret V ns s w w' \<longleftrightarrow> cv_hooks V w' = cv_hooks V w \<and>
     (\<exists>r. cv_secret V w' = (cv_secret V w)((ns, sec_Name s) \<mapsto> r) \<and> sec_Data r = sec_Data s \<and> sec_Name r = sec_Name s)"

definition kube_laws :: "'w Client \<Rightarrow> 'w cluster_view \<Rightarrow> bool" where
  "kube_laws cl V \<longleftrightarrow>
     (\<forall>ns n w r w'. cl_GetSecret cl ns n w = (r, w') \<longrightarrow>
        same_view V w w' \<and> (\<forall>s. r = Inr s \<longrightarrow> cv_secret V w (ns, n) = Some s \<and> sec_Name s = n)) \<and>
     (\<forall>ns s w r w'. cl_UpdateSecret cl ns s w = (Inr r, w') \<longrightarrow> stores_secret V ns s w w') \<and>
     (\<forall>ns s w r w'. cl_CreateSecret cl ns s w = (Inr r, w') \<longrightarrow> stores_secret V ns s w w') \<and>
     (\<forall>n w r w'. cl_GetWebhook cl n w = (r, w') \<longrightarrow>
        same_view V w w' \<and> (\<forall>hs. r = Inr hs \<longrightarrow> cv_hooks V w n = Some hs \<and> (\<forall>wh \<in> set hs. utf8_text (wh_Name wh)))) \<and>
     (\<forall>n p w r w' hs hs'. cl_PatchWebhook cl n p w = (Inr r, w') \<and> cv_hooks V w n = Some hs \<and> strategic_merge p hs = Some hs' \<longrightarrow>
        cv_hooks V w' = (cv_hooks V w)(n \<mapsto> hs') \<and> cv_secret V w' = cv_secret V w)"

text \<open>
  When a TLS client that has a CA bundle accepts a certificate for a name at a time: the API
  server calling the webhook.
\<close>

definition trusts :: "x509_lib \<Rightarrow> string \<Rightarrow> string \<Rightarrow> string \<Rightarrow> gotime \<Rightarrow> bool" where
  "trusts lib bundle leaf dns t \<longleftrightarrow>
     (case lib_PemDecode lib bundle of None \<Rightarrow> False | Some block \<Rightarrow>
      case lib_ParseCertificate lib (pb_Bytes block) of Inl _ \<Rightarrow> False | Inr ca \<Rightarrow>
      case lib_ParseCertificate lib leaf of Inl _ \<Rightarrow> False | Inr crt \<Rightarrow>
      case c_PublicKey ca of None \<Rightarrow> False | Some pk \<Rightarrow>
        c_BasicConstraintsValid ca \<and> c_IsCA ca \<and> CertSign \<in> set (c_KeyUsage ca) \<and>
        c_Issuer crt = c_Subject ca \<and> lib_Signed lib leaf pk \<and>
        dns \<in> set (c_DNSNames crt) \<and> ServerAuth \<in> set (c_ExtKeyUsage crt) \<and>
        c_NotBefore ca \<le> t \<and> t \<le> c_NotAfter ca \<and> c_NotBefore crt \<le> t \<and> t \<le> c_NotAfter crt)"

section \<open>The patch\<close>

lemma literal_keys: "unquote ''webhooks'' = ''webhooks''" "unquote ''clientConfig'' = ''clientConfig''"
  "unquote ''caBundle'' = ''caBundle''" "unquote ''name'' = ''name''"
  "raw_ok ''webhooks''" "raw_ok ''clientConfig''" "raw_ok ''caBundle''" "raw_ok ''name''"
  by code_simp+

lemma patch_entry_ok: "json_ok 2 (patch_entry ca wh)"
  using unescaped_raw [OF unescaped_base64] raw_ok_quote literal_keys by (simp add: patch_entry_def max_nesting_def)

lemma patch_document_ok: "json_ok 0 (patch_document ca hs)"
  using patch_entry_ok literal_keys(5) by (simp add: patch_document_def max_nesting_def numeral_2_eq_2)

lemma decoded_entry: "utf8_text (wh_Name wh) \<Longrightarrow> decoded (patch_entry ca wh) =
    JObj [(''clientConfig'', JObj [(''caBundle'', JStr (base64 ca))]), (''name'', JStr (wh_Name wh))]"
  using unescaped_raw [OF unescaped_base64] by (simp add: decoded_def patch_entry_def literal_keys unquote_quote)

lemma merge_entry_bundle: "utf8_text (wh_Name wh) \<Longrightarrow> merge_entry (decoded (patch_entry ca wh)) hs = Some (set_bundle (wh_Name wh) ca hs)"
  by (simp add: decoded_entry merge_entry_def field_def unbase64_base64)

lemma merge_entries_bundle:
  assumes "\<forall>wh \<in> set xs. utf8_text (wh_Name wh)" "wh_Name ` set xs \<subseteq> wh_Name ` set hs"
  shows "merge_entries (map (\<lambda>wh. decoded (patch_entry ca wh)) xs) hs =
    Some (map (\<lambda>wh. if wh_Name wh \<in> wh_Name ` set xs then wh\<lparr> wh_caBundle := ca \<rparr> else wh) hs)"
  using assms
proof (induction xs arbitrary: hs)
  case (Cons x xs)
  let ?hs = "set_bundle (wh_Name x) ca hs"
  have s: "?hs = map (\<lambda>wh. if wh_Name wh = wh_Name x then wh\<lparr> wh_caBundle := ca \<rparr> else wh) hs"
    using Cons.prems(2) by (simp add: set_bundle_def)
  have "wh_Name \<circ> (\<lambda>wh :: MutatingWebhook. if wh_Name wh = wh_Name x then wh\<lparr> wh_caBundle := ca \<rparr> else wh) = wh_Name" by (simp add: fun_eq_iff)
  then have "wh_Name ` set ?hs = wh_Name ` set hs" unfolding s set_map image_comp by (simp only:)
  then have "merge_entries (map (\<lambda>wh. decoded (patch_entry ca wh)) xs) ?hs =
      Some (map (\<lambda>wh. if wh_Name wh \<in> wh_Name ` set xs then wh\<lparr> wh_caBundle := ca \<rparr> else wh) ?hs)"
    using Cons.prems by (intro Cons.IH) simp_all
  then show ?case using Cons.prems(1) by (auto simp: merge_entry_bundle s)
qed simp

text \<open>Applied to the webhooks it was made from, the patch sets every CA bundle and nothing else.\<close>

lemma merge_document:
  assumes "\<forall>wh \<in> set hs. utf8_text (wh_Name wh)"
  shows "strategic_merge (print_json (patch_document ca hs)) hs = Some (map (\<lambda>wh. wh\<lparr> wh_caBundle := ca \<rparr>) hs)"
proof -
  have "parse_json (print_json (patch_document ca hs)) = Some (on_strings html_escape (patch_document ca hs))"
    "decoded (on_strings html_escape (patch_document ca hs)) = decoded (patch_document ca hs)"
    by (rule parse_print [OF patch_document_ok], rule decoded_html [OF patch_document_ok])
  moreover have "field ''webhooks'' (decoded (patch_document ca hs)) =
      Some (if hs = [] then JNull else JArr (map (\<lambda>wh. decoded (patch_entry ca wh)) hs))"
    by (simp add: decoded_def patch_document_def literal_keys field_def comp_def)
  moreover have "merge_entries (map (\<lambda>wh. decoded (patch_entry ca wh)) hs) hs = Some (map (\<lambda>wh. wh\<lparr> wh_caBundle := ca \<rparr>) hs)"
    using merge_entries_bundle [OF assms subset_refl] by simp
  ultimately show ?thesis by (simp add: strategic_merge_def)
qed


section \<open>The secret\<close>

lemma kube_get_secret: "kube_laws cl V \<Longrightarrow> cl_GetSecret cl ns n w = (r, w') \<Longrightarrow>
   same_view V w w' \<and> (\<forall>s. r = Inr s \<longrightarrow> cv_secret V w (ns, n) = Some s \<and> sec_Name s = n)"
  unfolding kube_laws_def by metis

lemma kube_store: "kube_laws cl V \<Longrightarrow> cl_UpdateSecret cl ns s w = (Inr r, w') \<Longrightarrow> stores_secret V ns s w w'"
  "kube_laws cl V \<Longrightarrow> cl_CreateSecret cl ns s w = (Inr r, w') \<Longrightarrow> stores_secret V ns s w w'"
  unfolding kube_laws_def by metis+

lemma kube_get_hooks: "kube_laws cl V \<Longrightarrow> cl_GetWebhook cl n w = (r, w') \<Longrightarrow>
   same_view V w w' \<and> (\<forall>hs. r = Inr hs \<longrightarrow> cv_hooks V w n = Some hs \<and> (\<forall>wh \<in> set hs. utf8_text (wh_Name wh)))"
  unfolding kube_laws_def by metis

lemma kube_patch: "kube_laws cl V \<Longrightarrow> cl_PatchWebhook cl n p w = (Inr r, w') \<Longrightarrow> cv_hooks V w n = Some hs \<Longrightarrow>
   strategic_merge p hs = Some hs' \<Longrightarrow> cv_hooks V w' = (cv_hooks V w)(n \<mapsto> hs') \<and> cv_secret V w' = cv_secret V w"
  unfolding kube_laws_def by metis

lemma ensure_stores:
  assumes "kube_laws cl V" "ensureSecret cl ns n ca crt key w = (None, w')"
  shows "cv_hooks V w' = cv_hooks V w \<and>
    (\<exists>s. cv_secret V w' = (cv_secret V w)((ns, n) \<mapsto> s) \<and> sec_Data s = tls_data ca crt key)"
proof -
  obtain r w1 where g: "cl_GetSecret cl ns n w = (r, w1)" by fastforce
  then have v: "same_view V w w1" "\<forall>s. r = Inr s \<longrightarrow> sec_Name s = n"
    using kube_get_secret [OF assms(1)] by blast+
  obtain s where "stores_secret V ns s w1 w'" "sec_Name s = n" "sec_Data s = tls_data ca crt key"
  proof (cases r)
    case (Inr existing)
    let ?s = "existing\<lparr> sec_Data := tls_data ca crt key \<rparr>"
    obtain r2 where "cl_UpdateSecret cl ns ?s w1 = (Inr r2, w')"
      using assms(2) g Inr by (auto simp: ensureSecret_def split: prod.splits sum.splits)
    then show ?thesis using that [of ?s] kube_store(1) [OF assms(1)] v(2) Inr by simp
  next
    case (Inl e)
    let ?s = "\<lparr> sec_Name = n, sec_Namespace = ns, sec_Type = ''kubernetes.io/tls'',
        sec_Data = tls_data ca crt key, sec_Meta = '''' \<rparr>"
    obtain r2 where "cl_CreateSecret cl ns ?s w1 = (Inr r2, w')"
      using assms(2) g Inl by (auto simp: ensureSecret_def split: prod.splits sum.splits)
    then show ?thesis using that [of ?s] kube_store(2) [OF assms(1)] by simp
  qed
  then show ?thesis using v(1) by (auto simp: stores_secret_def same_view_def)
qed

text \<open>A pair of certificates as a run makes them: the CA, the leaf, and the leaf's key.\<close>

definition issued :: "x509_lib \<Rightarrow> run_env \<Rightarrow> string \<Rightarrow> string \<Rightarrow> string \<Rightarrow> rsa_private \<Rightarrow> rsa_private \<Rightarrow> bool" where
  "issued lib env dns ca leaf caKey key \<longleftrightarrow>
     re_GenerateKey env 0 2048 = Inr caKey \<and> re_GenerateKey env 1 2048 = Inr key \<and>
     (\<exists>serial. lib_CreateCertificate lib (ca_template env serial) (ca_template env serial) (rk_Public caKey) caKey = Inr ca) \<and>
     (\<exists>caCert serial. lib_ParseCertificate lib ca = Inr caCert \<and>
        lib_CreateCertificate lib (serving_template env serial dns [dns]) caCert (rk_Public key) caKey = Inr leaf)"

lemma generateCA_inv:
  assumes "generateCA lib env = Inr (caPEM, caKeyPEM)"
  shows "\<exists>caKey serial der. re_GenerateKey env 0 2048 = Inr caKey \<and>
    lib_CreateCertificate lib (ca_template env serial) (ca_template env serial) (rk_Public caKey) caKey = Inr der \<and>
    caPEM = pem lib ''CERTIFICATE'' der \<and> caKeyPEM = pem lib ''RSA PRIVATE KEY'' (lib_MarshalPKCS1 lib caKey)"
  using assms by (auto simp: generateCA_def Let_def split: sum.splits)

lemma generate_issues:
  assumes "x509_laws lib" "generateCA lib env = Inr (caPEM, caKeyPEM)"
    and "generateServingCert lib env caPEM caKeyPEM [dns] = Returns (Inr (certPEM, keyPEM))"
  shows "\<exists>ca leaf caKey key. issued lib env dns ca leaf caKey key \<and> caPEM = pem lib ''CERTIFICATE'' ca \<and>
    certPEM = pem lib ''CERTIFICATE'' leaf \<and> keyPEM = pem lib ''RSA PRIVATE KEY'' (lib_MarshalPKCS1 lib key)"
proof -
  obtain caKey serial ca where ca: "re_GenerateKey env 0 2048 = Inr caKey"
      "lib_CreateCertificate lib (ca_template env serial) (ca_template env serial) (rk_Public caKey) caKey = Inr ca"
      "caPEM = pem lib ''CERTIFICATE'' ca" "caKeyPEM = pem lib ''RSA PRIVATE KEY'' (lib_MarshalPKCS1 lib caKey)"
    using generateCA_inv [OF assms(2)] by blast
  have "lib_PemDecode lib caPEM = Some \<lparr> pb_Type = ''CERTIFICATE'', pb_Bytes = ca \<rparr>"
    "lib_PemDecode lib caKeyPEM = Some \<lparr> pb_Type = ''RSA PRIVATE KEY'', pb_Bytes = lib_MarshalPKCS1 lib caKey \<rparr>"
    "lib_ParsePKCS1 lib (lib_MarshalPKCS1 lib caKey) = Inr caKey"
    using assms(1) ca(3,4) unfolding x509_laws_def by blast+
  with assms(3) obtain caCert key serial' leaf where
      "lib_ParseCertificate lib ca = Inr caCert" "re_GenerateKey env 1 2048 = Inr key"
      "lib_CreateCertificate lib (serving_template env serial' dns [dns]) caCert (rk_Public key) caKey = Inr leaf"
      "certPEM = pem lib ''CERTIFICATE'' leaf" "keyPEM = pem lib ''RSA PRIVATE KEY'' (lib_MarshalPKCS1 lib key)"
    by (auto simp: generateServingCert_def Let_def split: sum.splits)
  then show ?thesis using ca unfolding issued_def by blast
qed


lemma x509_pem: "x509_laws lib \<Longrightarrow> lib_PemDecode lib (pem lib ''CERTIFICATE'' b) = Some \<lparr> pb_Type = ''CERTIFICATE'', pb_Bytes = b \<rparr>"
  unfolding x509_laws_def by blast

lemma x509_create:
  "\<lbrakk> x509_laws lib; lib_CreateCertificate lib tmpl parent pub priv = Inr der; c_IsCA tmpl \<Longrightarrow> c_BasicConstraintsValid tmpl \<rbrakk> \<Longrightarrow>
   lib_ParseCertificate lib der = Inr (tmpl\<lparr> c_Issuer := c_Subject parent, c_PublicKey := Some pub,
     c_NotBefore := truncate_second (c_NotBefore tmpl), c_NotAfter := truncate_second (c_NotAfter tmpl) \<rparr>) \<and>
   (\<forall>pk. lib_Signed lib der pk \<longleftrightarrow> pk = rk_Public priv)"
  unfolding x509_laws_def by blast

lemma x509_pair: "\<lbrakk> x509_laws lib; lib_ParseCertificate lib der = Inr c; c_PublicKey c = Some (rk_Public k) \<rbrakk> \<Longrightarrow>
   lib_X509KeyPair lib (pem lib ''CERTIFICATE'' der) (pem lib ''RSA PRIVATE KEY'' (lib_MarshalPKCS1 lib k)) = Inr der"
  unfolding x509_laws_def by blast

lemma issued_parses:
  assumes "x509_laws lib" "issued lib env dns ca leaf caKey key"
  shows "\<exists>serial. lib_ParseCertificate lib ca = Inr ((ca_template env serial)\<lparr> c_Issuer := ''koshi-webhook-ca'',
       c_PublicKey := Some (rk_Public caKey), c_NotBefore := truncate_second (re_Now env 0 - Minute),
       c_NotAfter := truncate_second (re_Now env 1 + 10 * 365 * 24 * Hour) \<rparr>)"
    "\<exists>serial. lib_ParseCertificate lib leaf = Inr ((serving_template env serial dns [dns])\<lparr> c_Issuer := ''koshi-webhook-ca'',
       c_PublicKey := Some (rk_Public key), c_NotBefore := truncate_second (re_Now env 2 - Minute),
       c_NotAfter := truncate_second (re_Now env 3 + 365 * 24 * Hour) \<rparr>)"
    "lib_Signed lib leaf pk \<longleftrightarrow> pk = rk_Public caKey"
proof -
  obtain n1 n2 caCert where i:
      "lib_CreateCertificate lib (ca_template env n1) (ca_template env n1) (rk_Public caKey) caKey = Inr ca"
      "lib_ParseCertificate lib ca = Inr caCert"
      "lib_CreateCertificate lib (serving_template env n2 dns [dns]) caCert (rk_Public key) caKey = Inr leaf"
    using assms(2) unfolding issued_def by blast
  note ca = x509_create [OF assms(1) i(1)] and leaf = x509_create [OF assms(1) i(3)]
  show p: "\<exists>serial. lib_ParseCertificate lib ca = Inr ((ca_template env serial)\<lparr> c_Issuer := ''koshi-webhook-ca'',
       c_PublicKey := Some (rk_Public caKey), c_NotBefore := truncate_second (re_Now env 0 - Minute),
       c_NotAfter := truncate_second (re_Now env 1 + 10 * 365 * 24 * Hour) \<rparr>)"
    using ca by (auto simp: ca_template_def)
  then have "c_Subject caCert = ''koshi-webhook-ca''" using i(2) by (auto simp: ca_template_def)
  then show "\<exists>serial. lib_ParseCertificate lib leaf = Inr ((serving_template env serial dns [dns])\<lparr> c_Issuer := ''koshi-webhook-ca'',
       c_PublicKey := Some (rk_Public key), c_NotBefore := truncate_second (re_Now env 2 - Minute),
       c_NotAfter := truncate_second (re_Now env 3 + 365 * 24 * Hour) \<rparr>)"
    using leaf by (auto simp: serving_template_def)
  show "lib_Signed lib leaf pk \<longleftrightarrow> pk = rk_Public caKey" using leaf by (simp add: serving_template_def)
qed

text \<open>
  A leaf of one run is trusted under the CA of a run (the same or another) exactly when the keys of
  the CAs agree and the time is within both certificates.
\<close>

lemma issued_trust:
  assumes "x509_laws lib" "issued lib env dns ca leaf caKey key" "issued lib env' dns' ca' leaf' caKey' key'"
  shows "trusts lib (pem lib ''CERTIFICATE'' ca') leaf dns t \<longleftrightarrow> rk_Public caKey' = rk_Public caKey \<and>
     truncate_second (re_Now env' 0 - Minute) \<le> t \<and> t \<le> truncate_second (re_Now env' 1 + 10 * 365 * 24 * Hour) \<and>
     truncate_second (re_Now env 2 - Minute) \<le> t \<and> t \<le> truncate_second (re_Now env 3 + 365 * 24 * Hour)"
proof -
  obtain n1 n2 where p:
      "lib_ParseCertificate lib ca' = Inr ((ca_template env' n1)\<lparr> c_Issuer := ''koshi-webhook-ca'',
         c_PublicKey := Some (rk_Public caKey'), c_NotBefore := truncate_second (re_Now env' 0 - Minute),
         c_NotAfter := truncate_second (re_Now env' 1 + 10 * 365 * 24 * Hour) \<rparr>)"
      "lib_ParseCertificate lib leaf = Inr ((serving_template env n2 dns [dns])\<lparr> c_Issuer := ''koshi-webhook-ca'',
         c_PublicKey := Some (rk_Public key), c_NotBefore := truncate_second (re_Now env 2 - Minute),
         c_NotAfter := truncate_second (re_Now env 3 + 365 * 24 * Hour) \<rparr>)"
    using issued_parses(1) [OF assms(1,3)] issued_parses(2) [OF assms(1,2)] by blast
  show ?thesis
    unfolding trusts_def x509_pem [OF assms(1)]
    by (simp add: p issued_parses(3) [OF assms(1,2)] ca_template_def serving_template_def)
qed

section \<open>The phases\<close>

lemma secret_phase:
  assumes "x509_laws lib" "newClient kube = Inr cl" "kube_laws cl V"
    and "RunSecretPhase getenv lib env kube w = (Returns None, w')"
  shows "\<exists>ca leaf caKey key s. issued lib env (service_dns getenv) ca leaf caKey key \<and> cv_hooks V w' = cv_hooks V w \<and>
    cv_secret V w' = (cv_secret V w)((getenv ''KOSHI_NAMESPACE'', getenv ''KOSHI_SECRET_NAME'') \<mapsto> s) \<and>
    sec_Data s = tls_data (pem lib ''CERTIFICATE'' ca) (pem lib ''CERTIFICATE'' leaf)
      (pem lib ''RSA PRIVATE KEY'' (lib_MarshalPKCS1 lib key))"
proof -
  obtain caPEM caKeyPEM certPEM keyPEM where g: "generateCA lib env = Inr (caPEM, caKeyPEM)"
      "generateServingCert lib env caPEM caKeyPEM [service_dns getenv] = Returns (Inr (certPEM, keyPEM))"
      "ensureSecret cl (getenv ''KOSHI_NAMESPACE'') (getenv ''KOSHI_SECRET_NAME'') caPEM certPEM keyPEM w = (None, w')"
    using assms(2,4) unfolding RunSecretPhase_def Let_def
    by (auto split: if_splits sum.splits prod.splits outcome.splits)
  show ?thesis
    using generate_issues [OF assms(1) g(1,2)] ensure_stores [OF assms(3) g(3)] by fast
qed

lemma bundle_phase:
  assumes "newClient kube = Inr cl" "kube_laws cl V" "RunCABundlePhase getenv kube w = (None, w')"
  shows "\<exists>s ca hs. cv_secret V w (getenv ''KOSHI_NAMESPACE'', getenv ''KOSHI_SECRET_NAME'') = Some s \<and>
    sec_Data s ''ca.crt'' = Some ca \<and> cv_hooks V w (getenv ''KOSHI_WEBHOOK_NAME'') = Some hs \<and>
    cv_hooks V w' = (cv_hooks V w)(getenv ''KOSHI_WEBHOOK_NAME'' \<mapsto> map (\<lambda>wh. wh\<lparr> wh_caBundle := ca \<rparr>) hs) \<and>
    cv_secret V w' = cv_secret V w"
proof -
  let ?n = "getenv ''KOSHI_WEBHOOK_NAME''"
  obtain s ca w1 where s: "cl_GetSecret cl (getenv ''KOSHI_NAMESPACE'') (getenv ''KOSHI_SECRET_NAME'') w = (Inr s, w1)"
      "sec_Data s ''ca.crt'' = Some ca" "patchWebhookCABundle cl ?n ca w1 = (None, w')"
    using assms(1,3) unfolding RunCABundlePhase_def Let_def
    by (auto split: if_splits sum.splits prod.splits option.splits)
  then obtain hs w2 r where h: "cl_GetWebhook cl ?n w1 = (Inr hs, w2)"
      "cl_PatchWebhook cl ?n (print_json (patch_document ca hs)) w2 = (Inr r, w')"
    unfolding patchWebhookCABundle_def by (auto split: sum.splits prod.splits)
  have v: "same_view V w w1" "cv_secret V w (getenv ''KOSHI_NAMESPACE'', getenv ''KOSHI_SECRET_NAME'') = Some s"
    "same_view V w1 w2" "cv_hooks V w1 ?n = Some hs" "\<forall>wh \<in> set hs. utf8_text (wh_Name wh)"
    using kube_get_secret [OF assms(2) s(1)] kube_get_hooks [OF assms(2) h(1)] by simp_all
  have "cv_hooks V w2 ?n = Some hs" using v(3,4) by (simp add: same_view_def)
  note kube_patch [OF assms(2) h(2) this merge_document [OF v(5)]]
  then show ?thesis using v s(2) by (auto simp: same_view_def)
qed

end
