(* ===== verification/Serving.thy ===== *)
theory Serving
  imports Startup Inject Certgen
begin

text \<open>
  \<^verbatim>\<open>cmd/koshi/main.go\<close> and \<^verbatim>\<open>cmd/koshi/injector.go\<close>: which handler a request reaches. Go's
  \<^verbatim>\<open>http.ServeMux\<close> is modelled for patterns that are a single literal segment or the catch-all:
  except for \<^verbatim>\<open>CONNECT\<close> it first cleans the escaped path and redirects when that changes it (the
  location is built from the cleaned path as if it were not escaped, so it is escaped once more),
  then compares the decoded segment. The escaped path of a request and the decoding of a segment
  are arguments (\<^verbatim>\<open>net/url\<close>). \<open>injector_start\<close> is the injector up to the point where it listens.
\<close>

section \<open>Cleaning paths\<close>

text \<open>The segments that remain of a rooted path, in reverse: dots vanish, two dots go up.\<close>

fun clean_segments :: "string list \<Rightarrow> string list \<Rightarrow> string list" where
  "clean_segments acc [] = acc"
| "clean_segments acc (s # ss) =
     (if s = '''' \<or> s = ''.'' then clean_segments acc ss
      else if s = ''..'' then clean_segments (tl acc) ss
      else clean_segments (s # acc) ss)"

definition path_of :: "string list \<Rightarrow> string" where
  "path_of ss = (if ss = [] then ''/'' else concat (map (\<lambda>s. CHR ''/'' # s) ss))"

text \<open>\<open>path.Clean\<close> on a rooted path, and \<open>cleanPath\<close>, which keeps a trailing slash.\<close>

definition path_Clean :: "string \<Rightarrow> string" where
  "path_Clean p = path_of (rev (clean_segments [] (split_slash p)))"

definition cleanPath :: "string \<Rightarrow> string" where
  "cleanPath p =
     (if p = '''' then ''/''
      else let p = (if hd p \<noteq> CHR ''/'' then CHR ''/'' # p else p); np = path_Clean p in
           if last p = CHR ''/'' \<and> np \<noteq> ''/'' then np @ ''/'' else np)"

section \<open>Redirects\<close>

text \<open>\<open>url.URL.EscapedPath\<close> of a decoded path, and \<open>hexEscapeNonASCII\<close> of \<^verbatim>\<open>http.Redirect\<close>.\<close>

definition hex_digit :: "string \<Rightarrow> nat \<Rightarrow> char" where
  "hex_digit alphabet n = alphabet ! (n mod 16)"

definition percent :: "string \<Rightarrow> char \<Rightarrow> string" where
  "percent alphabet c = [CHR ''%'', hex_digit alphabet ((of_char c :: nat) div 16), hex_digit alphabet (of_char c)]"

definition path_byte :: "char \<Rightarrow> bool" where
  "path_byte c \<longleftrightarrow> (let n = (of_char c :: nat) in
     48 \<le> n \<and> n \<le> 57 \<or> 65 \<le> n \<and> n \<le> 90 \<or> 97 \<le> n \<and> n \<le> 122 \<or> c \<in> set ''-_.~$&+,/:;=@'')"

definition escape_path :: "string \<Rightarrow> string" where
  "escape_path p = concat (map (\<lambda>c. if path_byte c then [c] else percent ''0123456789ABCDEF'' c) p)"

definition hexEscapeNonASCII :: "string \<Rightarrow> string" where
  "hexEscapeNonASCII s =
     concat (map (\<lambda>c. if (of_char c :: nat) < 128 then [c] else percent ''0123456789abcdef'' c) s)"

text \<open>The location of a redirect to a path, with the query of the request.\<close>

definition redirect_location :: "string \<Rightarrow> string \<Rightarrow> string" where
  "redirect_location path query =
     hexEscapeNonASCII (escape_path path @ (if query = '''' then '''' else CHR ''?'' # query))"

section \<open>Routing\<close>

datatype 'e routed = To 'e | MovedPermanently string

text \<open>A path of one segment that is one of the literals, or else the catch-all if there is one.\<close>

definition match_pattern :: "(string \<times> 'e) list \<Rightarrow> 'e \<Rightarrow> (string \<Rightarrow> string) \<Rightarrow> string \<Rightarrow> 'e" where
  "match_pattern literals rest unescape path =
     (case path of
        c # seg \<Rightarrow> if c = CHR ''/'' \<and> CHR ''/'' \<notin> set seg
                   then (case map_of literals (unescape seg) of None \<Rightarrow> rest | Some e \<Rightarrow> e) else rest
      | [] \<Rightarrow> rest)"

text \<open>
  The path a request is redirected to, if any. The path of a \<^verbatim>\<open>CONNECT\<close> request is not cleaned;
  an empty one is still redirected to the root when a catch-all pattern matches there.
\<close>

definition redirect_path :: "bool \<Rightarrow> string \<Rightarrow> string \<Rightarrow> string option" where
  "redirect_path catch_all meth escaped =
     (if meth = ''CONNECT'' \<and> (escaped \<noteq> '''' \<or> \<not> catch_all) \<or> cleanPath escaped = escaped then None
      else Some (cleanPath escaped))"

definition mux_route ::
  "bool \<Rightarrow> (string \<times> 'e) list \<Rightarrow> 'e \<Rightarrow> (string \<Rightarrow> string) \<Rightarrow> string \<Rightarrow> string \<Rightarrow> string \<Rightarrow> 'e routed" where
  "mux_route catch_all literals rest unescape meth escaped query =
     (case redirect_path catch_all meth escaped of
        Some path \<Rightarrow> MovedPermanently (redirect_location path query)
      | None \<Rightarrow> To (match_pattern literals rest unescape escaped))"

section \<open>The proxy's endpoints\<close>

datatype endpoint = Healthz | Readyz | StatusPage | Metrics | Proxied

definition proxy_patterns :: "(string \<times> endpoint) list" where
  "proxy_patterns = [(''healthz'', Healthz), (''readyz'', Readyz), (''status'', StatusPage), (''metrics'', Metrics)]"

datatype mux_reply =
    Plain int string
  | StatusReply status_reply
  | MetricsPage "metric list"
  | RedirectTo string
  | Handled "unit outcome"

definition serve_endpoint ::
  "Handler \<Rightarrow> request_lib \<Rightarrow> request_env \<Rightarrow> (string \<Rightarrow> gotime) \<Rightarrow> Request \<Rightarrow> endpoint \<Rightarrow> hstate \<Rightarrow> mux_reply \<times> hstate" where
  "serve_endpoint h lib env clk r e s =
     (case e of
        Healthz \<Rightarrow> (Plain (fst (healthz s)) (snd (healthz s)), s)
      | Readyz \<Rightarrow> (Plain (fst (readyz s)) (snd (readyz s)), s)
      | StatusPage \<Rightarrow> (case ServeStatus h clk r s of (reply, s) \<Rightarrow> (StatusReply reply, s))
      | Metrics \<Rightarrow> (MetricsPage (st_metrics s), s)
      | Proxied \<Rightarrow> (case ServeHTTP h lib env r s of (res, s) \<Rightarrow> (Handled res, s)))"

definition serve_mux ::
  "Handler \<Rightarrow> request_lib \<Rightarrow> request_env \<Rightarrow> (string \<Rightarrow> gotime) \<Rightarrow> (string \<Rightarrow> string) \<Rightarrow> string \<Rightarrow> Request \<Rightarrow>
     hstate \<Rightarrow> mux_reply \<times> hstate" where
  "serve_mux h lib env clk unescape escaped r s =
     (case mux_route True proxy_patterns Proxied unescape (rq_Method r) escaped (url_RawQuery (rq_URL r)) of
        MovedPermanently p \<Rightarrow> (RedirectTo p, s)
      | To e \<Rightarrow> serve_endpoint h lib env clk r e s)"

section \<open>The injector\<close>

datatype injector_endpoint = Mutate | InjectorHealthz | InjectorReadyz | NotFound

definition injector_patterns :: "(string \<times> injector_endpoint) list" where
  "injector_patterns = [(''mutate'', Mutate), (''healthz'', InjectorHealthz), (''readyz'', InjectorReadyz)]"

datatype injector_reply = Webhook webhook_reply | InjectorPlain int string | InjectorMoved string

definition injector_mux ::
  "webhook_lib \<Rightarrow> WebhookConfig \<Rightarrow> (nat \<Rightarrow> bool) \<Rightarrow> (string \<Rightarrow> string) \<Rightarrow> string \<Rightarrow> string \<Rightarrow> string \<Rightarrow> string option \<Rightarrow>
     injector_reply" where
  "injector_mux lib cfg order unescape meth escaped query body =
     (case mux_route False injector_patterns NotFound unescape meth escaped query of
        MovedPermanently p \<Rightarrow> InjectorMoved p
      | To Mutate \<Rightarrow> Webhook (ServeWebhook lib cfg order body)
      | To InjectorHealthz \<Rightarrow> InjectorPlain 200 ''ok''
      | To InjectorReadyz \<Rightarrow> InjectorPlain 200 ''ready''
      | To NotFound \<Rightarrow> InjectorPlain 404 (''404 page not found'' @ [CHR 0x0A]))"

definition or_default :: "string \<Rightarrow> string \<Rightarrow> string" where
  "or_default d x = (if x = '''' then d else x)"

text \<open>The injector exits when its certificate cannot be loaded; it loads it once.\<close>

definition injector_start ::
  "environment \<Rightarrow> (string \<Rightarrow> string + string) \<Rightarrow> x509_lib \<Rightarrow> (string \<Rightarrow> int option) \<Rightarrow> (string \<Rightarrow> string) \<Rightarrow>
     string + (tls_config \<times> WebhookConfig)" where
  "injector_start getenv read_file lib atoi resources =
     (case LoadTLSConfig read_file lib (or_default ''/etc/koshi-tls/tls.crt'' (getenv ''KOSHI_TLS_CERT''))
             (or_default ''/etc/koshi-tls/tls.key'' (getenv ''KOSHI_TLS_KEY'')) of
        Inl e \<Rightarrow> Inl e | Inr tlsCfg \<Rightarrow> Inr (tlsCfg, injector_config getenv atoi resources))"

section \<open>A redirect is followed once\<close>

definition seg_ok :: "string \<Rightarrow> bool" where
  "seg_ok s \<longleftrightarrow> s \<noteq> '''' \<and> s \<noteq> ''.'' \<and> s \<noteq> ''..'' \<and> CHR ''/'' \<notin> set s"

lemma split_slash_free: "list_all (\<lambda>x. CHR ''/'' \<notin> set x) (split_slash p)"
  by (induction p rule: split_slash.induct) (auto split: list.split)

lemma clean_segments_ok:
  "\<lbrakk> list_all (\<lambda>x. CHR ''/'' \<notin> set x) ss; list_all seg_ok acc \<rbrakk> \<Longrightarrow> list_all seg_ok (clean_segments acc ss)"
proof (induction ss arbitrary: acc)
  case (Cons s ss)
  have "list_all seg_ok (tl acc)" using Cons.prems(2) by (cases acc) simp_all
  with Cons show ?case by (auto simp: seg_ok_def [of s])
qed simp

lemma clean_segments_id: "list_all seg_ok ss \<Longrightarrow> clean_segments acc (ss @ ts) = clean_segments (rev ss @ acc) ts"
  by (induction ss arbitrary: acc) (simp_all add: seg_ok_def)

lemma split_slash_seg:
  assumes "CHR ''/'' \<notin> set s" "split_slash y = '''' # ss"
  shows "split_slash (s @ y) = s # ss"
  using assms by (induction s) auto

lemma split_path:
  assumes "list_all seg_ok ss"
  shows "split_slash (concat (map (\<lambda>s. CHR ''/'' # s) ss)) = '''' # ss"
    "split_slash (concat (map (\<lambda>s. CHR ''/'' # s) ss) @ ''/'') = '''' # ss @ ['''']"
  using assms by (induction ss) (simp_all add: split_slash_seg seg_ok_def)

lemma path_of_root: "list_all seg_ok ss \<Longrightarrow> path_of ss = ''/'' \<longleftrightarrow> ss = []"
  by (cases ss) (auto simp: path_of_def seg_ok_def)

lemma path_of_last:
  assumes "list_all seg_ok ss" "ss \<noteq> []"
  shows "last (path_of ss) \<noteq> CHR ''/''"
proof -
  obtain ts s where ss: "ss = ts @ [s]" using assms(2) by (metis rev_exhaust)
  then have "s \<noteq> []" "CHR ''/'' \<notin> set s" using assms(1) by (simp_all add: seg_ok_def)
  then have "last (path_of ss) \<in> set s" using last_in_set [of s] by (simp add: path_of_def ss)
  with \<open>CHR ''/'' \<notin> set s\<close> show ?thesis by auto
qed

lemma path_Clean_path:
  assumes "list_all seg_ok ss"
  shows "path_Clean (path_of ss) = path_of ss" "path_Clean (path_of ss @ ''/'') = path_of ss"
  using split_path [OF assms] clean_segments_id [OF assms, of "[]"] clean_segments_id [OF assms, of "[]" "[]"]
  by (simp_all add: path_Clean_def path_of_def)

text \<open>A cleaned path is a list of good segments, with or without a slash at its end.\<close>

lemma cleanPath_form:
  obtains ss where "list_all seg_ok ss" "cleanPath p = path_of ss"
  | ss where "list_all seg_ok ss" "ss \<noteq> []" "cleanPath p = path_of ss @ ''/''"
proof (cases "p = ''''")
  case True
  then show ?thesis using that(1) [of "[]"] by (simp add: cleanPath_def path_of_def)
next
  case False
  define q where "q = (if hd p \<noteq> CHR ''/'' then CHR ''/'' # p else p)"
  define ss where "ss = rev (clean_segments [] (split_slash q))"
  have ok: "list_all seg_ok ss"
    using clean_segments_ok [OF split_slash_free, of "[]" q] by (simp add: ss_def)
  have "cleanPath p = (if last q = CHR ''/'' \<and> ss \<noteq> [] then path_of ss @ ''/'' else path_of ss)"
    using False path_of_root [OF ok] by (simp add: cleanPath_def path_Clean_def Let_def q_def [symmetric] ss_def [symmetric])
  then show ?thesis using that ok by (metis (no_types))
qed

lemma hd_path_of: "path_of ss \<noteq> [] \<and> hd (path_of ss) = CHR ''/''"
  by (cases ss) (simp_all add: path_of_def)

text \<open>Escaping a cleaned path leaves it clean, so nobody is redirected twice.\<close>

lemma escape_path_append: "escape_path (p @ q) = escape_path p @ escape_path q"
  by (simp add: escape_path_def)

lemma hex_digit_no_slash: "hex_digit ''0123456789ABCDEF'' n \<noteq> CHR ''/''"
proof -
  have "hex_digit ''0123456789ABCDEF'' n \<in> set ''0123456789ABCDEF''"
    unfolding hex_digit_def by (rule nth_mem) simp
  moreover have "CHR ''/'' \<notin> set ''0123456789ABCDEF''" by simp
  ultimately show ?thesis by metis
qed

lemma escape_path_Cons:
  "escape_path (c # p) = (if path_byte c then [c] else percent ''0123456789ABCDEF'' c) @ escape_path p"
  by (simp add: escape_path_def)

lemma escape_path_slash: "CHR ''/'' \<in> set (escape_path s) \<Longrightarrow> CHR ''/'' \<in> set s"
proof (induction s)
  case (Cons c s)
  then show ?case
    using hex_digit_no_slash [of "(of_char c :: nat) div 16"] hex_digit_no_slash [of "of_char c"]
    by (auto simp: escape_path_Cons percent_def split: if_splits)
qed (simp add: escape_path_def)

lemma escape_path_plain: "CHR ''%'' \<notin> set (escape_path s) \<Longrightarrow> escape_path s = s"
proof (induction s)
  case (Cons c s)
  then show ?case by (cases "path_byte c") (simp_all add: escape_path_Cons percent_def)
qed (simp add: escape_path_def)

lemma escape_seg_ok:
  assumes "seg_ok s"
  shows "seg_ok (escape_path s)"
proof -
  have "escape_path s \<noteq> t" if "t \<in> {'''', ''.'', ''..''}" for t
  proof
    assume t: "escape_path s = t"
    have "CHR ''%'' \<notin> set t" using that by auto
    then have "s = t" using escape_path_plain [of s] t by simp
    then show False using assms that by (auto simp: seg_ok_def)
  qed
  moreover have "CHR ''/'' \<notin> set (escape_path s)"
    using assms escape_path_slash [of s] by (auto simp: seg_ok_def)
  ultimately show ?thesis by (simp add: seg_ok_def)
qed

lemma escape_path_of: "escape_path (path_of ss) = path_of (map escape_path ss)"
proof -
  have "path_byte (CHR ''/'')" by (simp add: path_byte_def)
  then have one: "escape_path (CHR ''/'' # p) = CHR ''/'' # escape_path p" for p
    by (simp add: escape_path_Cons)
  have nil: "escape_path '''' = ''''" by (simp add: escape_path_def)
  show ?thesis
  proof (cases "ss = []")
    case False
    have "escape_path (concat (map (\<lambda>s. CHR ''/'' # s) ss)) = concat (map (\<lambda>s. CHR ''/'' # s) (map escape_path ss))"
      by (induction ss) (simp_all add: nil one escape_path_append)
    with False show ?thesis by (simp add: path_of_def)
  qed (simp add: path_of_def one nil)
qed

lemma cleanPath_good:
  assumes "list_all seg_ok ss"
  shows "cleanPath (path_of ss) = path_of ss" "ss \<noteq> [] \<Longrightarrow> cleanPath (path_of ss @ ''/'') = path_of ss @ ''/''"
  using hd_path_of [of ss] path_of_last [OF assms] path_of_root [OF assms] path_Clean_path [OF assms]
  by (cases "ss = []"; simp add: cleanPath_def Let_def hd_append)+

lemma redirected_once: "cleanPath (escape_path (cleanPath p)) = escape_path (cleanPath p)"
proof -
  have ok: "list_all seg_ok (map escape_path ss)" if "list_all seg_ok ss" for ss
    using that by (induction ss) (simp_all add: escape_seg_ok)
  have slash: "escape_path (q @ ''/'') = escape_path q @ ''/''" for q
    by (simp add: escape_path_append) (simp add: escape_path_def path_byte_def)
  show ?thesis
    by (rule cleanPath_form [of p]) (simp_all add: escape_path_of slash cleanPath_good [OF ok])
qed

section \<open>Properties\<close>

text \<open>The request names a single segment, which decodes to the given name.\<close>

definition names_segment :: "(string \<Rightarrow> string) \<Rightarrow> string \<Rightarrow> string \<Rightarrow> bool" where
  "names_segment unescape escaped x \<longleftrightarrow> escaped \<noteq> '''' \<and> hd escaped = CHR ''/'' \<and> CHR ''/'' \<notin> set (tl escaped) \<and>
     unescape (tl escaped) = x"

text \<open>
  C33. Routing of the proxy's server. A request whose path is not clean is redirected to the clean
  one, escaped once more and with its query, and changes nothing (a \<^verbatim>\<open>CONNECT\<close> request only when
  its path is empty). Otherwise \<open>/healthz\<close> and \<open>/readyz\<close> answer 503 with \<open>degraded\<close> exactly when
  the handler is degraded, else 200 with \<open>ok\<close> and \<open>ready\<close>, and change nothing; \<open>/status\<close> answers
  what \<open>ServeStatus\<close> does and changes at most the tracker, \<open>/metrics\<close> the metrics as they are;
  and every other path, whatever it is, is served by the request handler.
\<close>

theorem mux_routing:
  "case serve_mux h lib env clk unescape escaped r s of (reply, s') \<Rightarrow>
     let meth = rq_Method r; names = names_segment unescape escaped in
     if cleanPath escaped \<noteq> escaped \<and> (meth = ''CONNECT'' \<longrightarrow> escaped = '''') then
       reply = RedirectTo (redirect_location (cleanPath escaped) (url_RawQuery (rq_URL r))) \<and> s' = s
     else if names ''healthz'' then
       reply = (if IsDegraded s then Plain 503 ''degraded'' else Plain 200 ''ok'') \<and> s' = s
     else if names ''readyz'' then
       reply = (if IsDegraded s then Plain 503 ''degraded'' else Plain 200 ''ready'') \<and> s' = s
     else if names ''status'' then
       reply = StatusReply (fst (ServeStatus h clk r s)) \<and> s' = s\<lparr> st_tracker := st_tracker s' \<rparr>
     else if names ''metrics'' then reply = MetricsPage (st_metrics s) \<and> s' = s
     else \<exists>res. reply = Handled res \<and> ServeHTTP h lib env r s = (res, s')"
proof (cases "redirect_path True (rq_Method r) escaped")
  case (Some p)
  then have "p = cleanPath escaped" "cleanPath escaped \<noteq> escaped" "rq_Method r = ''CONNECT'' \<longrightarrow> escaped = ''''"
    by (auto simp: redirect_path_def split: if_splits)
  with Some show ?thesis by (simp add: serve_mux_def mux_route_def Let_def)
next
  case None
  then have no: "\<not> (cleanPath escaped \<noteq> escaped \<and> (rq_Method r = ''CONNECT'' \<longrightarrow> escaped = ''''))"
    by (auto simp: redirect_path_def split: if_splits)
  have route: "serve_mux h lib env clk unescape escaped r s =
      serve_endpoint h lib env clk r (match_pattern proxy_patterns Proxied unescape escaped) s"
    by (simp add: serve_mux_def mux_route_def None)
  have match: "match_pattern proxy_patterns Proxied unescape escaped =
      (let names = names_segment unescape escaped in
       if names ''healthz'' then Healthz else if names ''readyz'' then Readyz else if names ''status'' then StatusPage
       else if names ''metrics'' then Metrics else Proxied)"
    by (cases escaped) (auto simp: match_pattern_def names_segment_def proxy_patterns_def Let_def)
  show ?thesis
    unfolding route match Let_def if_not_P [OF no]
    by (simp add: serve_endpoint_def healthz_def readyz_def ServeStatus_def split: prod.split)
qed

text \<open>The witness serves a path with an escaped segment, a redirected one and one below a page's.\<close>

theorem mux_routing_witness:
  "fst (serve_mux (demo_handler ''enforcement'') demo_lib (demo_env demo_answer) (\<lambda>_. 0)
     (\<lambda>x. x) ''/a/../healthz%20'' (demo_ask\<lparr> rq_Method := ''GET'' \<rparr>) demo_state) = RedirectTo ''/healthz%2520'' \<and>
   fst (serve_mux (demo_handler ''enforcement'') demo_lib (demo_env demo_answer) (\<lambda>_. 0)
     (\<lambda>x. x) ''/healthz'' demo_ask (demo_state\<lparr> st_degraded := True \<rparr>)) = Plain 503 ''degraded''"
proof -
  have c: "cleanPath ''/a/../healthz%20'' = ''/healthz%20''" "cleanPath ''/healthz'' = ''/healthz''"
    "redirect_location ''/healthz%20'' '''' = ''/healthz%2520''"
    by code_simp+
  have q: "url_RawQuery (rq_URL demo_ask) = ''''" by code_simp
  show ?thesis
    using mux_routing [where h = "demo_handler ''enforcement''" and lib = demo_lib and env = "demo_env demo_answer"
        and clk = "\<lambda>_. 0" and unescape = "\<lambda>x. x" and escaped = "''/a/../healthz%20''"
        and r = "demo_ask\<lparr> rq_Method := ''GET'' \<rparr>" and s = demo_state]
      mux_routing [where h = "demo_handler ''enforcement''" and lib = demo_lib and env = "demo_env demo_answer"
        and clk = "\<lambda>_. 0" and unescape = "\<lambda>x. x" and escaped = "''/healthz''" and r = demo_ask
        and s = "demo_state\<lparr> st_degraded := True \<rparr>"]
    by (simp add: c q names_segment_def IsDegraded_def split_beta)
qed

end
