(* ===== verification/Installation.thy ===== *)
theory Installation
  imports Serving
begin

text \<open>
  What the two certificate hooks and the injector achieve together: after an installation the API
  server trusts the webhook, and for how long; after an upgrade it does not trust an injector that
  was not restarted. The examples run the phases against a small certificate authority that keeps
  a ledger of what it may issue, and a cluster that is a pair of maps.
\<close>

section \<open>A ledger and a cluster for the examples\<close>

type_synonym ledger = "(Certificate \<times> string \<times> rsa_public \<times> rsa_private) list"

definition ledger_find :: "ledger \<Rightarrow> Certificate \<times> string \<times> rsa_public \<times> rsa_private \<Rightarrow> nat option" where
  "ledger_find L e = List.find (\<lambda>i. L ! i = e) [0..<min (length L) 256]"

definition ledger_entry :: "ledger \<Rightarrow> string \<Rightarrow> (Certificate \<times> string \<times> rsa_public \<times> rsa_private) option" where
  "ledger_entry L der = (case der of [c] \<Rightarrow>
      if (of_char c :: nat) < length L then Some (L ! of_char c) else None | _ \<Rightarrow> None)"

definition ledger_lib :: "ledger \<Rightarrow> x509_lib" where
  "ledger_lib L =
     \<lparr> lib_CreateCertificate = (\<lambda>tmpl parent pub priv.
          case ledger_find L (tmpl, c_Subject parent, pub, priv) of None \<Rightarrow> Inl ''refused'' | Some i \<Rightarrow> Inr [char_of i]),
       lib_ParseCertificate = (\<lambda>der. case ledger_entry L der of None \<Rightarrow> Inl ''malformed''
          | Some (tmpl, issuer, pub, priv) \<Rightarrow> Inr (tmpl\<lparr> c_Issuer := issuer, c_PublicKey := Some pub,
              c_NotBefore := truncate_second (c_NotBefore tmpl), c_NotAfter := truncate_second (c_NotAfter tmpl) \<rparr>)),
       lib_MarshalPKCS1 = (\<lambda>k. replicate (pk_N (rk_Public k)) CHR ''n'' @ replicate (pk_E (rk_Public k)) CHR ''e''
          @ replicate (rk_D k) CHR ''d''),
       lib_ParsePKCS1 = (\<lambda>s. Inr \<lparr> rk_Public = \<lparr> pk_N = count_list s CHR ''n'', pk_E = count_list s CHR ''e'' \<rparr>,
          rk_D = count_list s CHR ''d'' \<rparr>),
       lib_PemEncode = (\<lambda>b. (if pb_Type b = ''CERTIFICATE'' then CHR ''C'' else CHR ''K'') # pb_Bytes b),
       lib_PemDecode = (\<lambda>s. case s of [] \<Rightarrow> None
          | c # b \<Rightarrow> Some \<lparr> pb_Type = (if c = CHR ''C'' then ''CERTIFICATE'' else ''RSA PRIVATE KEY''), pb_Bytes = b \<rparr>),
       lib_X509KeyPair = (\<lambda>c k. if c = [] then Inl ''no certificate'' else Inr (tl c)),
       lib_Signed = (\<lambda>der pk. case ledger_entry L der of None \<Rightarrow> False | Some (_, _, _, priv) \<Rightarrow> pk = rk_Public priv) \<rparr>"

lemma ledger_created: "ledger_find L e = Some i \<Longrightarrow> ledger_entry L [char_of i] = Some e"
proof -
  assume "ledger_find L e = Some i"
  then have "i < length L" "i < 256" "L ! i = e" by (auto simp: ledger_find_def find_Some_iff)
  then show ?thesis by (simp add: ledger_entry_def)
qed

lemma count_replicate: "count_list (replicate n x) y = (if x = y then n else 0)"
  by (induction n) auto

lemma ledger_laws: "x509_laws (ledger_lib L)"
  unfolding x509_laws_def
proof (intro conjI allI impI)
  fix tmpl parent pub priv der
  assume "lib_CreateCertificate (ledger_lib L) tmpl parent pub priv = Inr der \<and> (c_IsCA tmpl \<longrightarrow> c_BasicConstraintsValid tmpl)"
  then obtain i where i: "ledger_find L (tmpl, c_Subject parent, pub, priv) = Some i" "der = [char_of i]"
    by (auto simp: ledger_lib_def split: option.splits)
  then show "lib_ParseCertificate (ledger_lib L) der = Inr (tmpl\<lparr> c_Issuer := c_Subject parent, c_PublicKey := Some pub,
      c_NotBefore := truncate_second (c_NotBefore tmpl), c_NotAfter := truncate_second (c_NotAfter tmpl) \<rparr>)"
    "lib_Signed (ledger_lib L) der pk \<longleftrightarrow> pk = rk_Public priv" for pk
    using ledger_created [OF i(1)] by (simp_all add: ledger_lib_def)
qed (auto simp: ledger_lib_def count_replicate)

type_synonym cluster = "(string \<times> string \<rightharpoonup> Secret) \<times> (string \<rightharpoonup> MutatingWebhook list)"

definition map_client :: "cluster Client" where
  "map_client =
     \<lparr> cl_GetSecret = (\<lambda>ns n w. case fst w (ns, n) of None \<Rightarrow> (Inl ''not found'', w)
          | Some s \<Rightarrow> if sec_Name s = n then (Inr s, w) else (Inl ''corrupt'', w)),
       cl_UpdateSecret = (\<lambda>ns s w. (Inr s, ((fst w)((ns, sec_Name s) \<mapsto> s), snd w))),
       cl_CreateSecret = (\<lambda>ns s w. if fst w (ns, sec_Name s) \<noteq> None then (Inl ''already exists'', w)
          else (Inr s, ((fst w)((ns, sec_Name s) \<mapsto> s), snd w))),
       cl_GetWebhook = (\<lambda>n w. case snd w n of None \<Rightarrow> (Inl ''not found'', w)
          | Some hs \<Rightarrow> if list_all (\<lambda>wh. list_all unescaped (wh_Name wh)) hs then (Inr hs, w) else (Inl ''bad name'', w)),
       cl_PatchWebhook = (\<lambda>n p w. case snd w n of None \<Rightarrow> (Inl ''not found'', w)
          | Some hs \<Rightarrow> (case strategic_merge p hs of None \<Rightarrow> (Inl ''bad patch'', w)
              | Some hs' \<Rightarrow> (Inr hs', (fst w, (snd w)(n \<mapsto> hs'))))) \<rparr>"

definition map_view :: "cluster cluster_view" where
  "map_view = \<lparr> cv_secret = fst, cv_hooks = snd \<rparr>"

lemma utf8_text_unescaped: "list_all unescaped s \<Longrightarrow> utf8_text s"
  using unescaped_raw [of s] utf8_text_unquote [of s] by simp

lemma map_client_laws: "kube_laws map_client map_view"
  unfolding kube_laws_def
  by (auto simp: map_client_def map_view_def same_view_def stores_secret_def list_all_iff
      intro!: utf8_text_unescaped split: option.splits if_splits)

definition map_kube :: "cluster kube_lib" where
  "map_kube = \<lparr> kl_InClusterConfig = Inr ''in cluster'', kl_NewForConfig = (\<lambda>_. Inr map_client) \<rparr>"

lemma map_kube_client: "newClient map_kube = Inr map_client"
  by (simp add: newClient_def map_kube_def)


section \<open>Properties\<close>

text \<open>The files the injector reads when the secret is mounted where its deployment mounts it.\<close>

definition mounts :: "Secret \<Rightarrow> (string \<Rightarrow> string + string) \<Rightarrow> bool" where
  "mounts s read_file \<longleftrightarrow> (\<forall>k v. sec_Data s k = Some v \<longrightarrow> read_file (''/etc/koshi-tls/'' @ k) = Inr v)"

lemma injector_presents_leaf:
  assumes "x509_laws lib" "issued lib env dns ca leaf caKey key" "mounts s read_file"
    and "getenv ''KOSHI_TLS_CERT'' \<in> {'''', ''/etc/koshi-tls/tls.crt''}" "getenv ''KOSHI_TLS_KEY'' \<in> {'''', ''/etc/koshi-tls/tls.key''}"
    and "sec_Data s = tls_data caPEM (pem lib ''CERTIFICATE'' leaf) (pem lib ''RSA PRIVATE KEY'' (lib_MarshalPKCS1 lib key))"
  shows "injector_start getenv read_file lib atoi res =
    Inr (\<lparr> tc_Certificates = [leaf], tc_MinVersion = 0x0303 \<rparr>, injector_config getenv atoi res)"
proof -
  obtain n where "lib_ParseCertificate lib leaf = Inr ((serving_template env n dns [dns])\<lparr> c_Issuer := ''koshi-webhook-ca'',
      c_PublicKey := Some (rk_Public key), c_NotBefore := truncate_second (re_Now env 2 - Minute),
      c_NotAfter := truncate_second (re_Now env 3 + 365 * 24 * Hour) \<rparr>)"
    using issued_parses(2) [OF assms(1,2)] by blast
  then have "lib_X509KeyPair lib (pem lib ''CERTIFICATE'' leaf) (pem lib ''RSA PRIVATE KEY'' (lib_MarshalPKCS1 lib key)) = Inr leaf"
    by (rule x509_pair [OF assms(1)]) simp
  moreover have "read_file (''/etc/koshi-tls/'' @ ''tls.crt'') = Inr (pem lib ''CERTIFICATE'' leaf)"
    "read_file (''/etc/koshi-tls/'' @ ''tls.key'') = Inr (pem lib ''RSA PRIVATE KEY'' (lib_MarshalPKCS1 lib key))"
    by (rule assms(3) [unfolded mounts_def, rule_format], simp add: assms(6) tls_data_def)+
  moreover have "or_default ''/etc/koshi-tls/tls.crt'' (getenv ''KOSHI_TLS_CERT'') = ''/etc/koshi-tls/tls.crt''"
    "or_default ''/etc/koshi-tls/tls.key'' (getenv ''KOSHI_TLS_KEY'') = ''/etc/koshi-tls/tls.key''"
    using assms(4,5) by (auto simp: or_default_def)
  ultimately show ?thesis by (simp add: injector_start_def LoadTLSConfig_def LoadX509KeyPair_def)
qed

lemma tls_data_ca: "sec_Data s = tls_data ca crt key \<Longrightarrow> sec_Data s ''ca.crt'' = Some ca"
  by (simp add: tls_data_def)

text \<open>
  C9. An installation makes the webhook trusted, for a year. When the secret phase and then the
  CA-bundle phase report success, with the secret unchanged in between, an injector started with
  the secret mounted loads its certificate, every webhook of the configuration has its CA bundle
  set and nothing else changed, and a client with that bundle accepts that certificate for the
  name of the service exactly while both certificates are valid: from a minute before they were
  made (to the second) until 365 days after the serving certificate and ten years after the CA.
\<close>

theorem installation_is_trusted:
  assumes "x509_laws lib" "newClient kube = Inr cl" "kube_laws cl V"
    and "RunSecretPhase getenv lib env kube w0 = (Returns None, w1)"
    and "cv_secret V w2 = cv_secret V w1" "RunCABundlePhase getenv kube w2 = (None, w3)"
    and "cv_secret V w2 (getenv ''KOSHI_NAMESPACE'', getenv ''KOSHI_SECRET_NAME'') = Some s" "mounts s read_file"
    and "ienv ''KOSHI_TLS_CERT'' \<in> {'''', ''/etc/koshi-tls/tls.crt''}" "ienv ''KOSHI_TLS_KEY'' \<in> {'''', ''/etc/koshi-tls/tls.key''}"
  shows "\<exists>leaf ca hooks. injector_start ienv read_file lib atoi res =
      Inr (\<lparr> tc_Certificates = [leaf], tc_MinVersion = 0x0303 \<rparr>, injector_config ienv atoi res) \<and>
    cv_hooks V w2 (getenv ''KOSHI_WEBHOOK_NAME'') = Some hooks \<and>
    cv_hooks V w3 = (cv_hooks V w2)(getenv ''KOSHI_WEBHOOK_NAME'' \<mapsto> map (\<lambda>wh. wh\<lparr> wh_caBundle := ca \<rparr>) hooks) \<and>
    (\<forall>t. trusts lib ca leaf (service_dns getenv) t \<longleftrightarrow>
       truncate_second (re_Now env 0 - Minute) \<le> t \<and> t \<le> truncate_second (re_Now env 1 + 10 * 365 * 24 * Hour) \<and>
       truncate_second (re_Now env 2 - Minute) \<le> t \<and> t \<le> truncate_second (re_Now env 3 + 365 * 24 * Hour))"
proof -
  obtain ca leaf caKey key where i: "issued lib env (service_dns getenv) ca leaf caKey key"
      "sec_Data s = tls_data (pem lib ''CERTIFICATE'' ca) (pem lib ''CERTIFICATE'' leaf)
        (pem lib ''RSA PRIVATE KEY'' (lib_MarshalPKCS1 lib key))"
    using secret_phase [OF assms(1-4)] assms(5,7) by auto
  obtain hooks where "cv_hooks V w2 (getenv ''KOSHI_WEBHOOK_NAME'') = Some hooks"
      "cv_hooks V w3 = (cv_hooks V w2)(getenv ''KOSHI_WEBHOOK_NAME'' \<mapsto>
        map (\<lambda>wh. wh\<lparr> wh_caBundle := pem lib ''CERTIFICATE'' ca \<rparr>) hooks)"
    using bundle_phase [OF assms(2,3,6)] assms(7) tls_data_ca [OF i(2)] by auto
  then show ?thesis
    using injector_presents_leaf [OF assms(1) i(1) assms(8-10) i(2)] issued_trust [OF assms(1) i(1) i(1)] by blast
qed

text \<open>
  C26. An upgrade breaks the trust in an injector that keeps running. Every run of the secret phase
  makes a new CA. When the phases of an upgrade follow those of an installation and the new CA key
  differs, no webhook's new CA bundle accepts the certificate that the injector loaded before, at
  any time: the injector has to be restarted.
\<close>

theorem upgrade_needs_restart:
  assumes "x509_laws lib" "newClient kube = Inr cl" "kube_laws cl V"
    and "RunSecretPhase getenv lib env kube w0 = (Returns None, w1)"
    and "cv_secret V w1 (getenv ''KOSHI_NAMESPACE'', getenv ''KOSHI_SECRET_NAME'') = Some s" "mounts s read_file"
    and "RunSecretPhase getenv lib env' kube w2 = (Returns None, w3)" "RunCABundlePhase getenv kube w3 = (None, w4)"
    and "re_GenerateKey env 0 2048 = Inr k" "re_GenerateKey env' 0 2048 = Inr k'" "rk_Public k' \<noteq> rk_Public k"
    and "ienv ''KOSHI_TLS_CERT'' \<in> {'''', ''/etc/koshi-tls/tls.crt''}" "ienv ''KOSHI_TLS_KEY'' \<in> {'''', ''/etc/koshi-tls/tls.key''}"
  shows "\<exists>leaf hooks. injector_start ienv read_file lib atoi res =
      Inr (\<lparr> tc_Certificates = [leaf], tc_MinVersion = 0x0303 \<rparr>, injector_config ienv atoi res) \<and>
    cv_hooks V w4 (getenv ''KOSHI_WEBHOOK_NAME'') = Some hooks \<and>
    list_all (\<lambda>wh. \<nexists>t. trusts lib (wh_caBundle wh) leaf (service_dns getenv) t) hooks"
proof -
  obtain ca leaf caKey key where i: "issued lib env (service_dns getenv) ca leaf caKey key"
      "sec_Data s = tls_data (pem lib ''CERTIFICATE'' ca) (pem lib ''CERTIFICATE'' leaf)
        (pem lib ''RSA PRIVATE KEY'' (lib_MarshalPKCS1 lib key))"
    using secret_phase [OF assms(1-4)] assms(5) by auto
  obtain ca' leaf' caKey' key' s' where i': "issued lib env' (service_dns getenv) ca' leaf' caKey' key'"
      "cv_secret V w3 (getenv ''KOSHI_NAMESPACE'', getenv ''KOSHI_SECRET_NAME'') = Some s'"
      "sec_Data s' = tls_data (pem lib ''CERTIFICATE'' ca') (pem lib ''CERTIFICATE'' leaf')
        (pem lib ''RSA PRIVATE KEY'' (lib_MarshalPKCS1 lib key'))"
    using secret_phase [OF assms(1-3,7)] by auto
  obtain hooks where "cv_hooks V w4 (getenv ''KOSHI_WEBHOOK_NAME'') =
      Some (map (\<lambda>wh. wh\<lparr> wh_caBundle := pem lib ''CERTIFICATE'' ca' \<rparr>) hooks)"
    using bundle_phase [OF assms(2,3,8)] i'(2) tls_data_ca [OF i'(3)] by auto
  moreover have "\<not> trusts lib (pem lib ''CERTIFICATE'' ca') leaf (service_dns getenv) t" for t
    using issued_trust [OF assms(1) i(1) i'(1)] assms(9-11) i(1) i'(1) by (simp add: issued_def)
  ultimately show ?thesis
    using injector_presents_leaf [OF assms(1) i(1) assms(6,12,13) i(2), of atoi res] by (auto simp: list_all_iff)
qed


section \<open>Examples\<close>

definition demo_getenv :: environment where
  "demo_getenv k = (case map_of [(''KOSHI_NAMESPACE'', ''koshi-system''), (''KOSHI_SERVICE_NAME'', ''webhook''),
     (''KOSHI_SECRET_NAME'', ''tls''), (''KOSHI_WEBHOOK_NAME'', ''injector'')] k of None \<Rightarrow> '''' | Some v \<Rightarrow> v)"

definition demo_key :: "nat \<Rightarrow> rsa_private" where
  "demo_key n = \<lparr> rk_Public = \<lparr> pk_N = n, pk_E = 1 \<rparr>, rk_D = n \<rparr>"

definition demo_run :: "nat \<Rightarrow> run_env" where
  "demo_run r = \<lparr> re_GenerateKey = (\<lambda>i bits. Inr (demo_key (2 * r + i + 1))), re_RandInt = (\<lambda>i bound. Inr (int (2 * r + i))),
     re_Now = (\<lambda>i. 1000 * Second) \<rparr>"

definition demo_entries :: "nat \<Rightarrow> ledger" where
  "demo_entries r =
     [(ca_template (demo_run r) (int (2 * r)), ''koshi-webhook-ca'', rk_Public (demo_key (2 * r + 1)), demo_key (2 * r + 1)),
      (serving_template (demo_run r) (int (2 * r + 1)) (service_dns demo_getenv) [service_dns demo_getenv], ''koshi-webhook-ca'',
        rk_Public (demo_key (2 * r + 2)), demo_key (2 * r + 1))]"

definition demo_x509 :: x509_lib where
  "demo_x509 = ledger_lib (demo_entries 0 @ demo_entries 1)"

definition demo_cluster :: cluster where
  "demo_cluster = (Map.empty, [''injector'' \<mapsto> [\<lparr> wh_Name = ''inject.runtime.getkoshi.ai'', wh_caBundle = '''', wh_Rest = ''rules'' \<rparr>]])"

definition after_secret :: "nat \<Rightarrow> cluster \<Rightarrow> cluster" where
  "after_secret r w = snd (RunSecretPhase demo_getenv demo_x509 (demo_run r) map_kube w)"

definition demo_secret :: Secret where
  "demo_secret = the (fst (after_secret 0 demo_cluster) (''koshi-system'', ''tls''))"

definition demo_files :: "string \<Rightarrow> string + string" where
  "demo_files p = (case sec_Data demo_secret (drop 15 p) of None \<Rightarrow> Inl ''no such file'' | Some v \<Rightarrow> Inr v)"

text \<open>The CA-bundle phase succeeds when there is a CA to read and a webhook to patch.\<close>

lemma map_bundle_phase:
  assumes "getenv ''KOSHI_NAMESPACE'' \<noteq> ''''" "getenv ''KOSHI_SECRET_NAME'' \<noteq> ''''" "getenv ''KOSHI_WEBHOOK_NAME'' \<noteq> ''''"
    and "fst w (getenv ''KOSHI_NAMESPACE'', getenv ''KOSHI_SECRET_NAME'') = Some s" "sec_Name s = getenv ''KOSHI_SECRET_NAME''"
    and "sec_Data s ''ca.crt'' = Some ca" "ca \<noteq> []"
    and "snd w (getenv ''KOSHI_WEBHOOK_NAME'') = Some hs" "list_all (\<lambda>wh. list_all unescaped (wh_Name wh)) hs"
  shows "fst (RunCABundlePhase getenv map_kube w) = None"
proof -
  have "\<forall>wh \<in> set hs. utf8_text (wh_Name wh)" using assms(9) by (auto simp: list_all_iff intro!: utf8_text_unescaped)
  then have "strategic_merge (print_json (patch_document ca hs)) hs = Some (map (\<lambda>wh. wh\<lparr> wh_caBundle := ca \<rparr>) hs)"
    by (rule merge_document)
  then have "fst (patchWebhookCABundle map_client (getenv ''KOSHI_WEBHOOK_NAME'') ca w) = None"
    using assms(8,9) by (simp add: patchWebhookCABundle_def map_client_def)
  moreover have "cl_GetSecret map_client (getenv ''KOSHI_NAMESPACE'') (getenv ''KOSHI_SECRET_NAME'') w = (Inr s, w)"
    using assms(4,5) by (simp add: map_client_def)
  ultimately show ?thesis using assms(1-3,6,7) by (simp add: RunCABundlePhase_def map_kube_client)
qed

lemma demo_env: "demo_getenv ''KOSHI_NAMESPACE'' = ''koshi-system''" "demo_getenv ''KOSHI_SECRET_NAME'' = ''tls''"
  "demo_getenv ''KOSHI_WEBHOOK_NAME'' = ''injector''"
  by code_simp+

definition hook_names_ok :: "cluster \<Rightarrow> bool" where
  "hook_names_ok w = (case snd w ''injector'' of None \<Rightarrow> False | Some hs \<Rightarrow> list_all (\<lambda>wh. list_all unescaped (wh_Name wh)) hs)"

definition ca_stored :: "cluster \<Rightarrow> bool" where
  "ca_stored w = (case fst w (''koshi-system'', ''tls'') of None \<Rightarrow> False | Some s \<Rightarrow> sec_Name s = ''tls'' \<and>
     (case sec_Data s ''ca.crt'' of None \<Rightarrow> False | Some ca \<Rightarrow> ca \<noteq> []))"

lemma demo_bundle: "hook_names_ok w \<Longrightarrow> ca_stored w \<Longrightarrow> fst (RunCABundlePhase demo_getenv map_kube w) = None"
  by (auto simp: hook_names_ok_def ca_stored_def demo_env intro!: map_bundle_phase split: option.splits)

lemma demo_runs:
  "fst (RunSecretPhase demo_getenv demo_x509 (demo_run 0) map_kube demo_cluster) = Returns None"
  "fst (RunSecretPhase demo_getenv demo_x509 (demo_run 1) map_kube (after_secret 0 demo_cluster)) = Returns None"
  "hook_names_ok (after_secret 0 demo_cluster)" "ca_stored (after_secret 0 demo_cluster)"
  "hook_names_ok (after_secret 1 (after_secret 0 demo_cluster))" "ca_stored (after_secret 1 (after_secret 0 demo_cluster))"
  by code_simp+

lemma demo_mounts: "mounts demo_secret demo_files"
  by (simp add: mounts_def demo_files_def)

lemma demo_stored: "fst (after_secret 0 demo_cluster) (''koshi-system'', ''tls'') = Some demo_secret"
  using demo_runs(4) by (auto simp: demo_secret_def ca_stored_def split: option.splits)

lemma fst_pair: "fst p = x \<Longrightarrow> p = (x, snd p)"
  by (cases p) simp

theorem installation_is_trusted_witness:
  "\<exists>leaf ca. map_sum id fst (injector_start (\<lambda>_. '''') demo_files demo_x509 (\<lambda>_. None) (\<lambda>_. '''')) =
       Inr \<lparr> tc_Certificates = [leaf], tc_MinVersion = 0x0303 \<rparr> \<and>
     trusts demo_x509 ca leaf (service_dns demo_getenv) (1000 * Second)"
proof -
  let ?w = "after_secret 0 demo_cluster"
  have a: "RunSecretPhase demo_getenv demo_x509 (demo_run 0) map_kube demo_cluster = (Returns None, ?w)"
    unfolding after_secret_def by (rule fst_pair [OF demo_runs(1)])
  have b: "RunCABundlePhase demo_getenv map_kube ?w = (None, snd (RunCABundlePhase demo_getenv map_kube ?w))"
    by (rule fst_pair [OF demo_bundle [OF demo_runs(3,4)]])
  have laws: "x509_laws demo_x509" unfolding demo_x509_def by (rule ledger_laws)
  have s: "cv_secret map_view ?w (demo_getenv ''KOSHI_NAMESPACE'', demo_getenv ''KOSHI_SECRET_NAME'') = Some demo_secret"
    using demo_stored by (simp add: map_view_def demo_env)
  have t: "truncate_second (re_Now (demo_run 0) 0 - Minute) \<le> 1000 * Second"
    "1000 * Second \<le> truncate_second (re_Now (demo_run 0) 1 + 10 * 365 * 24 * Hour)"
    "truncate_second (re_Now (demo_run 0) 2 - Minute) \<le> 1000 * Second"
    "1000 * Second \<le> truncate_second (re_Now (demo_run 0) 3 + 365 * 24 * Hour)"
    by code_simp+
  have i: "(\<lambda>_. '''') ''KOSHI_TLS_CERT'' \<in> {'''', ''/etc/koshi-tls/tls.crt''}" "(\<lambda>_. '''') ''KOSHI_TLS_KEY'' \<in> {'''', ''/etc/koshi-tls/tls.key''}"
    by simp_all
  have "\<exists>leaf ca. injector_start (\<lambda>_. '''') demo_files demo_x509 (\<lambda>_. None) (\<lambda>_. '''') =
      Inr (\<lparr> tc_Certificates = [leaf], tc_MinVersion = 0x0303 \<rparr>, injector_config (\<lambda>_. '''') (\<lambda>_. None) (\<lambda>_. '''')) \<and>
      trusts demo_x509 ca leaf (service_dns demo_getenv) (1000 * Second)"
    using installation_is_trusted [OF laws map_kube_client map_client_laws a refl b s demo_mounts i] t by blast
  then show ?thesis by auto
qed

theorem upgrade_needs_restart_witness:
  "\<exists>leaf hooks. map_sum id fst (injector_start (\<lambda>_. '''') demo_files demo_x509 (\<lambda>_. None) (\<lambda>_. '''')) =
       Inr \<lparr> tc_Certificates = [leaf], tc_MinVersion = 0x0303 \<rparr> \<and>
     cv_hooks map_view (snd (RunCABundlePhase demo_getenv map_kube (after_secret 1 (after_secret 0 demo_cluster)))) ''injector'' = Some hooks \<and>
     list_all (\<lambda>wh. \<not> trusts demo_x509 (wh_caBundle wh) leaf (service_dns demo_getenv) (1000 * Second)) hooks"
proof -
  let ?w = "after_secret 0 demo_cluster" and ?v = "after_secret 1 (after_secret 0 demo_cluster)"
  have a: "RunSecretPhase demo_getenv demo_x509 (demo_run 0) map_kube demo_cluster = (Returns None, ?w)"
    unfolding after_secret_def by (rule fst_pair [OF demo_runs(1)])
  have c: "RunSecretPhase demo_getenv demo_x509 (demo_run 1) map_kube ?w = (Returns None, ?v)"
    unfolding after_secret_def [of 1] by (rule fst_pair [OF demo_runs(2)])
  have b: "RunCABundlePhase demo_getenv map_kube ?v = (None, snd (RunCABundlePhase demo_getenv map_kube ?v))"
    by (rule fst_pair [OF demo_bundle [OF demo_runs(5,6)]])
  have laws: "x509_laws demo_x509" unfolding demo_x509_def by (rule ledger_laws)
  have s: "cv_secret map_view ?w (demo_getenv ''KOSHI_NAMESPACE'', demo_getenv ''KOSHI_SECRET_NAME'') = Some demo_secret"
    using demo_stored by (simp add: map_view_def demo_env)
  have k: "re_GenerateKey (demo_run 0) 0 2048 = Inr (demo_key 1)" "re_GenerateKey (demo_run 1) 0 2048 = Inr (demo_key 3)"
    "rk_Public (demo_key 3) \<noteq> rk_Public (demo_key 1)"
    by (simp_all add: demo_run_def demo_key_def numeral_3_eq_3)
  show ?thesis
    using upgrade_needs_restart [OF laws map_kube_client map_client_laws a s demo_mounts c b k, of "\<lambda>_. ''''" "\<lambda>_. None" "\<lambda>_. ''''"]
    unfolding demo_env list_all_iff by auto
qed

end
