(* ===== verification/Telemetry.thy ===== *)
theory Telemetry
  imports Startup
begin

text \<open>
  \<^verbatim>\<open>internal/genops/spec.go\<close> against what the handler emits. Every effect of a request on the event
  emitter is a sequence of calls of \<open>Emit\<close>, and every one of these events is stamped; the
  relation that says so is one more instance of \<open>kept_by_steps\<close>.
\<close>

section \<open>The specification\<close>

definition RequiredAttributes :: "string list" where
  "RequiredAttributes = [''genops.accounting.actual'', ''genops.accounting.reserved'', ''genops.accounting.unit'',
     ''genops.environment'', ''genops.operation.name'', ''genops.operation.type'', ''genops.policy.reason_code'',
     ''genops.policy.result'', ''genops.project'', ''genops.spec.version'', ''genops.team'']"

definition RequiredEvents :: "string list" where
  "RequiredEvents = [''genops.budget.reconciliation'', ''genops.budget.reservation'', ''genops.policy.evaluated'']"

section \<open>Emission\<close>

definition emit_all :: "Event list \<Rightarrow> LogEmitter \<Rightarrow> LogEmitter" where
  "emit_all evs em = fold (\<lambda>e em. snd (Emit e em)) evs em"

lemma emit_all_append [simp]: "emit_all (xs @ ys) em = emit_all ys (emit_all xs em)"
  by (simp add: emit_all_def)

lemma emit_all_simps [simp]: "emit_all [] em = em" "emit_all [e] em = snd (Emit e em)"
  by (simp_all add: emit_all_def)

text \<open>A handler's event as \<open>emitEvent\<close> hands it on.\<close>

definition stamp :: "Handler \<Rightarrow> Event \<Rightarrow> Event" where
  "stamp h e = e\<lparr> e_Attributes := AList.update ''genops.spec.version'' (AStr (hd_genopsSpecVersion h)) (e_Attributes e) \<rparr>"

definition emits :: "Handler \<Rightarrow> hstate \<Rightarrow> hstate \<Rightarrow> bool" where
  "emits h s s' \<longleftrightarrow> (\<exists>evs. list_all handler_event evs \<and>
     st_emitter s' = emit_all (map (stamp h) evs) (st_emitter s))"

lemma emits_refl: "st_emitter s' = st_emitter s \<Longrightarrow> emits h s s'"
  unfolding emits_def by (rule exI [of _ "[]"]) simp

lemma emits_trans: "emits h s t \<Longrightarrow> emits h t u \<Longrightarrow> emits h s u"
  unfolding emits_def by (metis emit_all_append list_all_append map_append)

lemma emits_event: "handler_event e \<Longrightarrow> emits h s (snd (emitEvent h e s))"
  unfolding emits_def
  by (rule exI [of _ "[e]"]) (simp add: emitEvent_def Let_def stamp_def split_beta)

interpretation emission: kept_by_steps "emits h" h for h
proof unfold_locales
  show "emits h s u" if "emits h s t" "emits h t u" for s t u using that by (rule emits_trans)
  show "emits h s (snd (emitEvent h e s))" if "handler_event e" for s e using that by (rule emits_event)
qed (simp_all add: emits_refl reserve_act_def record_act_def split_beta)

lemma ServeHTTP_emits: "emits h s (snd (ServeHTTP h lib env r s))"
proof -
  obtain o1 s1 where run: "serve_request h lib env r s = (o1, s1)" by fastforce
  then have e: "emits h s s1" using keepsD [OF emission.prog_serve_request [of h lib env r], of s] by simp
  show ?thesis
  proof (cases o1)
    case (Panics p)
    have "keeps (emits h) (also_do (emitEvent h (mk_event ''degraded_panic'' '''' ''error''
        [(''panic'', a), (''stack'', b), (''state'', c), (''category'', d)]))
        (writeErrorResponse 500 ''service_degraded'' ''system'' ''internal_protection_triggered'' ''degraded'' rc))" for a b c d rc
      by (intro prog)
    then have "emits h (s1\<lparr> st_degraded := True \<rparr>) (snd (recovered h env p s1))"
      unfolding recovered_def by (rule keepsD)
    then have "emits h s1 (snd (recovered h env p s1))" by (simp add: emits_def)
    with run Panics e show ?thesis by (auto simp: ServeHTTP_def intro: emits_trans)
  qed (use run e in \<open>simp add: ServeHTTP_def\<close>)
qed

text \<open>
  When the emitter is closed under a running request, the deferred function of \<open>ServeHTTP\<close>
  panics too, so that the panic reaches the server.
\<close>

lemma recovered_closed: "le_closed (st_emitter s) \<Longrightarrow> fst (recovered h env p s) = Panics SendOnClosedChannel"
  by (simp add: recovered_def also_do_def andthen_def emitEvent_def Emit_def Let_def)

lemma stamped_version: "map_of (e_Attributes (stamp h e)) ''genops.spec.version'' = Some (AStr (hd_genopsSpecVersion h))"
  by (simp add: stamp_def update_conv')

lemma stamped_type: "handler_event e \<Longrightarrow> e_Type (stamp h e) \<notin> set RequiredEvents"
  by (auto simp: handler_event_def stamp_def event_types_def RequiredEvents_def)

lemma stamped_attributes:
  assumes "handler_event e"
  shows "set (map fst (e_Attributes (stamp h e))) \<inter> set RequiredAttributes = {''genops.spec.version''}"
proof -
  have req: "k \<in> set RequiredAttributes \<Longrightarrow> take 7 k = ''genops.''" for k
    by (auto simp: RequiredAttributes_def)
  have "k \<notin> set RequiredAttributes" if "k \<in> fst ` set (e_Attributes e)" for k
    using that assms req by (auto simp: handler_event_def list_all_iff)
  moreover have "fst ` set (e_Attributes (stamp h e)) = insert ''genops.spec.version'' (fst ` set (e_Attributes e))"
    by (simp add: stamp_def dom_update)
  moreover have "''genops.spec.version'' \<in> set RequiredAttributes" by (simp add: RequiredAttributes_def)
  ultimately show ?thesis by auto
qed

section \<open>What ends up in the log\<close>

text \<open>A session of the handler: requests are served and the drain goroutine takes its turns.\<close>

datatype session_event = Serves request_lib request_env Request | Drains

primrec session_step :: "Handler \<Rightarrow> session_event \<Rightarrow> hstate \<Rightarrow> hstate" where
  "session_step h (Serves lib env r) s = snd (ServeHTTP h lib env r s)"
| "session_step h Drains s = s\<lparr> st_emitter := drain_one (st_emitter s) \<rparr>"

definition session :: "Handler \<Rightarrow> session_event list \<Rightarrow> hstate \<Rightarrow> hstate" where
  "session h xs s = fold (session_step h) xs s"

text \<open>Every event that is in the buffer or in the log has a property.\<close>

definition holds_only :: "(Event \<Rightarrow> bool) \<Rightarrow> LogEmitter \<Rightarrow> bool" where
  "holds_only P em \<longleftrightarrow> list_all P (le_events em) \<and> list_all (\<lambda>(l, e). P e) (le_logged em)"

lemma holds_only_new: "holds_only P NewLogEmitter"
  by (simp add: holds_only_def NewLogEmitter_def)

lemma holds_only_emit_all: "list_all P evs \<Longrightarrow> holds_only P em \<Longrightarrow> holds_only P (emit_all evs em)"
proof (induction evs arbitrary: em)
  case (Cons e evs)
  then have "holds_only P (snd (Emit e em))" by (simp add: holds_only_def Emit_def)
  with Cons show ?case by (simp add: emit_all_def)
qed simp

lemma holds_only_drain: "holds_only P em \<Longrightarrow> holds_only P (drain_one em)"
  by (cases "le_events em") (simp_all add: holds_only_def drain_one_def)

lemma holds_only_close: "holds_only P em \<Longrightarrow> list_all (\<lambda>(l, e). P e) (le_logged (snd (CloseEmitter em)))"
  by (auto simp: holds_only_def CloseEmitter_def drain_all_eq list_all_iff)

lemma holds_only_session:
  assumes "\<And>e. handler_event e \<Longrightarrow> P (stamp h e)" "holds_only P (st_emitter s)"
  shows "holds_only P (st_emitter (session h xs s))"
  using assms(2)
proof (induction xs arbitrary: s)
  case (Cons x xs)
  have "holds_only P (st_emitter (session_step h x s))"
  proof (cases x)
    case (Serves lib env r)
    obtain evs where "list_all handler_event evs"
        "st_emitter (session_step h x s) = emit_all (map (stamp h) evs) (st_emitter s)"
      using ServeHTTP_emits [of h s lib env r] Serves by (auto simp: emits_def)
    with Cons.prems assms(1) show ?thesis by (auto simp: list_all_iff intro!: holds_only_emit_all)
  qed (simp add: holds_only_drain Cons.prems)
  with Cons.IH show ?case by (simp add: session_def)
qed (simp add: session_def)

lemma boot_emitter:
  assumes "boot env read_file unmarshal clk version = Returns (Inr (h, s))"
  shows "hd_genopsSpecVersion h = ''0.1.0'' \<and> st_emitter s = NewLogEmitter"
  using assms
  by (auto simp: boot_def wire_def NewHandler_def start_state_def SpecVersion_def
      split: sum.splits outcome.splits prod.splits)

lemma listener_boots:
  assumes "env ''KOSHI_CONFIG_PATH'' = ''''" "env ''KOSHI_MODE'' = ''''" "env ''KOSHI_POLICY_OVERRIDE'' = ''''"
  shows "\<exists>h s. boot env read_file unmarshal clk version = Returns (Inr (h, s))"
proof -
  obtain eng key t p where "wire_listener env clk DefaultListenerConfig = Returns (Inr (ByPod (NewPodResolver env), eng, key, t))"
    by (rule wire_listener_default [of env clk]) (use assms(3) in simp)
  then have "(if md_Type (cfg_Mode DefaultListenerConfig) = ''listener'' then wire_listener env clk DefaultListenerConfig
      else wire_enforcement env clk DefaultListenerConfig) = Returns (Inr (ByPod (NewPodResolver env), eng, key, t))"
    by (simp add: DefaultListenerConfig_policies)
  with assms(1,2) show ?thesis
    using boot_wired [of env read_file unmarshal DefaultListenerConfig clk] by (simp add: choose_config_def) blast
qed

section \<open>Properties\<close>

text \<open>
  C32. Telemetry against the GenOps specification. From the start of the process, whatever
  requests it serves and however the drain goroutine keeps up, every event that is in the log
  once the emitter is closed carries the specification version 0.1.0; it has none of the ten
  other attributes the specification requires, and is none of the three events it requires.
\<close>

theorem log_carries_spec_version:
  assumes "boot env read_file unmarshal clk version = Returns (Inr (h, s))"
  shows "list_all (\<lambda>(l, e). map_of (e_Attributes e) ''genops.spec.version'' = Some (AStr ''0.1.0'') \<and>
       set (map fst (e_Attributes e)) \<inter> set RequiredAttributes = {''genops.spec.version''} \<and>
       e_Type e \<notin> set RequiredEvents)
     (le_logged (snd (CloseEmitter (st_emitter (session h xs s)))))"
proof -
  note b = boot_emitter [OF assms]
  show ?thesis
    by (intro holds_only_close holds_only_session conjI)
      (simp_all only: stamped_version stamped_type stamped_attributes b holds_only_new simp_thms)
qed

theorem log_carries_spec_version_witness:
  "\<exists>h s. boot (\<lambda>_. '''') (\<lambda>_. Inl ''none'') (\<lambda>_. Inl ''none'') (\<lambda>_. 0) Version = Returns (Inr (h, s)) \<and>
     list_all (\<lambda>(l, e). map_of (e_Attributes e) ''genops.spec.version'' = Some (AStr ''0.1.0''))
       (le_logged (snd (CloseEmitter (st_emitter (session h
         [Serves demo_lib demo_leaver (demo_request ''{}''), Drains] s)))))"
proof -
  obtain h s where b: "boot (\<lambda>_. '''') (\<lambda>_. Inl ''none'') (\<lambda>_. Inl ''none'') (\<lambda>_. 0) Version = Returns (Inr (h, s))"
    using listener_boots [of "\<lambda>_. ''''"] by blast
  show ?thesis
    by (rule exI [of _ h], rule exI [of _ s], rule conjI [OF b], rule list.pred_mono_strong [OF log_carries_spec_version [OF b]])
      (auto split: prod.splits)
qed

end
