(* ===== verification/Lifecycle.thy ===== *)
theory Lifecycle
  imports Emitter "HOL-Library.Multiset"
begin

text \<open>
  \<^verbatim>\<open>cmd/koshi/main.go\<close> and \<^verbatim>\<open>cmd/koshi/injector.go\<close> from the moment the server starts: the goroutine
  that listens, the goroutine of \<^verbatim>\<open>main\<close> that waits for a signal or a failure and then shuts down,
  the connections of \<^verbatim>\<open>http.Server\<close> and the drain goroutine of the emitter, as a step relation in
  which they interleave freely. Of Go's server the model has what its documentation of
  \<^verbatim>\<open>Shutdown\<close> promises: listeners are closed first, idle connections are closed, active ones are
  waited for until the context expires, and a connection serves no further request afterwards. A
  handler that panics loses its connection and nothing else.

  A request is the list of events its handler will emit (theory \<open>Telemetry\<close> shows that this is
  what a request does to the emitter); the injector has no emitter, and its requests no events.
  \<open>pr_log\<close> is what \<^verbatim>\<open>main\<close> itself logs; the ghost fields record what has happened.
\<close>

section \<open>The programs\<close>

text \<open>What distinguishes the two servers after they started.\<close>

record program =
  pg_stopping :: string
  pg_failed :: string
  pg_shutdown_error :: "string option" \<comment> \<open>logged when \<open>Shutdown\<close> fails, if the error is looked at\<close>
  pg_closes_emitter :: bool
  pg_complete :: string

definition proxy_program :: program where
  "proxy_program = \<lparr> pg_stopping = ''shutting down'', pg_failed = ''server error, shutting down'',
     pg_shutdown_error = Some ''shutdown error'', pg_closes_emitter = True, pg_complete = ''shutdown complete'' \<rparr>"

definition injector_program :: program where
  "injector_program = \<lparr> pg_stopping = ''injector shutting down'', pg_failed = ''injector server error'',
     pg_shutdown_error = None, pg_closes_emitter = False, pg_complete = ''injector shutdown complete'' \<rparr>"

section \<open>States\<close>

text \<open>Where the goroutine of \<^verbatim>\<open>main\<close> stands.\<close>

datatype main_pc =
    Selecting \<comment> \<open>in the \<^verbatim>\<open>select\<close>\<close>
  | CallsShutdown \<comment> \<open>before \<^verbatim>\<open>server.Shutdown\<close>\<close>
  | InShutdown \<comment> \<open>listeners are closed, connections are waited for\<close>
  | CallsClose \<comment> \<open>before \<^verbatim>\<open>emitter.Close\<close>\<close>
  | AwaitsDrain \<comment> \<open>the channel is closed, \<^verbatim>\<open>done\<close> is waited for\<close>
  | Finished

text \<open>A connection: new or idle, or with a request whose remaining events are given.\<close>

datatype conn = Idle | Handling "Event list"

record process =
  pr_pc :: main_pc
  pr_listening :: bool
  pr_stop :: bool \<comment> \<open>a signal is in the channel \<^verbatim>\<open>stop\<close>\<close>
  pr_serverErr :: "string option" \<comment> \<open>the content of the channel \<^verbatim>\<open>serverErr\<close>\<close>
  pr_conns :: "conn list"
  pr_emitter :: LogEmitter
  pr_done :: bool \<comment> \<open>the channel \<^verbatim>\<open>done\<close> is closed\<close>
  pr_log :: "string list"
  gh_ops :: "emit_op list" \<comment> \<open>the calls of \<open>Emit\<close> that returned and the turns of the drain loop\<close>
  gh_asked :: "Event list" \<comment> \<open>the events of all requests that began\<close>
  gh_lost :: "Event list" \<comment> \<open>the events of requests that were aborted\<close>
  gh_aborted :: nat
  gh_timed_out :: bool

definition launched :: process where
  "launched = \<lparr> pr_pc = Selecting, pr_listening = True, pr_stop = False, pr_serverErr = None, pr_conns = [],
     pr_emitter = NewLogEmitter, pr_done = False, pr_log = [], gh_ops = [], gh_asked = [], gh_lost = [],
     gh_aborted = 0, gh_timed_out = False \<rparr>"

section \<open>Steps\<close>

definition without :: "nat \<Rightarrow> 'a list \<Rightarrow> 'a list" where
  "without i xs = take i xs @ drop (Suc i) xs"

definition shutting_down :: "process \<Rightarrow> bool" where
  "shutting_down s \<longleftrightarrow> pr_pc s \<in> {InShutdown, CallsClose, AwaitsDrain}"

text \<open>\<open>Shutdown\<close> has returned: log its error if the program does, and go on.\<close>

definition after_shutdown :: "program \<Rightarrow> bool \<Rightarrow> process \<Rightarrow> process" where
  "after_shutdown pg failed s =
     (let s = s\<lparr> pr_log := pr_log s @ (case pg_shutdown_error pg of None \<Rightarrow> [] | Some m \<Rightarrow> if failed then [m] else []) \<rparr> in
      if pg_closes_emitter pg then s\<lparr> pr_pc := CallsClose \<rparr>
      else s\<lparr> pr_pc := Finished, pr_log := pr_log s @ [pg_complete pg] \<rparr>)"

inductive process_step :: "program \<Rightarrow> process \<Rightarrow> process \<Rightarrow> bool" for pg :: program where
  \<comment> \<open>the environment\<close>
  signal: "\<lbrakk> pr_pc s \<noteq> Finished; \<not> pr_stop s \<rbrakk> \<Longrightarrow> process_step pg s (s\<lparr> pr_stop := True \<rparr>)"
| accept: "\<lbrakk> pr_pc s \<noteq> Finished; pr_listening s \<rbrakk> \<Longrightarrow> process_step pg s (s\<lparr> pr_conns := pr_conns s @ [Idle] \<rparr>)"
| server_fails: "\<lbrakk> pr_pc s \<noteq> Finished; pr_listening s \<rbrakk> \<Longrightarrow>
     process_step pg s (s\<lparr> pr_listening := False, pr_serverErr := Some e \<rparr>)"
  \<comment> \<open>connections\<close>
| request: "\<lbrakk> pr_pc s \<noteq> Finished; i < length (pr_conns s); pr_conns s ! i = Idle;
       pg_closes_emitter pg \<or> evs = [] \<rbrakk> \<Longrightarrow>
     process_step pg s (s\<lparr> pr_conns := (pr_conns s)[i := Handling evs], gh_asked := gh_asked s @ evs \<rparr>)"
| idle_closed: "\<lbrakk> pr_pc s \<noteq> Finished; i < length (pr_conns s); pr_conns s ! i = Idle \<rbrakk> \<Longrightarrow>
     process_step pg s (s\<lparr> pr_conns := without i (pr_conns s) \<rparr>)"
| emit: "\<lbrakk> pr_pc s \<noteq> Finished; i < length (pr_conns s); pr_conns s ! i = Handling (e # evs);
       Emit e (pr_emitter s) = (Returns (), em) \<rbrakk> \<Longrightarrow>
     process_step pg s (s\<lparr> pr_conns := (pr_conns s)[i := Handling evs], pr_emitter := em, gh_ops := gh_ops s @ [DoEmit e] \<rparr>)"
| emit_panics: "\<lbrakk> pr_pc s \<noteq> Finished; i < length (pr_conns s); pr_conns s ! i = Handling (e # evs);
       Emit e (pr_emitter s) = (Panics p, em) \<rbrakk> \<Longrightarrow>
     process_step pg s (s\<lparr> pr_conns := without i (pr_conns s), gh_lost := gh_lost s @ e # evs,
       gh_aborted := Suc (gh_aborted s) \<rparr>)"
| response_done: "\<lbrakk> pr_pc s \<noteq> Finished; i < length (pr_conns s); pr_conns s ! i = Handling [];
       c = [] \<or> c = [Idle] \<and> \<not> shutting_down s \<rbrakk> \<Longrightarrow>
     process_step pg s (s\<lparr> pr_conns := take i (pr_conns s) @ c @ drop (Suc i) (pr_conns s) \<rparr>)"
  \<comment> \<open>the goroutine of \<^verbatim>\<open>main\<close>\<close>
| receives_stop: "\<lbrakk> pr_pc s = Selecting; pr_stop s \<rbrakk> \<Longrightarrow>
     process_step pg s (s\<lparr> pr_pc := CallsShutdown, pr_stop := False, pr_log := pr_log s @ [pg_stopping pg] \<rparr>)"
| receives_error: "\<lbrakk> pr_pc s = Selecting; pr_serverErr s = Some e \<rbrakk> \<Longrightarrow>
     process_step pg s (s\<lparr> pr_pc := CallsShutdown, pr_serverErr := None, pr_log := pr_log s @ [pg_failed pg] \<rparr>)"
| shutdown: "pr_pc s = CallsShutdown \<Longrightarrow>
     process_step pg s (s\<lparr> pr_pc := InShutdown, pr_listening := False \<rparr>)"
| shutdown_returns: "\<lbrakk> pr_pc s = InShutdown; pr_conns s = [] \<rbrakk> \<Longrightarrow> process_step pg s (after_shutdown pg failed s)"
| shutdown_times_out: "pr_pc s = InShutdown \<Longrightarrow>
     process_step pg s (after_shutdown pg True (s\<lparr> gh_timed_out := True \<rparr>))"
| close: "pr_pc s = CallsClose \<Longrightarrow>
     process_step pg s (s\<lparr> pr_pc := AwaitsDrain, pr_emitter := (pr_emitter s)\<lparr> le_closed := True \<rparr> \<rparr>)"
| drained: "\<lbrakk> pr_pc s = AwaitsDrain; pr_done s \<rbrakk> \<Longrightarrow>
     process_step pg s (s\<lparr> pr_pc := Finished, pr_log := pr_log s @ [pg_complete pg] \<rparr>)"
  \<comment> \<open>the drain goroutine\<close>
| drain: "\<lbrakk> pr_pc s \<noteq> Finished; le_events (pr_emitter s) \<noteq> [] \<rbrakk> \<Longrightarrow>
     process_step pg s (s\<lparr> pr_emitter := drain_one (pr_emitter s), gh_ops := gh_ops s @ [DoDrain] \<rparr>)"
| drain_ends: "\<lbrakk> pr_pc s \<noteq> Finished; le_closed (pr_emitter s); le_events (pr_emitter s) = []; \<not> pr_done s \<rbrakk> \<Longrightarrow>
     process_step pg s (s\<lparr> pr_done := True \<rparr>)"

inductive_cases process_stepE: "process_step pg s s'"

definition runs :: "program \<Rightarrow> process \<Rightarrow> process \<Rightarrow> bool" where
  "runs pg s t \<longleftrightarrow> (process_step pg)\<^sup>*\<^sup>* s t"

lemma runs_refl [simp]: "runs pg s s"
  by (simp add: runs_def)

lemma runs_step: "process_step pg s t \<Longrightarrow> runs pg t u \<Longrightarrow> runs pg s u"
  by (simp add: runs_def converse_rtranclp_into_rtranclp)

lemma runs_trans: "runs pg s t \<Longrightarrow> runs pg t u \<Longrightarrow> runs pg s u"
  by (simp add: runs_def)

section \<open>Invariants\<close>

text \<open>The phases of \<^verbatim>\<open>main\<close>: when it listens, when the channels are closed.\<close>

definition phases_ok :: "program \<Rightarrow> process \<Rightarrow> bool" where
  "phases_ok pg s \<longleftrightarrow>
     (pr_listening s \<longrightarrow> pr_pc s \<in> {Selecting, CallsShutdown}) \<and>
     (pr_pc s \<in> {CallsClose, AwaitsDrain} \<longrightarrow> pg_closes_emitter pg) \<and>
     le_closed (pr_emitter s) = (pg_closes_emitter pg \<and> pr_pc s \<in> {AwaitsDrain, Finished}) \<and>
     (pr_done s \<longrightarrow> le_closed (pr_emitter s) \<and> le_events (pr_emitter s) = []) \<and>
     (pr_pc s = Finished \<and> pg_closes_emitter pg \<longrightarrow> pr_done s)"

text \<open>Without a timeout no connection is left when \<open>Shutdown\<close> has returned, and none is lost.\<close>

definition graceful_ok :: "program \<Rightarrow> process \<Rightarrow> bool" where
  "graceful_ok pg s \<longleftrightarrow> phases_ok pg s \<and> (gh_timed_out s \<or> gh_aborted s = 0 \<and> gh_lost s = [] \<and>
     (pr_pc s \<in> {CallsClose, AwaitsDrain, Finished} \<longrightarrow> pr_conns s = []))"

text \<open>Every event of a request has been emitted, is still to be emitted, or was lost.\<close>

primrec pending :: "conn \<Rightarrow> Event list" where
  "pending Idle = []"
| "pending (Handling evs) = evs"

definition pendings :: "conn list \<Rightarrow> Event multiset" where
  "pendings cs = mset (concat (map pending cs))"

definition events_ok :: "process \<Rightarrow> bool" where
  "events_ok s \<longleftrightarrow> accounted (gh_ops s) ((pr_emitter s)\<lparr> le_closed := False \<rparr>) \<and>
     mset (gh_asked s) = mset (emitted (gh_ops s)) + pendings (pr_conns s) + mset (gh_lost s)"

lemma launched_ok: "graceful_ok pg launched" "events_ok launched"
  by (simp_all add: graceful_ok_def phases_ok_def events_ok_def launched_def NewLogEmitter_def pendings_def
      accounted_def emitted_def)

lemma Emit_cases:
  "Emit e em = (Returns (), em') \<Longrightarrow> \<not> le_closed em \<and> \<not> le_closed em'"
  "Emit e em = (Panics p, em') \<Longrightarrow> le_closed em \<and> em' = em"
  by (auto simp: Emit_def split: if_splits)

lemma drain_one_fields:
  "le_closed (drain_one em) = le_closed em" "le_events (drain_one em) = tl (le_events em)"
  by (cases "le_events em"; simp add: drain_one_def)+

lemma phases_step: "process_step pg s s' \<Longrightarrow> phases_ok pg s \<Longrightarrow> phases_ok pg s'"
  by (induction rule: process_step.induct)
    (auto simp: phases_ok_def after_shutdown_def Let_def drain_one_fields dest: Emit_cases)

lemma graceful_step: "process_step pg s s' \<Longrightarrow> graceful_ok pg s \<Longrightarrow> graceful_ok pg s'"
  unfolding graceful_ok_def
  by (intro conjI, blast intro: phases_step, induction rule: process_step.induct)
    (auto simp: phases_ok_def after_shutdown_def Let_def without_def dest: Emit_cases)

lemma conns_split:
  assumes "i < length cs"
  shows "pendings (cs[i := c]) + mset (pending (cs ! i)) = pendings cs + mset (pending c)"
    "pendings (take i cs @ ds @ drop (Suc i) cs) + mset (pending (cs ! i)) = pendings cs + pendings ds"
    "pendings (without i cs) + mset (pending (cs ! i)) = pendings cs"
proof -
  have cs: "pendings cs = pendings (take i cs) + mset (pending (cs ! i)) + pendings (drop (Suc i) cs)"
    using arg_cong [OF id_take_nth_drop [OF assms], of pendings] by (simp add: pendings_def ac_simps)
  show "pendings (cs[i := c]) + mset (pending (cs ! i)) = pendings cs + mset (pending c)"
    unfolding cs by (simp add: upd_conv_take_nth_drop [OF assms] pendings_def ac_simps)
  show "pendings (take i cs @ ds @ drop (Suc i) cs) + mset (pending (cs ! i)) = pendings cs + pendings ds"
    "pendings (without i cs) + mset (pending (cs ! i)) = pendings cs"
    unfolding cs by (simp_all add: without_def pendings_def ac_simps)
qed

lemma accounted_emit:
  assumes "accounted ops (em\<lparr> le_closed := False \<rparr>)" "Emit e em = (Returns (), em')"
  shows "accounted (ops @ [DoEmit e]) (em'\<lparr> le_closed := False \<rparr>)"
proof -
  have "em\<lparr> le_closed := False \<rparr> = em" "em'\<lparr> le_closed := False \<rparr> = em'"
    using Emit_cases(1) [OF assms(2)] by (cases em, cases em', simp)+
  with accounted_step [OF assms(1), of "DoEmit e"] assms(2) show ?thesis by simp
qed

lemma accounted_drain:
  assumes "accounted ops (em\<lparr> le_closed := False \<rparr>)"
  shows "accounted (ops @ [DoDrain]) ((drain_one em)\<lparr> le_closed := False \<rparr>)"
proof -
  have "drain_one (em\<lparr> le_closed := False \<rparr>) = (drain_one em)\<lparr> le_closed := False \<rparr>"
    by (cases "le_events em") (simp_all add: drain_one_def)
  with accounted_step [OF assms, of DoDrain] show ?thesis by simp
qed

lemma events_step: "process_step pg s s' \<Longrightarrow> events_ok s \<Longrightarrow> events_ok s'"
proof (induction rule: process_step.induct)
  case (request s i evs)
  then show ?case using conns_split(1) [of i "pr_conns s" "Handling evs"] by (simp add: events_ok_def)
next
  case (idle_closed s i)
  then show ?case using conns_split(3) [of i "pr_conns s"] by (simp add: events_ok_def ac_simps)
next
  case (emit s i e evs em)
  then show ?case
    using conns_split(1) [of i "pr_conns s" "Handling evs"] accounted_emit [of "gh_ops s" "pr_emitter s" e em]
    by (simp add: events_ok_def)
next
  case (emit_panics s i e evs p em)
  then show ?case using conns_split(3) [of i "pr_conns s"] by (simp add: events_ok_def ac_simps)
next
  case (response_done s i c)
  then show ?case using conns_split(2) [of i "pr_conns s" c] by (auto simp: events_ok_def pendings_def)
next
  case (drain s)
  then show ?case by (simp add: events_ok_def accounted_drain)
qed (auto simp: events_ok_def pendings_def after_shutdown_def Let_def)

lemma process_ok:
  assumes "runs pg launched s"
  shows "graceful_ok pg s \<and> events_ok s"
  using assms unfolding runs_def
  by (induction rule: rtranclp_induct) (auto simp: launched_ok intro: graceful_step events_step)

section \<open>Shutting down ends\<close>

primrec pc_rank :: "main_pc \<Rightarrow> nat" where
  "pc_rank Selecting = 5" | "pc_rank CallsShutdown = 4" | "pc_rank InShutdown = 3"
| "pc_rank CallsClose = 2" | "pc_rank AwaitsDrain = 1" | "pc_rank Finished = 0"

text \<open>
  What is left to do. A connection that turns out to carry a request brings any number of events,
  but there are no new connections: hence a pair, ordered lexicographically.
\<close>

definition idles :: "conn list \<Rightarrow> nat" where
  "idles cs = length (filter (\<lambda>c. c = Idle) cs)"

primrec conn_work :: "conn \<Rightarrow> nat" where
  "conn_work Idle = 0"
| "conn_work (Handling evs) = Suc (2 * length evs)"

definition work :: "conn list \<Rightarrow> nat" where
  "work cs = sum_list (map conn_work cs)"

definition remaining :: "process \<Rightarrow> nat \<times> nat" where
  "remaining s = (idles (pr_conns s),
     work (pr_conns s) + length (le_events (pr_emitter s)) + pc_rank (pr_pc s) +
     (if pr_stop s then 0 else 1) + (if pr_done s then 0 else 1))"

lemma conns_measure:
  assumes "i < length cs"
  shows "idles (cs[i := c]) + idles [cs ! i] = idles cs + idles [c]" "work (cs[i := c]) + conn_work (cs ! i) = work cs + conn_work c"
    "idles (without i cs) + idles [cs ! i] = idles cs" "work (without i cs) + conn_work (cs ! i) = work cs"
proof -
  have cs: "idles cs = idles (take i cs) + idles [cs ! i] + idles (drop (Suc i) cs)"
    "work cs = work (take i cs) + conn_work (cs ! i) + work (drop (Suc i) cs)"
    using arg_cong [OF id_take_nth_drop [OF assms], of idles] arg_cong [OF id_take_nth_drop [OF assms], of work]
    by (simp_all add: idles_def work_def)
  show "idles (cs[i := c]) + idles [cs ! i] = idles cs + idles [c]" "work (cs[i := c]) + conn_work (cs ! i) = work cs + conn_work c"
    unfolding cs by (simp_all add: upd_conv_take_nth_drop [OF assms] idles_def work_def)
  show "idles (without i cs) + idles [cs ! i] = idles cs" "work (without i cs) + conn_work (cs ! i) = work cs"
    unfolding cs by (simp_all add: without_def idles_def work_def)
qed

lemma Emit_buffer: "Emit e em = (r, em') \<Longrightarrow> length (le_events em') \<le> Suc (length (le_events em))"
  by (auto simp: Emit_def split: if_splits)

lemma idles_one: "idles [Idle] = 1" "idles [Handling evs] = 0"
  by (simp_all add: idles_def)

lemma remaining_decreases:
  assumes "process_step pg s s'" "phases_ok pg s" "shutting_down s"
  shows "(remaining s', remaining s) \<in> less_than <*lex*> less_than"
  using assms
proof (induction rule: process_step.induct)
  case (request s i evs)
  then show ?case using conns_measure(1) [of i "pr_conns s" "Handling evs"] by (simp add: remaining_def idles_one)
next
  case (idle_closed s i)
  then show ?case using conns_measure(3) [of i "pr_conns s"] by (simp add: remaining_def idles_one)
next
  case (emit s i e evs em)
  then show ?case using conns_measure(1,2) [of i "pr_conns s" "Handling evs"] Emit_buffer [of e "pr_emitter s" "Returns ()" em]
    by (simp add: remaining_def idles_one)
next
  case (emit_panics s i e evs p em)
  then show ?case using conns_measure(3,4) [of i "pr_conns s"] by (simp add: remaining_def idles_one)
next
  case (response_done s i c)
  then have "c = []" by simp
  with response_done show ?case using conns_measure(3,4) [of i "pr_conns s"]
    by (simp add: remaining_def idles_one without_def)
next
  case (drain s)
  then show ?case by (cases "le_events (pr_emitter s)") (simp_all add: remaining_def drain_one_fields)
qed (auto simp: remaining_def phases_ok_def shutting_down_def after_shutdown_def Let_def)

lemma shutdown_goes_on: "process_step pg s s' \<Longrightarrow> shutting_down s \<Longrightarrow> shutting_down s' \<or> pr_pc s' = Finished"
  by (induction rule: process_step.induct) (auto simp: shutting_down_def after_shutdown_def Let_def)

lemma finished_stuck: "process_step pg s s' \<Longrightarrow> pr_pc s \<noteq> Finished"
  by (induction rule: process_step.induct) auto

lemma not_stuck:
  assumes "phases_ok pg s" "shutting_down s"
  shows "\<exists>s'. process_step pg s s'"
proof (cases "pr_pc s")
  case InShutdown
  then show ?thesis using shutdown_times_out [of s pg] by blast
next
  case CallsClose
  then show ?thesis using close [of s pg] by blast
next
  case AwaitsDrain
  then have closed: "le_closed (pr_emitter s)" using assms(1) by (simp add: phases_ok_def)
  consider "pr_done s" | "le_events (pr_emitter s) \<noteq> []" | "le_events (pr_emitter s) = []" "\<not> pr_done s" by blast
  then show ?thesis
    using drained [of s pg] drain [of s pg] drain_ends [of s pg] closed AwaitsDrain by cases auto
qed (use assms in \<open>simp_all add: shutting_down_def\<close>)

lemma runs_ok: "runs pg s t \<Longrightarrow> phases_ok pg s \<Longrightarrow> shutting_down s \<Longrightarrow> phases_ok pg t \<and> (shutting_down t \<or> pr_pc t = Finished)"
  unfolding runs_def
  by (induction rule: rtranclp_induct) (use phases_step shutdown_goes_on finished_stuck in blast)+

lemma no_infinite_shutdown:
  assumes "phases_ok pg (f 0)" "shutting_down (f 0)"
  shows "\<not> (\<forall>i. process_step pg (f i) (f (Suc i)))"
proof
  assume step: "\<forall>i. process_step pg (f i) (f (Suc i))"
  have "runs pg (f 0) (f i)" for i
    unfolding runs_def by (induction i) (use step in \<open>auto intro: rtranclp.rtrancl_into_rtrancl\<close>)
  then have "phases_ok pg (f i)" "shutting_down (f i)" for i
    using runs_ok [OF _ assms] finished_stuck step by blast+
  then have "(remaining (f (Suc i)), remaining (f i)) \<in> less_than <*lex*> less_than" for i
    using remaining_decreases step by blast
  moreover have "wf (less_than <*lex*> less_than)" by auto
  ultimately show False
    using wf_no_infinite_down_chainE [of "less_than <*lex*> less_than" "\<lambda>i. remaining (f i)"] by blast
qed

section \<open>Examples\<close>

definition demo_event :: Event where
  "demo_event = \<lparr> e_Type = ''request_allowed'', e_WorkloadID = ''svc'', e_Attributes = [], e_Severity = ''info'' \<rparr>"

text \<open>A process that got a signal while a request has one event to emit.\<close>

definition demo_stopping :: process where
  "demo_stopping = launched\<lparr> pr_pc := InShutdown, pr_listening := False, pr_conns := [Handling [demo_event]],
     pr_log := [''shutting down''], gh_asked := [demo_event] \<rparr>"

definition demo_stopped :: process where
  "demo_stopped = launched\<lparr> pr_pc := Finished, pr_listening := False,
     pr_emitter := NewLogEmitter\<lparr> le_closed := True, le_logged := [(LevelInfo, demo_event)] \<rparr>, pr_done := True,
     pr_log := [''shutting down'', ''shutdown complete''], gh_ops := [DoEmit demo_event, DoDrain],
     gh_asked := [demo_event] \<rparr>"

lemmas demo_defs = launched_def proxy_program_def NewLogEmitter_def after_shutdown_def without_def demo_stopping_def
  demo_stopped_def Emit_def drain_one_def defaultBufferSize_def event_level_def

lemma demo_stopping_reached: "runs proxy_program launched demo_stopping"
proof -
  let ?pg = proxy_program
  let ?s1 = "launched\<lparr> pr_conns := [Idle] \<rparr>"
  let ?s2 = "?s1\<lparr> pr_conns := [Handling [demo_event]], gh_asked := [demo_event] \<rparr>"
  let ?s3 = "?s2\<lparr> pr_stop := True \<rparr>"
  let ?s4 = "?s3\<lparr> pr_pc := CallsShutdown, pr_stop := False, pr_log := [''shutting down''] \<rparr>"
  have "process_step ?pg launched ?s1" using accept [of launched ?pg] by (simp add: demo_defs)
  moreover have "process_step ?pg ?s1 ?s2" using request [of ?s1 0 ?pg "[demo_event]"] by (simp add: demo_defs)
  moreover have "process_step ?pg ?s2 ?s3" using signal [of ?s2 ?pg] by (simp add: demo_defs)
  moreover have "process_step ?pg ?s3 ?s4" using receives_stop [of ?s3 ?pg] by (simp add: demo_defs)
  moreover have "process_step ?pg ?s4 demo_stopping" using shutdown [of ?s4 ?pg] by (simp add: demo_defs)
  ultimately show ?thesis by (meson runs_step runs_refl)
qed

lemma demo_stopped_reached: "runs proxy_program launched demo_stopped"
proof -
  let ?pg = proxy_program
  let ?s1 = "demo_stopping\<lparr> pr_conns := [Handling []], pr_emitter := NewLogEmitter\<lparr> le_events := [demo_event] \<rparr>,
    gh_ops := [DoEmit demo_event] \<rparr>"
  let ?s2 = "?s1\<lparr> pr_conns := [] \<rparr>"
  let ?s3 = "?s2\<lparr> pr_pc := CallsClose \<rparr>"
  let ?s4 = "?s3\<lparr> pr_pc := AwaitsDrain, pr_emitter := NewLogEmitter\<lparr> le_events := [demo_event], le_closed := True \<rparr> \<rparr>"
  let ?s5 = "?s4\<lparr> pr_emitter := NewLogEmitter\<lparr> le_closed := True, le_logged := [(LevelInfo, demo_event)] \<rparr>,
    gh_ops := [DoEmit demo_event, DoDrain] \<rparr>"
  let ?s6 = "?s5\<lparr> pr_done := True \<rparr>"
  have "process_step ?pg demo_stopping ?s1"
    using emit [of demo_stopping 0 demo_event "[]" "NewLogEmitter\<lparr> le_events := [demo_event] \<rparr>" ?pg] by (simp add: demo_defs)
  moreover have "process_step ?pg ?s1 ?s2" using response_done [of ?s1 0 "[]" ?pg] by (simp add: demo_defs)
  moreover have "process_step ?pg ?s2 ?s3" using shutdown_returns [of ?s2 ?pg False] by (simp add: demo_defs)
  moreover have "process_step ?pg ?s3 ?s4" using close [of ?s3 ?pg] by (simp add: demo_defs)
  moreover have "process_step ?pg ?s4 ?s5" using drain [of ?s4 ?pg] by (simp add: demo_defs demo_event_def)
  moreover have "process_step ?pg ?s5 ?s6" using drain_ends [of ?s5 ?pg] by (simp add: demo_defs)
  moreover have "process_step ?pg ?s6 demo_stopped" using drained [of ?s6 ?pg] by (simp add: demo_defs)
  ultimately have "runs ?pg demo_stopping demo_stopped" by (meson runs_step runs_refl)
  with demo_stopping_reached show ?thesis by (rule runs_trans)
qed

section \<open>Properties\<close>

text \<open>
  C15. Shutting down terminates. Once the listeners of either server are closed, no interleaving of
  requests in progress, further signals, the drain goroutine and \<^verbatim>\<open>main\<close> goes on for ever, and none
  gets stuck before \<^verbatim>\<open>main\<close> has returned; however many events the remaining requests emit.
\<close>

theorem shutdown_terminates:
  assumes "runs pg launched s" "shutting_down s"
  shows "\<not> (\<exists>f. f 0 = s \<and> (\<forall>i. process_step pg (f i) (f (Suc i)))) \<and>
    (\<forall>t. runs pg s t \<and> \<not> (\<exists>u. process_step pg t u) \<longrightarrow> pr_pc t = Finished)"
proof -
  have ok: "phases_ok pg s" using process_ok [OF assms(1)] by (simp add: graceful_ok_def)
  show ?thesis
    using no_infinite_shutdown [of pg] runs_ok [OF _ ok assms(2)] not_stuck [of pg] ok assms(2) by metis
qed

theorem shutdown_terminates_witness:
  "\<not> (\<exists>f. f 0 = demo_stopping \<and> (\<forall>i. process_step proxy_program (f i) (f (Suc i))))"
  using shutdown_terminates [OF demo_stopping_reached] by (simp add: shutting_down_def demo_stopping_def)

text \<open>
  C14. A shutdown loses nothing silently. When the proxy has shut down, its event buffer is empty,
  the log is a subsequence of the events that were emitted, in their order and each at the level
  of its severity, and the drop counter is the number of those missing. Unless \<open>Shutdown\<close> ran out of time, moreover, no request was
  aborted, no connection is left, and what was emitted are exactly the events of all requests
  that ever began.
\<close>

theorem graceful_shutdown:
  assumes "runs pg launched t" "pr_pc t = Finished" "pg_closes_emitter pg"
  shows "le_events (pr_emitter t) = [] \<and>
    subseq (map snd (le_logged (pr_emitter t))) (emitted (gh_ops t)) \<and>
    list_all (\<lambda>(l, x). l = event_level x) (le_logged (pr_emitter t)) \<and>
    Dropped (pr_emitter t) = wrap64 (int (length (emitted (gh_ops t))) - int (length (le_logged (pr_emitter t)))) \<and>
    (gh_timed_out t \<or> gh_aborted t = 0 \<and> pr_conns t = [] \<and> mset (emitted (gh_ops t)) = mset (gh_asked t))"
proof -
  have g: "graceful_ok pg t" "events_ok t" using process_ok [OF assms(1)] by simp_all
  then have "pr_done t" "le_events (pr_emitter t) = []" using assms(2,3) by (simp_all add: graceful_ok_def phases_ok_def)
  with g assms(2) show ?thesis
    by (auto simp: graceful_ok_def events_ok_def accounted_def Dropped_def pendings_def list_all_iff)
qed

theorem graceful_shutdown_witness:
  "subseq (map snd (le_logged (pr_emitter demo_stopped))) (emitted (gh_ops demo_stopped)) \<and>
   mset (emitted (gh_ops demo_stopped)) = {#demo_event#} \<and> Dropped (pr_emitter demo_stopped) = 0"
  using graceful_shutdown [OF demo_stopped_reached]
  by (simp add: demo_stopped_def proxy_program_def launched_def emitted_def NewLogEmitter_def wrap64_def)

text \<open>
  A request that is still running when \<open>Shutdown\<close> gives up is aborted by its next event: the
  emitter is closed under it, and \<open>Emit\<close> panics.
\<close>

lemma timeout_aborts_request:
  assumes "pr_pc s = InShutdown" "pg_closes_emitter pg"
    and "i < length (pr_conns s)" "pr_conns s ! i = Handling (e # evs)"
  shows "\<exists>t. runs pg s t \<and> gh_aborted t = Suc (gh_aborted s) \<and> gh_lost t = gh_lost s @ e # evs"
proof -
  let ?s1 = "after_shutdown pg True (s\<lparr> gh_timed_out := True \<rparr>)"
  let ?s2 = "?s1\<lparr> pr_pc := AwaitsDrain, pr_emitter := (pr_emitter ?s1)\<lparr> le_closed := True \<rparr> \<rparr>"
  let ?t = "?s2\<lparr> pr_conns := without i (pr_conns ?s2), gh_lost := gh_lost ?s2 @ e # evs,
    gh_aborted := Suc (gh_aborted ?s2) \<rparr>"
  have s1: "pr_pc ?s1 = CallsClose" "pr_conns ?s2 = pr_conns s" "gh_aborted ?s2 = gh_aborted s" "gh_lost ?s2 = gh_lost s"
    using assms(2) by (simp_all add: after_shutdown_def Let_def)
  have "process_step pg s ?s1" using shutdown_times_out [of s pg] assms(1) by simp
  moreover have "process_step pg ?s1 ?s2" using close [of ?s1 pg] s1 by simp
  moreover have "process_step pg ?s2 ?t"
    by (rule emit_panics [of _ _ _ _ SendOnClosedChannel "pr_emitter ?s2"]) (use assms(3,4) s1 in \<open>simp_all add: Emit_def\<close>)
  ultimately have "runs pg s ?t" by (meson runs_step runs_refl)
  moreover have "gh_aborted ?t = Suc (gh_aborted s)" "gh_lost ?t = gh_lost s @ e # evs" using s1(3,4) by simp_all
  ultimately show ?thesis by blast
qed

end
