(* ===== verification/Spec2Isabelle.thy ===== *)
theory Spec2Isabelle
  imports Tracker_Interleaving Installation Telemetry Lifecycle
begin

text \<open>
  Koshi Runtime: a proxy that enforces token budgets on LLM traffic, and the webhook that puts
  it beside an application as a sidecar. This development models its Go sources and proves what
  makes them correct, and, where they do not do what they mean to, what they do instead.

  \<^bold>\<open>The program and the theories.\<close> A request passes through the handler
  (\<^verbatim>\<open>internal/proxy\<close>), which asks a resolver who sent it (\<^verbatim>\<open>internal/identity\<close>), an engine
  which policy applies (\<^verbatim>\<open>internal/policy\<close>), a guard and a decider (\<^verbatim>\<open>internal/enforce\<close>) and
  the budget tracker (\<^verbatim>\<open>internal/budget\<close>), sends it to the provider's upstream, reads the usage
  out of the answer (\<^verbatim>\<open>internal/provider\<close>, \<^verbatim>\<open>internal/proxy/sse.go\<close>) and corrects the
  reservation; every step emits events (\<^verbatim>\<open>internal/emit\<close>). \<^verbatim>\<open>cmd/koshi\<close> wires the parts from a
  configuration (\<^verbatim>\<open>internal/config\<close>); \<^verbatim>\<open>internal/inject\<close> adds sidecars to pods.

  \<^item> \<open>Koshi_Prelude\<close>: 64-bit integers with wrap-around, times, byte strings, panics as values.
  \<^item> \<open>Rolling_Window\<close> (\<^verbatim>\<open>budget/window.go\<close>): the circular buffer as a record, \<open>advance\<close>,
    \<open>Add\<close>, \<open>Total\<close>, the burst counter; refinement of a log of charges and refunds up to a drift:
    the total is the sum of the last seconds as long as no addition takes that sum below zero;
    when one does, after a refund outlived its charge, the two differ until the window has been
    idle for its whole length. \<open>Budget_Tracker\<close> compares a request with status reads at the same
    times (\<open>ahead\<close>), which holds whatever drift the window has.
  \<^item> \<open>Budget_Tracker\<close> (\<^verbatim>\<open>budget/tracker.go\<close>): a map of windows; \<open>Register\<close>, \<open>Reserve\<close>,
    \<open>Record\<close>, \<open>Status\<close>, \<open>StatusAll\<close>, with every clock reading an argument; the contract the
    handler relies on is the locale \<open>budget_tracker\<close>, interpreted on these operations.
  \<^item> \<open>Tracker_Interleaving\<close>: the same operations cut at their lock operations, and the step
    relation \<open>sched\<close> of any number of concurrent calls; invariants by rule induction.
  \<^item> \<open>Config\<close> (\<^verbatim>\<open>config/config.go\<close>), \<open>Workload_Identity\<close> (\<^verbatim>\<open>identity\<close>), \<open>Policy_Engine\<close>
    (\<^verbatim>\<open>policy\<close>), \<open>Enforce\<close> (\<^verbatim>\<open>enforce\<close>, \<^verbatim>\<open>fanout\<close>): data, validation against a declarative
    specification, resolution, decisions; the interfaces \<^verbatim>\<open>Resolver\<close> and \<^verbatim>\<open>Engine\<close> are the
    locales \<open>identity_source\<close> and \<open>policy_source\<close>.
  \<^item> \<open>Http_Types\<close>, \<open>Json\<close>: what the code uses of \<^verbatim>\<open>net/http\<close> and \<^verbatim>\<open>encoding/json\<close>: header
    keys, a lexer, a parser that is a state machine with an explicit stack, field matching,
    number and string decoding.
  \<^item> \<open>Provider\<close> (\<^verbatim>\<open>provider\<close>, \<^verbatim>\<open>proxy/tokencount.go\<close>), \<open>Sse_Stream\<close> (\<^verbatim>\<open>proxy/sse.go\<close>,
    \<^verbatim>\<open>anthropic_sse.go\<close>), \<open>Emitter\<close> (\<^verbatim>\<open>emit\<close>): usage parsers, the stream reader that watches an
    event stream go by, the bounded event queue.
  \<^item> \<open>Proxy\<close> (\<^verbatim>\<open>proxy/proxy.go\<close>, \<^verbatim>\<open>shadow.go\<close>, \<^verbatim>\<open>metrics.go\<close>): the request handler as a state
    transformer that can panic (\<open>'a act\<close>); \<open>ServeHTTP\<close> recovers as the deferred function does.
    \<open>Proxy_Properties\<close>, \<open>Request_Properties\<close>, \<open>Request_Failures\<close> and \<open>Listener_Mode\<close> prove what
    it does on every path: what all steps keep (locale \<open>kept_by_steps\<close>, interpreted on \<open>progress\<close>
    and, in \<open>Telemetry\<close>, on \<open>emits\<close>; collection \<open>prog\<close>), which steps answer (\<open>ans\<close>),
    which only log and count (\<open>quieting\<close>), then one theorem per kind of request.
  \<^item> \<open>Startup\<close> (\<^verbatim>\<open>cmd/koshi/main.go\<close>): role dispatch, choice of the configuration, wiring.
  \<^item> \<open>Inject\<close> (\<^verbatim>\<open>inject\<close>, \<^verbatim>\<open>cmd/koshi/injector.go\<close>): the webhook, its patches, and the JSON Patch
    semantics that says what they do.
  \<^item> \<open>Json_Roundtrip\<close>: what \<^verbatim>\<open>json.Marshal\<close> writes is read back as the same document, through
    quoting, escaping and UTF-8; \<open>Request_Body\<close> uses it for the rewritten request
    (\<^verbatim>\<open>proxy/tokencount.go\<close>), \<open>Base64\<close> and \<open>Certgen\<close> for the patch of the CA bundle.
  \<^item> \<open>Certgen\<close> (\<^verbatim>\<open>internal/certgen\<close>, \<^verbatim>\<open>cmd/koshi/certgen.go\<close>, \<^verbatim>\<open>inject/tls.go\<close>): the two certificate
    phases, the secret, the patch document, and loading the certificate.
  \<^item> \<open>Serving\<close> (the muxes of \<^verbatim>\<open>main.go\<close> and \<^verbatim>\<open>injector.go\<close>): which handler a request reaches.
    \<open>Installation\<close> composes certificate phases, injector and API server.
  \<^item> \<open>Telemetry\<close> (\<^verbatim>\<open>genops/spec.go\<close>): what ends up in the event log against the specification.
  \<^item> \<open>Lifecycle\<close> (\<^verbatim>\<open>main.go\<close>, \<^verbatim>\<open>injector.go\<close> from listening to exit): signal, server, connections, drain
    goroutine and \<^verbatim>\<open>main\<close> as a step relation; invariants by rule induction, termination by a
    lexicographic measure.
  \<^item> This theory: the properties that span webhook, start-up and handler.

  \<^bold>\<open>Correspondence.\<close> Structs are records and enumerations datatypes with the source's names;
  where a Go name clashes with another it carries a prefix (\<open>wl_ID\<close>, \<open>pol_ID\<close>) or the name of its
  receiver (\<open>HeaderResolver_Resolve\<close>). An error is a value of a sum or option type, a panic an
  \<open>outcome\<close>; every addition or negation that can leave 64 bits is written with \<open>wrap64\<close>. A Go map
  is a HOL map, or an association list where the order of iteration matters or has to be shown not
  to matter. \<open>make\<close> of a slice panics beyond the address space of a 64-bit Linux build
  (\<open>max_buckets\<close>). Loops are structural recursions or functions with a termination measure, so there is
  no fuel anywhere: the longest, the JSON parser, consumes a token per step.

  \<^bold>\<open>Arguments.\<close> Code outside the repository is an argument of the definitions that use it: the
  YAML decoder, the file system, the environment, the URL parser, Prometheus counters (whether
  adding a value panics) and labels (whether a value panics; that these are the strings that are
  not UTF-8 is the hypothesis \<open>utf8_labels\<close>), the upstream and how much of its answer the client takes, the Kubernetes
  decoders and client, and the X.509, PEM and RSA functions of Go's \<^verbatim>\<open>crypto\<close>. What the code relies
  on of the last two is named (\<open>x509_laws\<close>, \<open>kube_laws\<close>: what is encoded is decoded again, a
  signature verifies under the key that made it and no other, what is stored is read back) and
  shown to hold of concrete instances in \<open>Installation\<close>. \<^verbatim>\<open>httputil.ReverseProxy\<close>,
  \<^verbatim>\<open>http.ServeMux\<close> and \<^verbatim>\<open>http.Server\<close> belong to Go's library and are modelled as far as the program
  uses them.

  \<^bold>\<open>Not modelled.\<close> Log lines of the runtime logger other than those of the shutdown, the time
  limits of the HTTP servers in seconds (a timeout may happen at any moment of a shutdown),
  running out of memory, the headers \<^verbatim>\<open>httputil.ReverseProxy\<close> removes and adds on its own, the
  text format of the Prometheus endpoint, and test code.
\<close>

section \<open>From the webhook to the running sidecar\<close>

text \<open>The environment a container starts with.\<close>

definition container_environment :: "Container \<Rightarrow> environment" where
  "container_environment c x =
     (case map_of (map (\<lambda>e. (ev_Name e, ev_Value e)) (env_list c)) x of None \<Rightarrow> '''' | Some v \<Rightarrow> v)"

definition injected_sidecar :: "WebhookConfig \<Rightarrow> (nat \<Rightarrow> bool) \<Rightarrow> Pod \<Rightarrow> string \<Rightarrow> Container" where
  "injected_sidecar cfg order pod ns = last (pod_Containers (injected cfg order pod ns))"

definition policy_annotation :: "Pod \<Rightarrow> string" where
  "policy_annotation pod = (case annotation pod ''runtime.getkoshi.ai/policy'' of None \<Rightarrow> '''' | Some p \<Rightarrow> p)"

lemma sidecar_variables:
  assumes "config_map pod = None"
  shows "map (\<lambda>e. (ev_Name e, ev_Value e)) (sidecar_env cfg pod ns) =
     [(''KOSHI_LISTEN_ADDR'', '':'' @ itoa (wc_SidecarPort cfg)), (''KOSHI_POD_NAMESPACE'', ns),
      (''KOSHI_WORKLOAD_KIND'', fst (pod_owner pod)), (''KOSHI_WORKLOAD_NAME'', snd (pod_owner pod)),
      (''KOSHI_POD_NAME'', if pod_Name pod = '''' then pod_GenerateName pod else pod_Name pod)]
     @ (if annotation pod ''runtime.getkoshi.ai/mode'' = Some ''enforcement'' then [(''KOSHI_MODE'', ''enforcement'')] else [])
     @ (if policy_annotation pod \<noteq> '''' then [(''KOSHI_POLICY_OVERRIDE'', policy_annotation pod)] else [])"
proof -
  obtain k n where own: "pod_owner pod = (k, n)" by fastforce
  have c: "(case annotation pod ''runtime.getkoshi.ai/configmap'' of None \<Rightarrow> [] | Some c \<Rightarrow> if c \<noteq> '''' then xs else []) = []"
    for xs :: "EnvVar list"
    using assms unfolding config_map_def by (cases "annotation pod ''runtime.getkoshi.ai/configmap''") (auto split: if_splits)
  have p: "map (\<lambda>e. (ev_Name e, ev_Value e)) (case annotation pod ''runtime.getkoshi.ai/policy'' of None \<Rightarrow> []
      | Some p \<Rightarrow> if p \<noteq> '''' then [\<lparr> ev_Name = ''KOSHI_POLICY_OVERRIDE'', ev_Value = p \<rparr>] else []) =
      (if policy_annotation pod \<noteq> '''' then [(''KOSHI_POLICY_OVERRIDE'', policy_annotation pod)] else [])"
    unfolding policy_annotation_def by (cases "annotation pod ''runtime.getkoshi.ai/policy''") simp_all
  show ?thesis
    unfolding sidecar_env_def own prod.case c map_append p fst_conv snd_conv
    by (cases "annotation pod ''runtime.getkoshi.ai/mode'' = Some ''enforcement''") simp_all
qed

lemma sidecar_environment:
  fixes cfg order pod ns
  defines "env \<equiv> container_environment (injected_sidecar cfg order pod ns)"
  assumes "config_map pod = None"
  shows "env ''KOSHI_CONFIG_PATH'' = ''''" "env ''KOSHI_POD_NAMESPACE'' = ns"
    "env ''KOSHI_WORKLOAD_KIND'' = fst (pod_owner pod)" "env ''KOSHI_WORKLOAD_NAME'' = snd (pod_owner pod)"
    "env ''KOSHI_MODE'' = (if annotation pod ''runtime.getkoshi.ai/mode'' = Some ''enforcement'' then ''enforcement'' else '''')"
    "env ''KOSHI_POLICY_OVERRIDE'' = policy_annotation pod"
proof -
  have "env_list (injected_sidecar cfg order pod ns) = sidecar_env cfg pod ns"
    by (simp add: injected_sidecar_def injected_def sidecar_def env_list_def)
  then have e: "env x = (case map_of (map (\<lambda>e. (ev_Name e, ev_Value e)) (sidecar_env cfg pod ns)) x of
      None \<Rightarrow> '''' | Some v \<Rightarrow> v)" for x
    by (simp add: env_def container_environment_def)
  show "env ''KOSHI_CONFIG_PATH'' = ''''" "env ''KOSHI_POD_NAMESPACE'' = ns"
    "env ''KOSHI_WORKLOAD_KIND'' = fst (pod_owner pod)" "env ''KOSHI_WORKLOAD_NAME'' = snd (pod_owner pod)"
    "env ''KOSHI_MODE'' = (if annotation pod ''runtime.getkoshi.ai/mode'' = Some ''enforcement'' then ''enforcement'' else '''')"
    "env ''KOSHI_POLICY_OVERRIDE'' = policy_annotation pod"
    unfolding e sidecar_variables [OF assms(2)] by simp_all
qed

section \<open>Properties\<close>

text \<open>
  C5. An injected pod is enforced as annotated. For a pod annotated with enforcement mode,
  without a configuration of its own, whose policy annotation is absent or names a built-in
  policy: the sidecar the webhook adds starts from the variables the webhook gives it, and every
  request it serves, whatever its headers, is identified as the workload of the pod's owner
  (namespace, kind and name), governed by the annotated policy, and charged to an account that
  has exactly that policy's budget.
\<close>

theorem injected_pod_is_enforced:
  assumes "annotation pod ''runtime.getkoshi.ai/mode'' = Some ''enforcement''" "config_map pod = None"
    and "policy_annotation pod = '''' \<or> knows_policy DefaultEnforcementSidecarConfig (policy_annotation pod)"
    and "pod_owner pod = (kind, name)" "ns \<noteq> ''''" "kind \<noteq> ''''" "name \<noteq> ''''"
    and "trim_space ns = ns" "trim_space kind = kind" "trim_space name = name"
  shows "\<exists>h s. boot (container_environment (injected_sidecar cfg order pod ns)) read_file unmarshal clk version =
       Returns (Inr (h, s)) \<and> tracker_ok (st_tracker s) \<and> \<not> IsDegraded s \<and> \<not> isListenerMode h \<and>
     (\<forall>r. \<exists>ident p. Resolve (hd_resolver h) r = Inr ident \<and>
       wi_WorkloadID ident = ns @ ''/'' @ kind @ ''/'' @ name \<and> Lookup (hd_policyEngine h) ident = Some p \<and>
       pol_ID p = (if policy_annotation pod \<noteq> '''' then policy_annotation pod else ''sidecar-baseline'') \<and>
       windows (st_tracker s) (accountingKey h (wi_WorkloadID ident)) =
         Some (fresh_state (clk (wi_WorkloadID ident)) (budget_params p)))"
proof -
  let ?env = "container_environment (injected_sidecar cfg order pod ns)"
  note e = sidecar_environment [OF assms(2), of cfg order ns]
  have m: "?env ''KOSHI_MODE'' = ''enforcement''" using e(5) assms(1) by simp
  have own: "?env ''KOSHI_WORKLOAD_KIND'' = kind" "?env ''KOSHI_WORKLOAD_NAME'' = name"
    using e(3,4) assms(4) by simp_all
  show ?thesis
    using sidecar_enforces_pod_policy [OF e(1) m, of read_file unmarshal clk version] assms(3,5-10)
    unfolding e(2,6) own by blast
qed

theorem injected_pod_is_enforced_witness:
  "\<exists>h s. boot (container_environment (injected_sidecar demo_webhook (\<lambda>_. True) demo_pod ''prod''))
       (\<lambda>_. Inl ''none'') (\<lambda>_. Inl ''none'') (\<lambda>_. 0) ''dev'' = Returns (Inr (h, s)) \<and>
     (\<exists>ident. Resolve (hd_resolver h) blank_request = Inr ident \<and> wi_WorkloadID ident = ''prod/Deployment/chat'')"
proof -
  have d: "annotation demo_pod ''runtime.getkoshi.ai/mode'' = Some ''enforcement''" "config_map demo_pod = None"
    "policy_annotation demo_pod = '''' \<or> knows_policy DefaultEnforcementSidecarConfig (policy_annotation demo_pod)"
    "pod_owner demo_pod = (''Deployment'', ''chat'')" "trim_space ''prod'' = ''prod''"
    "trim_space ''Deployment'' = ''Deployment''" "trim_space ''chat'' = ''chat''"
    by code_simp+
  show ?thesis
    using injected_pod_is_enforced [OF d(1-4) _ _ _ d(5-7), of demo_webhook "\<lambda>_. True" "\<lambda>_. Inl ''none''"
        "\<lambda>_. Inl ''none''" "\<lambda>_. 0" "''dev''"]
    by (simp del: append.simps) (metis append.simps)
qed

end
